(* ===== verification/Prelude.thy ===== *)
theory Prelude
  imports Main "HOL-Library.Char_ord" "HOL-Library.List_Lexorder"
    "HOL-Library.Product_Lexorder" "HOL-Library.Word"
begin

text \<open>
  Shared vocabulary of the development: Rust's \<open>Result\<close> as a sum type, early return
  from a computation that threads a state, \<open>str\<close> as its UTF-8 bytes with the standard
  library's \<open>trim\<close>, \<open>split\<close>, \<open>strip_prefix\<close> and \<open>parse::<u64>\<close>, checked and saturating
  \<open>i64\<close> arithmetic, and \<open>BTreeMap\<close> as an association list ordered by key.  The lemmas
  here are generic; the components add them to the simpset or to the collections
  declared below.
\<close>

named_theorems result_simps \<open>elimination of the result combinators in a hypothesis\<close>
named_theorems bt_simps \<open>lookup laws of ordered association lists\<close>

section \<open>Results\<close>

text \<open>
  \<open>Result<T, E>\<close> is \<open>'e + 'a\<close> with \<open>Inl\<close> for \<open>Err\<close>.  \<open>and_then\<close> is the
  \<open>?\<close> operator in a pure function; \<open>and_then_st\<close> is \<open>?\<close> in a function that threads a
  state, where an early return keeps the state reached so far.
\<close>

definition and_then :: "'e + 'a \<Rightarrow> ('a \<Rightarrow> 'e + 'b) \<Rightarrow> 'e + 'b" where
  "and_then m k = (case m of Inl e \<Rightarrow> Inl e | Inr x \<Rightarrow> k x)"

definition and_then_st :: "'e + 'a \<Rightarrow> 's \<Rightarrow> ('a \<Rightarrow> ('e + 'b) \<times> 's) \<Rightarrow> ('e + 'b) \<times> 's" where
  "and_then_st m s k = (case m of Inl e \<Rightarrow> (Inl e, s) | Inr x \<Rightarrow> k x)"

definition map_err :: "('e \<Rightarrow> 'f) \<Rightarrow> 'e + 'a \<Rightarrow> 'f + 'a" where
  "map_err f m = (case m of Inl e \<Rightarrow> Inl (f e) | Inr x \<Rightarrow> Inr x)"

definition ok_or :: "'e \<Rightarrow> 'a option \<Rightarrow> 'e + 'a" where
  "ok_or e m = (case m of None \<Rightarrow> Inl e | Some x \<Rightarrow> Inr x)"

definition ensure :: "bool \<Rightarrow> 'e \<Rightarrow> 'e + unit" where
  "ensure b e = (if b then Inr () else Inl e)"

text \<open>\<open>if let Some(v) = x { .. }\<close> over a value being built, with and without \<open>?\<close> inside.\<close>

definition if_some :: "'a option \<Rightarrow> ('a \<Rightarrow> 'r \<Rightarrow> 'r) \<Rightarrow> 'r \<Rightarrow> 'r" where
  "if_some x f r = (case x of None \<Rightarrow> r | Some v \<Rightarrow> f v r)"

definition try_some :: "'a option \<Rightarrow> ('a \<Rightarrow> 'r \<Rightarrow> 'e + 'r) \<Rightarrow> 'r \<Rightarrow> 'e + 'r" where
  "try_some x f r = (case x of None \<Rightarrow> Inr r | Some v \<Rightarrow> f v r)"

lemma if_some_simps [simp]: "if_some None f r = r" "if_some (Some v) f r = f v r"
  by (simp_all add: if_some_def)

lemma try_some_simps [simp]: "try_some None f r = Inr r" "try_some (Some v) f r = f v r"
  by (simp_all add: try_some_def)

lemma if_some_keeps: "Q r \<Longrightarrow> (\<And>v. x = Some v \<Longrightarrow> Q (f v r)) \<Longrightarrow> Q (if_some x f r)"
  by (cases x) auto

lemma try_some_keeps:
  "try_some x f r = Inr r' \<Longrightarrow> Q r \<Longrightarrow> (\<And>v. x = Some v \<Longrightarrow> f v r = Inr r' \<Longrightarrow> Q r') \<Longrightarrow> Q r'"
  by (cases x) auto

lemma and_then_simps [simp]:
  "and_then (Inl e) k = Inl e"
  "and_then (Inr x) k = k x"
  by (simp_all add: and_then_def)

lemma and_then_st_simps [simp]:
  "and_then_st (Inl e) s k = (Inl e, s)"
  "and_then_st (Inr x) s k = k x"
  by (simp_all add: and_then_st_def)

lemma map_err_simps [simp]:
  "map_err f (Inl e) = Inl (f e)"
  "map_err f (Inr x) = Inr x"
  by (simp_all add: map_err_def)

lemma ok_or_simps [simp]:
  "ok_or e None = Inl e"
  "ok_or e (Some x) = Inr x"
  by (simp_all add: ok_or_def)

lemma ensure_simps [simp]:
  "ensure True e = Inr ()"
  "ensure False e = Inl e"
  by (simp_all add: ensure_def)

lemma and_then_Inr [result_simps]:
  "and_then m k = Inr y \<longleftrightarrow> (\<exists>x. m = Inr x \<and> k x = Inr y)"
  by (cases m) auto

lemma and_then_st_Inr [result_simps]:
  "and_then_st m s k = (Inr y, t) \<longleftrightarrow> (\<exists>x. m = Inr x \<and> k x = (Inr y, t))"
  by (cases m) auto

lemma map_err_Inr [result_simps]: "map_err f m = Inr y \<longleftrightarrow> m = Inr y"
  by (cases m) auto

lemma ok_or_Inr [result_simps]: "ok_or e m = Inr y \<longleftrightarrow> m = Some y"
  by (cases m) auto

lemma ensure_Inr [result_simps]: "ensure b e = Inr y \<longleftrightarrow> b"
  by (cases b) auto

lemma and_then_Inl [result_simps]:
  "and_then m k = Inl e \<longleftrightarrow> m = Inl e \<or> (\<exists>x. m = Inr x \<and> k x = Inl e)"
  by (cases m) (auto simp: and_then_def)

lemma and_then_st_Inl [result_simps]:
  "and_then_st m s k = (Inl e, t) \<longleftrightarrow> m = Inl e \<and> t = s \<or> (\<exists>x. m = Inr x \<and> k x = (Inl e, t))"
  by (cases m) (auto simp: and_then_st_def)

lemma map_err_Inl [result_simps]: "map_err f m = Inl e \<longleftrightarrow> (\<exists>d. m = Inl d \<and> e = f d)"
  by (cases m) (auto simp: map_err_def)

lemma ok_or_Inl [result_simps]: "ok_or e m = Inl d \<longleftrightarrow> m = None \<and> d = e"
  by (cases m) (auto simp: ok_or_def)

lemma ensure_Inl [result_simps]: "ensure b e = Inl d \<longleftrightarrow> \<not> b \<and> d = e"
  by (auto simp: ensure_def)

lemma case_prod_eq_iff [result_simps]:
  "(case p of (a, b) \<Rightarrow> f a b) = y \<longleftrightarrow> (\<exists>a b. p = (a, b) \<and> f a b = y)"
  by (cases p) auto

lemma and_then_st_cases:
  assumes "and_then_st m s k = (r, t)"
  obtains (early) e where "m = Inl e" "r = Inl e" "t = s"
    | (continue) x where "m = Inr x" "k x = (r, t)"
  using assms by (cases m) auto

lemma and_then_cong [fundef_cong]:
  "m = m' \<Longrightarrow> (\<And>x. m' = Inr x \<Longrightarrow> k x = k' x) \<Longrightarrow> and_then m k = and_then m' k'"
  by (cases m') auto

text \<open>An operation that did not just fail in its first state got past each of its checks.\<close>

definition progressed :: "'e + 'a \<Rightarrow> 's \<Rightarrow> 's \<Rightarrow> bool" where
  "progressed x s t \<longleftrightarrow> \<not> (isl x \<and> t = s)"

lemma progressed_simps [simp]: "\<not> progressed (Inl e) s s" "progressed (Inr v) s t"
  by (simp_all add: progressed_def)

lemma progressedI: "t \<noteq> s \<Longrightarrow> progressed x s t"
  by (simp add: progressed_def)

lemma and_then_st_progress:
  "and_then_st m s k = (x, t) \<Longrightarrow> progressed x s t \<Longrightarrow> \<exists>v. m = Inr v \<and> k v = (x, t)"
  by (cases m) (auto simp: and_then_st_def)

lemma and_then_st_cong [fundef_cong]:
  "m = m' \<Longrightarrow> s = s' \<Longrightarrow> (\<And>x. m' = Inr x \<Longrightarrow> k x = k' x) \<Longrightarrow>
    and_then_st m s k = and_then_st m' s' k'"
  by (cases m') auto

section \<open>Machine integers\<close>

text \<open>
  \<open>i64\<close> and \<open>u64\<close> values are kept as \<open>int\<close> and \<open>nat\<close> with the range written out
  where the code depends on it.
\<close>

definition i64_min :: int where "i64_min = - (2 ^ 63)"
definition i64_max :: int where "i64_max = 2 ^ 63 - 1"
definition u64_modulus :: nat where "u64_modulus = 2 ^ 64"

definition i64_checked_add :: "int \<Rightarrow> int \<Rightarrow> int option" where
  "i64_checked_add a b = (if i64_min \<le> a + b \<and> a + b \<le> i64_max then Some (a + b) else None)"

definition i64_saturating_sub :: "int \<Rightarrow> int \<Rightarrow> int" where
  "i64_saturating_sub a b = max i64_min (min i64_max (a - b))"

definition u64_wrapping_inc :: "nat \<Rightarrow> nat" where
  "u64_wrapping_inc v = (v + 1) mod u64_modulus"

lemma i64_checked_add_Some [result_simps]:
  "i64_checked_add a b = Some c \<longleftrightarrow> c = a + b \<and> i64_min \<le> a + b \<and> a + b \<le> i64_max"
  by (auto simp: i64_checked_add_def)

section \<open>Strings\<close>

text \<open>
  A Rust \<open>str\<close> is the list of its UTF-8 bytes, so \<open>length\<close> is \<open>str::len\<close>.  The
  characters of a string are the maximal runs of a lead byte and its continuation
  bytes; \<open>char::is_control\<close> is the category Cc (U+0000 to U+001F, U+007F to U+009F) and
  \<open>char::is_whitespace\<close> the property White\_Space, both read off the encoded bytes.
\<close>

definition is_continuation :: "char \<Rightarrow> bool" where
  "is_continuation c = (128 \<le> (of_char c :: nat) \<and> (of_char c :: nat) < 192)"

function utf8_chars :: "string \<Rightarrow> string list" where
  "utf8_chars [] = []"
| "utf8_chars (c # cs) =
     (c # takeWhile is_continuation cs) # utf8_chars (dropWhile is_continuation cs)"
  by pat_completeness auto
termination
  by (relation "measure length") (auto simp: le_imp_less_Suc length_dropWhile_le)

definition is_control :: "string \<Rightarrow> bool" where
  "is_control ch =
     (case map of_char ch :: nat list of
        [a] \<Rightarrow> a < 32 \<or> a = 127
      | [a, b] \<Rightarrow> a = 194 \<and> 128 \<le> b \<and> b < 160
      | _ \<Rightarrow> False)"

definition is_whitespace :: "string \<Rightarrow> bool" where
  "is_whitespace ch =
     (case map of_char ch :: nat list of
        [a] \<Rightarrow> (9 \<le> a \<and> a \<le> 13) \<or> a = 32
      | [a, b] \<Rightarrow> a = 194 \<and> (b = 133 \<or> b = 160)
      | [a, b, c] \<Rightarrow>
          (a = 225 \<and> b = 154 \<and> c = 128)
          \<or> (a = 226 \<and> b = 128 \<and> (128 \<le> c \<and> c \<le> 138 \<or> c = 168 \<or> c = 169 \<or> c = 175))
          \<or> (a = 226 \<and> b = 129 \<and> c = 159)
          \<or> (a = 227 \<and> b = 128 \<and> c = 128)
      | _ \<Rightarrow> False)"

definition has_control :: "string \<Rightarrow> bool" where
  "has_control s = list_ex is_control (utf8_chars s)"

definition chars_count :: "string \<Rightarrow> nat" where
  "chars_count s = length (utf8_chars s)"

definition trim :: "string \<Rightarrow> string" where
  "trim s = concat (rev (dropWhile is_whitespace (rev (dropWhile is_whitespace (utf8_chars s)))))"

definition contains_char :: "char \<Rightarrow> string \<Rightarrow> bool" where
  "contains_char c s = (c \<in> set s)"

fun split_on :: "char \<Rightarrow> string \<Rightarrow> string list" where
  "split_on d [] = [[]]"
| "split_on d (c # cs) =
     (if c = d then [] # split_on d cs
      else (case split_on d cs of [] \<Rightarrow> [[c]] | w # ws \<Rightarrow> (c # w) # ws))"

fun join_with :: "string \<Rightarrow> string list \<Rightarrow> string" where
  "join_with sep [] = []"
| "join_with sep [w] = w"
| "join_with sep (w # v # ws) = w @ sep @ join_with sep (v # ws)"

definition starts_with :: "string \<Rightarrow> string \<Rightarrow> bool" where
  "starts_with s p = (take (length p) s = p)"

definition ends_with :: "string \<Rightarrow> string \<Rightarrow> bool" where
  "ends_with s p = (length p \<le> length s \<and> drop (length s - length p) s = p)"

definition strip_suffix_char :: "char \<Rightarrow> string \<Rightarrow> string option" where
  "strip_suffix_char c s = (if s \<noteq> [] \<and> last s = c then Some (butlast s) else None)"

definition strip_prefix_char :: "char \<Rightarrow> string \<Rightarrow> string option" where
  "strip_prefix_char c s = (case s of [] \<Rightarrow> None | x # xs \<Rightarrow> if x = c then Some xs else None)"

definition strip_prefix :: "string \<Rightarrow> string \<Rightarrow> string option" where
  "strip_prefix p s = (if starts_with s p then Some (drop (length p) s) else None)"

lemma concat_utf8_chars [simp]: "concat (utf8_chars s) = s"
  by (induction s rule: utf8_chars.induct) auto

lemma utf8_chars_eq_Nil [simp]: "utf8_chars s = [] \<longleftrightarrow> s = []"
  by (cases s) auto

lemma utf8_chars_nonempty: "w \<in> set (utf8_chars s) \<Longrightarrow> w \<noteq> []"
  by (induction s rule: utf8_chars.induct) auto

lemma chars_count_le: "chars_count s \<le> length s"
proof (induction s rule: utf8_chars.induct)
  case (2 c cs)
  then show ?case
    using length_dropWhile_le [of is_continuation cs] by (simp add: chars_count_def)
qed (simp add: chars_count_def)

text \<open>
  A list of characters is recovered from its concatenation, and so is every part of it;
  trimming therefore drops characters at both ends and nothing else.
\<close>

definition char_list :: "string list \<Rightarrow> bool" where
  "char_list ws \<longleftrightarrow> (\<forall>w \<in> set ws. w \<noteq> [] \<and> (\<forall>c \<in> set (tl w). is_continuation c))
     \<and> (\<forall>w \<in> set (tl ws). \<not> is_continuation (hd w))"

lemma utf8_chars_hd:
  "s \<noteq> [] \<Longrightarrow> \<exists>cs ws. utf8_chars s = (hd s # cs) # ws"
  by (cases s) auto

lemma char_list_utf8: "char_list (utf8_chars s)"
proof (induction s rule: utf8_chars.induct)
  case (2 c cs)
  let ?r = "dropWhile is_continuation cs"
  have "\<not> is_continuation (hd w)" if w: "w \<in> set (utf8_chars ?r)" for w
  proof (cases "?r = []")
    case False
    then obtain ds ws where u: "utf8_chars ?r = (hd ?r # ds) # ws" using utf8_chars_hd by blast
    moreover have "\<not> is_continuation (hd ?r)" using hd_dropWhile [OF False] .
    ultimately show ?thesis using w "2.IH" by (auto simp: char_list_def)
  next
    case True
    then show ?thesis using w by (simp only: True) simp
  qed
  then show ?case using "2.IH" by (auto simp: char_list_def dest: set_takeWhileD)
qed (simp add: char_list_def)

lemma utf8_chars_concat: "char_list ws \<Longrightarrow> utf8_chars (concat ws) = ws"
proof (induction ws)
  case (Cons w ws)
  then obtain c cs where w: "w = c # cs" "\<forall>x \<in> set cs. is_continuation x"
    by (cases w) (auto simp: char_list_def)
  have first: "concat ws = [] \<or> \<not> is_continuation (hd (concat ws))"
    using Cons.prems by (cases ws) (auto simp: char_list_def)
  have take: "takeWhile is_continuation (cs @ concat ws) = cs"
    using w(2) first by (simp add: takeWhile_append2 takeWhile_eq_Nil_iff)
  have drop: "dropWhile is_continuation (cs @ concat ws) = concat ws"
    using w(2) first dropWhile_eq_self_iff [of is_continuation "concat ws"] by (simp add: dropWhile_append)
  have "char_list ws" using Cons.prems by (cases ws) (auto simp: char_list_def)
  then show ?case using Cons.IH w(1) take drop by simp
qed simp

lemma char_list_infix: "char_list (a @ b @ c) \<Longrightarrow> char_list b"
  by (cases a; cases b) (auto simp: char_list_def)

lemma utf8_chars_trim:
  "utf8_chars (trim s) = rev (dropWhile is_whitespace (rev (dropWhile is_whitespace (utf8_chars s))))"
proof -
  let ?d = "dropWhile is_whitespace (utf8_chars s)"
  let ?t = "rev (dropWhile is_whitespace (rev ?d))"
  have "utf8_chars s = takeWhile is_whitespace (utf8_chars s) @ ?d" by simp
  also have "?d = ?t @ rev (takeWhile is_whitespace (rev ?d))"
    by (metis rev_append rev_rev_ident takeWhile_dropWhile_id)
  finally have "char_list ?t" using char_list_utf8 [of s] char_list_infix by metis
  then show ?thesis unfolding trim_def by (rule utf8_chars_concat)
qed

lemma trim_parts: "\<exists>a b. utf8_chars s = a @ utf8_chars (trim s) @ b"
  unfolding utf8_chars_trim
  by (metis rev_append rev_rev_ident takeWhile_dropWhile_id)

lemma chars_count_trim: "chars_count (trim s) \<le> chars_count s"
  using trim_parts [of s] by (auto simp: chars_count_def)

lemma has_control_trim: "has_control (trim s) \<Longrightarrow> has_control s"
  using trim_parts [of s] by (auto simp: has_control_def)

lemma dropWhile_idem: "dropWhile P (dropWhile P xs) = dropWhile P xs"
  by (induction xs) auto

lemma dropWhile_rev_idem:
  "dropWhile P (rev (dropWhile P (rev (dropWhile P xs)))) = rev (dropWhile P (rev (dropWhile P xs)))"
proof (cases "rev (dropWhile P (rev (dropWhile P xs)))")
  case (Cons y ys)
  have "dropWhile P xs = rev (dropWhile P (rev (dropWhile P xs))) @ rev (takeWhile P (rev (dropWhile P xs)))"
    by (metis rev_append rev_rev_ident takeWhile_dropWhile_id)
  then have "dropWhile P xs = y # ys @ rev (takeWhile P (rev (dropWhile P xs)))" using Cons by simp
  then have "\<not> P y" by (metis hd_dropWhile list.distinct(1) list.sel(1))
  then show ?thesis using Cons by simp
next
  case Nil
  then show ?thesis by (simp only: Nil) simp
qed

lemma trim_trim [simp]: "trim (trim s) = trim s"
proof -
  have "utf8_chars (trim (trim s)) = utf8_chars (trim s)"
    by (simp add: utf8_chars_trim dropWhile_rev_idem dropWhile_idem)
  then show ?thesis by (metis concat_utf8_chars)
qed

lemma split_on_nonempty [simp]: "split_on d s \<noteq> []"
  by (induction s) (auto split: list.splits)

lemma split_on_no_delim [simp]: "d \<notin> set w \<Longrightarrow> split_on d w = [w]"
  by (induction w) auto

lemma split_on_append_delim: "d \<notin> set w \<Longrightarrow> split_on d (w @ d # s) = w # split_on d s"
  by (induction w) auto

lemma join_with_Cons_hd: "join_with sep ((c # w) # ws) = c # join_with sep (w # ws)"
  by (cases ws) auto

lemma join_split_on: "join_with [d] (split_on d s) = s"
proof (induction s)
  case (Cons c cs)
  then show ?case
    by (cases "split_on d cs") (auto simp: join_with_Cons_hd)
qed simp

lemma split_on_parts: "w \<in> set (split_on d s) \<Longrightarrow> d \<notin> set w"
proof (induction s arbitrary: w)
  case (Cons c cs)
  then show ?case
    by (cases "split_on d cs") (auto split: if_splits)
qed simp

lemma starts_with_append [simp]: "starts_with (p @ s) p"
  by (simp add: starts_with_def)

lemma starts_with_iff: "starts_with s p \<longleftrightarrow> (\<exists>t. s = p @ t)"
  by (metis append_eq_conv_conj append_take_drop_id starts_with_def)

lemma ends_with_iff: "ends_with s p \<longleftrightarrow> (\<exists>t. s = t @ p)"
proof
  show "ends_with s p \<Longrightarrow> \<exists>t. s = t @ p"
    by (metis append_take_drop_id ends_with_def)
qed (auto simp: ends_with_def)

lemma strip_prefix_Some: "strip_prefix p s = Some t \<longleftrightarrow> s = p @ t"
  by (auto simp: strip_prefix_def starts_with_iff)

lemma strip_suffix_char_Some: "strip_suffix_char c s = Some t \<longleftrightarrow> s = t @ [c]"
  by (cases s rule: rev_cases) (auto simp: strip_suffix_char_def)

section \<open>Decimal numbers\<close>

text \<open>
  \<open>format!("\{\}", n)\<close> for \<open>u64\<close>, and \<open>str::parse::<u64>\<close>: an optional plus sign,
  at least one digit, and a value that fits.
\<close>

definition digit_char :: "nat \<Rightarrow> char" where
  "digit_char d = char_of (48 + d)"

definition digit_value :: "char \<Rightarrow> nat option" where
  "digit_value c = (let n = of_char c :: nat in if 48 \<le> n \<and> n \<le> 57 then Some (n - 48) else None)"

fun show_nat :: "nat \<Rightarrow> string" where
  "show_nat n = (if n < 10 then [digit_char n] else show_nat (n div 10) @ [digit_char (n mod 10)])"

declare show_nat.simps [simp del]

fun parse_digits :: "nat \<Rightarrow> string \<Rightarrow> nat option" where
  "parse_digits acc [] = Some acc"
| "parse_digits acc (c # cs) =
     (case digit_value c of
        None \<Rightarrow> None
      | Some d \<Rightarrow> if acc * 10 + d < u64_modulus then parse_digits (acc * 10 + d) cs else None)"

definition parse_u64 :: "string \<Rightarrow> nat option" where
  "parse_u64 s =
     (let body = (case strip_prefix_char (CHR ''+'') s of None \<Rightarrow> s | Some t \<Rightarrow> t)
      in if body = [] then None else parse_digits 0 body)"

text \<open>
  For evaluation: the comparisons with the \<open>u64\<close> modulus are made on \<open>int\<close>, whose numerals
  are binary.
\<close>

lemma below_u64_int: "n < u64_modulus \<longleftrightarrow> int n < 18446744073709551616"
  by (simp add: u64_modulus_def)

lemma parse_digits_code [code]:
  "parse_digits acc [] = Some acc"
  "parse_digits acc (c # cs) =
     (case digit_value c of
        None \<Rightarrow> None
      | Some d \<Rightarrow> if int (acc * 10 + d) < 18446744073709551616 then parse_digits (acc * 10 + d) cs else None)"
  by (simp_all only: parse_digits.simps below_u64_int)

lemma u64_wrapping_inc_code [code]:
  "u64_wrapping_inc v =
     (if int (v + 1) < 18446744073709551616 then v + 1 else nat (int (v + 1) mod 18446744073709551616))"
  by (simp add: u64_wrapping_inc_def u64_modulus_def nat_mod_distrib [symmetric])
    (metis nat_int nat_mod_distrib of_nat_0_le_iff of_nat_Suc zero_le_numeral nat_numeral)

lemma digit_value_digit_char [simp]: "d < 10 \<Longrightarrow> digit_value (digit_char d) = Some d"
  by (simp add: digit_value_def digit_char_def Let_def)

lemma digit_char_not_plus [simp]: "d < 10 \<Longrightarrow> digit_char d \<noteq> CHR ''+''"
proof
  assume "d < 10" and "digit_char d = CHR ''+''"
  then have "of_char (digit_char d) = (43 :: nat)" by simp
  with \<open>d < 10\<close> show False by (simp add: digit_char_def)
qed

lemma parse_digits_snoc:
  "parse_digits acc (xs @ [c]) =
     (case parse_digits acc xs of
        None \<Rightarrow> None
      | Some n \<Rightarrow> parse_digits n [c])"
  by (induction xs arbitrary: acc) (auto split: option.splits)

lemma parse_digits_show_nat: "n < u64_modulus \<Longrightarrow> parse_digits 0 (show_nat n) = Some n"
proof (induction n rule: show_nat.induct)
  case (1 n)
  show ?case
  proof (cases "n < 10")
    case True
    with "1.prems" show ?thesis by (subst show_nat.simps) simp
  next
    case False
    have "n div 10 < u64_modulus" using "1.prems" by simp
    with False "1.IH" have "parse_digits 0 (show_nat (n div 10)) = Some (n div 10)" by blast
    moreover have "n div 10 * 10 + n mod 10 = n" by simp
    ultimately show ?thesis
      using False "1.prems" by (subst show_nat.simps) (simp add: parse_digits_snoc)
  qed
qed

lemma show_nat_nonempty [simp]: "show_nat n \<noteq> []"
  by (subst show_nat.simps) simp

lemma show_nat_hd: "hd (show_nat n) \<noteq> CHR ''+''"
proof (induction n rule: show_nat.induct)
  case (1 n)
  then show ?case
    by (cases "n < 10") (subst show_nat.simps; simp)+
qed

lemma parse_u64_show_nat [simp]: "n < u64_modulus \<Longrightarrow> parse_u64 (show_nat n) = Some n"
proof -
  assume n: "n < u64_modulus"
  have "strip_prefix_char (CHR ''+'') (show_nat n) = None"
    using show_nat_hd [of n] by (auto simp: strip_prefix_char_def split: list.splits)
  with n show ?thesis by (simp add: parse_u64_def parse_digits_show_nat)
qed

lemma parse_digits_bound: "parse_digits acc s = Some n \<Longrightarrow> acc < u64_modulus \<Longrightarrow> n < u64_modulus"
  by (induction s arbitrary: acc) (auto split: option.splits if_splits)

lemma parse_u64_bound: "parse_u64 s = Some n \<Longrightarrow> n < u64_modulus"
  by (auto simp: parse_u64_def Let_def u64_modulus_def split: if_splits option.splits
      dest: parse_digits_bound)

lemma show_nat_inject:
  assumes "show_nat m = show_nat n" and "m < u64_modulus" and "n < u64_modulus"
  shows "m = n"
  using assms parse_u64_show_nat by (metis option.inject)

section \<open>Ordered maps\<close>

text \<open>
  A \<open>BTreeMap\<close> is an association list with strictly increasing keys, so that iterating
  it is walking the list.  A \<open>HashMap\<close>, whose iteration order is unspecified, is
  represented the same way: key order is one of the orders the code may see.
\<close>

type_synonym ('k, 'v) btree = "('k \<times> 'v) list"

definition bt_ok :: "('k::linorder, 'v) btree \<Rightarrow> bool" where
  "bt_ok m = sorted_wrt (<) (map fst m)"

abbreviation bt_get :: "('k, 'v) btree \<Rightarrow> 'k \<Rightarrow> 'v option" where
  "bt_get \<equiv> map_of"

fun bt_insert :: "'k::linorder \<Rightarrow> 'v \<Rightarrow> ('k, 'v) btree \<Rightarrow> ('k, 'v) btree" where
  "bt_insert k v [] = [(k, v)]"
| "bt_insert k v ((a, b) # m) =
     (if k < a then (k, v) # (a, b) # m
      else if k = a then (k, v) # m
      else (a, b) # bt_insert k v m)"

definition bt_remove :: "'k \<Rightarrow> ('k, 'v) btree \<Rightarrow> ('k, 'v) btree" where
  "bt_remove k m = filter (\<lambda>p. fst p \<noteq> k) m"

definition bt_mem :: "'k \<Rightarrow> ('k, 'v) btree \<Rightarrow> bool" where
  "bt_mem k m = (map_of m k \<noteq> None)"

definition bt_keys :: "('k, 'v) btree \<Rightarrow> 'k list" where
  "bt_keys m = map fst m"

lemma bt_get_insert [bt_simps, simp]: "bt_get (bt_insert k v m) = (bt_get m)(k \<mapsto> v)"
proof (induction m)
  case (Cons p m)
  then show ?case by (cases p) auto
qed simp

lemma bt_get_remove [bt_simps, simp]: "bt_get (bt_remove k m) = (bt_get m)(k := None)"
  by (induction m) (auto simp: bt_remove_def)

lemma bt_mem_iff [bt_simps]: "bt_mem k m \<longleftrightarrow> (\<exists>v. bt_get m k = Some v)"
  by (auto simp: bt_mem_def)

lemma fst_set_bt_insert: "fst ` set (bt_insert k v m) = insert k (fst ` set m)"
proof (induction m)
  case (Cons p m)
  then show ?case by (cases p) auto
qed simp

lemma bt_ok_Nil [simp]: "bt_ok []"
  by (simp add: bt_ok_def)

lemma bt_ok_Cons [simp]: "bt_ok ((a, b) # m) \<longleftrightarrow> (\<forall>x \<in> fst ` set m. a < x) \<and> bt_ok m"
  by (simp add: bt_ok_def)

lemma bt_ok_insert [simp, intro]: "bt_ok m \<Longrightarrow> bt_ok (bt_insert k v m)"
proof (induction m)
  case (Cons p m)
  then show ?case by (cases p) (auto simp: fst_set_bt_insert)
qed simp

lemma bt_ok_remove [simp, intro]: "bt_ok m \<Longrightarrow> bt_ok (bt_remove k m)"
  by (simp add: bt_ok_def bt_remove_def sorted_wrt_map sorted_wrt_filter)

lemma bt_ok_distinct: "bt_ok m \<Longrightarrow> distinct (map fst m)"
  by (simp add: bt_ok_def strict_sorted_iff)

lemma bt_get_set: "bt_ok m \<Longrightarrow> bt_get m k = Some v \<longleftrightarrow> (k, v) \<in> set m"
  by (metis bt_ok_distinct map_of_SomeD map_of_is_SomeI)

lemma bt_get_keys: "bt_get m k \<noteq> None \<longleftrightarrow> k \<in> set (bt_keys m)"
  by (auto simp: bt_keys_def map_of_eq_None_iff)

lemma bt_ext:
  assumes "bt_ok m" and "bt_ok n" and "bt_get m = bt_get n"
  shows "m = n"
proof -
  have "p \<in> set m \<longleftrightarrow> p \<in> set n" for p
    using assms bt_get_set [of m "fst p" "snd p"] bt_get_set [of n "fst p" "snd p"] by simp
  then have "set m = set n" by blast
  moreover have "sorted_wrt (\<lambda>p q. fst p < fst q) m" "sorted_wrt (\<lambda>p q. fst p < fst q) n"
    using assms by (simp_all add: bt_ok_def sorted_wrt_map)
  ultimately show ?thesis
  proof (induction m arbitrary: n)
    case (Cons p m)
    then obtain q n' where n: "n = q # n'" by (cases n) auto
    have pq: "p = q"
    proof (rule ccontr)
      assume "p \<noteq> q"
      with Cons.prems n have "p \<in> set n'" and "q \<in> set m" by auto
      with Cons.prems n have "fst q < fst p" and "fst p < fst q" by auto
      then show False by simp
    qed
    have "p \<notin> set m" and "q \<notin> set n'" using Cons.prems n by auto
    with Cons.prems n pq have "set m = set n'" by auto
    with Cons n pq show ?case by simp
  qed simp
qed

end
