(* ===== verification/Types.thy ===== *)
theory Types
  imports Prelude
begin

text \<open>
  The types of crate \<open>schemahub-types\<close> that the control plane passes around: identities,
  actions, roles and visibilities (\<open>auth.rs\<close>), schema coordinates (\<open>schema_path.rs\<close>),
  the opaque blobs and the objects of one schema file (\<open>blob.rs\<close>, \<open>parsed.rs\<close>), mutation
  envelopes and their effects (\<open>mutation.rs\<close>), imports and the compatibility rules
  (\<open>import.rs\<close>, \<open>compat.rs\<close>).  Bytes are 8-bit words.
\<close>

type_synonym bytes = "8 word list"

section \<open>Identities, actions, roles\<close>

datatype identity_kind = KAnonymous | KHuman | KAgent | KService

datatype identity =
    Anonymous
  | User (user_id: string) (user_display: "string option")
  | Agent (agent_id: string) (agent_display: "string option") (agent_delegated_by: "string option")
  | Service (service_id: string) (service_display: "string option")

fun identity_id :: "identity \<Rightarrow> string option" where
  "identity_id Anonymous = None"
| "identity_id (User i d) = Some i"
| "identity_id (Agent i d b) = Some i"
| "identity_id (Service i d) = Some i"

fun identity_display :: "identity \<Rightarrow> string option" where
  "identity_display Anonymous = None"
| "identity_display (User i d) = d"
| "identity_display (Agent i d b) = d"
| "identity_display (Service i d) = d"

fun identity_kind_of :: "identity \<Rightarrow> identity_kind" where
  "identity_kind_of Anonymous = KAnonymous"
| "identity_kind_of (User i d) = KHuman"
| "identity_kind_of (Agent i d b) = KAgent"
| "identity_kind_of (Service i d) = KService"

fun delegated_by :: "identity \<Rightarrow> string option" where
  "delegated_by (Agent i d b) = b"
| "delegated_by _ = None"

definition is_anonymous :: "identity \<Rightarrow> bool" where
  "is_anonymous i = (case i of Anonymous \<Rightarrow> True | _ \<Rightarrow> False)"

lemma is_anonymous_iff: "is_anonymous i \<longleftrightarrow> identity_id i = None"
  by (cases i) (auto simp: is_anonymous_def)

datatype action = Read | Write | Force | ManageProject | ManageRepo

datatype role = Reader | Writer | Maintainer | Owner

text \<open>
  \<open>Role\<close> derives \<open>Ord\<close>, so its order is the order of its variants.
\<close>

fun role_rank :: "role \<Rightarrow> nat" where
  "role_rank Reader = 0"
| "role_rank Writer = 1"
| "role_rank Maintainer = 2"
| "role_rank Owner = 3"

lemma role_rank_inject: "role_rank a = role_rank b \<longleftrightarrow> a = b"
  by (cases a; cases b) auto

instantiation role :: linorder
begin

definition less_eq_role :: "role \<Rightarrow> role \<Rightarrow> bool" where
  "less_eq_role a b \<longleftrightarrow> role_rank a \<le> role_rank b"

definition less_role :: "role \<Rightarrow> role \<Rightarrow> bool" where
  "less_role a b \<longleftrightarrow> role_rank a < role_rank b"

instance
  by standard (auto simp: less_eq_role_def less_role_def role_rank_inject)

end

definition ascii_lower :: "char \<Rightarrow> char" where
  "ascii_lower c =
     (let n = of_char c :: nat in if 65 \<le> n \<and> n \<le> 90 then char_of (n + 32) else c)"

definition role_parse :: "string \<Rightarrow> role option" where
  "role_parse s =
     (let l = map ascii_lower s
      in if l = ''reader'' then Some Reader
         else if l = ''writer'' then Some Writer
         else if l = ''maintainer'' then Some Maintainer
         else if l = ''owner'' then Some Owner
         else None)"

datatype visibility = Public | Private

record resource_path =
  rp_project :: string
  rp_repo :: "string option"

definition resource_project :: "string \<Rightarrow> resource_path" where
  "resource_project p = \<lparr>rp_project = p, rp_repo = None\<rparr>"

definition resource_repo :: "string \<Rightarrow> string \<Rightarrow> resource_path" where
  "resource_repo p r = \<lparr>rp_project = p, rp_repo = Some r\<rparr>"

text \<open>
  \<open>AuthnError\<close> and \<open>AuthzError\<close>.  A message built with \<open>format!\<close> is kept as the values
  it interpolates, under a constructor that names its template.
\<close>

datatype authn_error = MissingCredentials | InvalidToken | AuthnOther string

datatype denial =
    DeniedArchived string
  | DeniedAnonymous action string
  | DeniedRole role action string role
  | DeniedNoRole string
  | DeniedAnonymousCreate
  | DeniedAnonymousArchived string
  | DeniedNotOwnerRole role string
  | DeniedNotOwner string string
  | DeniedLastOwner string

datatype 'b authz_error = PermissionDenied denial | AuthzBackend 'b

section \<open>Schemas, blobs and mutations\<close>

record schema_path =
  sp_project :: string
  sp_repo :: string
  sp_schema_name :: string

record schema_objects =
  so_meta :: bytes
  so_decls :: "(string, bytes) btree"

definition empty_objects :: schema_objects where
  "empty_objects = \<lparr>so_meta = [], so_decls = []\<rparr>"

record parsed_schema =
  ps_meta :: bytes
  ps_decls :: "(string \<times> bytes) list"

record mutation =
  mu_schema_path :: schema_path
  mu_format_id :: string
  mu_operation :: bytes

record mutation_effect =
  me_meta :: "bytes option"
  me_upserts :: "(string \<times> bytes) list"
  me_removes :: "string list"

record import_ref =
  im_path :: string
  im_resolved_commit :: string
  im_decl_name :: string

section \<open>Compatibility policy\<close>

datatype compatibility_direction = Backward | Forward | Full | Disabled

record compatibility_rules =
  cr_direction :: compatibility_direction
  cr_disabled :: bool

record 'm compatibility_violation =
  cv_declaration_name :: string
  cv_field_name :: "string option"
  cv_message :: 'm

end
