(* ===== verification/Object_Db.thy ===== *)
theory Object_Db
  imports Types
begin

text \<open>
  The storage seam of crate \<open>schemahub-jj\<close>: the \<open>ObjectDb\<close> trait (\<open>object_db.rs\<close>) and its
  in-memory implementation \<open>MemoryObjectDb\<close> (\<open>memory_db.rs\<close>).

  The control plane uses the resource-record part of the trait through
  \<open>Arc<dyn ObjectDb>\<close>; \<open>record_db\<close> is that part as a record of operations over a state of
  type \<open>'s\<close>.  The locale \<open>record_db_laws\<close> is the trait's contract for it, read against the
  table \<open>tbl s\<close> the state stands for: a failing operation changes nothing, an operation
  that succeeds does what its comment says.  \<open>reliable_record_db\<close> adds that the backend
  does not fail.  \<open>MemoryObjectDb\<close> satisfies both.

  SHA-256 is not part of the repository: the content-addressed operations take it as the
  argument \<open>sha256\<close>.  The in-process locks (\<open>acquire_*_guard\<close>) carry no data and are not
  modelled, and a poisoned mutex does not occur, since no operation panics while it
  holds the lock.
\<close>

section \<open>Object kinds and ids\<close>

datatype object_kind = KFile | KTree | KCommit | KConflict | KSymlink | KView

fun object_kind_tag :: "object_kind \<Rightarrow> 8 word" where
  "object_kind_tag KFile = 0"
| "object_kind_tag KTree = 1"
| "object_kind_tag KCommit = 2"
| "object_kind_tag KConflict = 3"
| "object_kind_tag KSymlink = 4"
| "object_kind_tag KView = 5"

lemma object_kind_tag_inject: "object_kind_tag j = object_kind_tag k \<longleftrightarrow> j = k"
  by (cases j; cases k) auto

datatype db_error = DbNotFound | DbBackend string

section \<open>The in-memory database\<close>

record inner =
  db_objects :: "(8 word \<times> bytes, bytes) btree"
  db_ops :: "(string, (bytes, bytes) btree) btree"
  db_refs :: "(string \<times> string, bytes) btree"
  db_records :: "(string \<times> string, bytes) btree"

definition empty_db :: inner where
  "empty_db = \<lparr>db_objects = [], db_ops = [], db_refs = [], db_records = []\<rparr>"

definition inner_ok :: "inner \<Rightarrow> bool" where
  "inner_ok d \<longleftrightarrow> bt_ok (db_objects d) \<and> bt_ok (db_ops d) \<and> bt_ok (db_refs d) \<and> bt_ok (db_records d)"

text \<open>\<open>entry(k).or_insert_with(|| v)\<close>: keep the present value.\<close>

definition or_insert :: "'k::linorder \<Rightarrow> 'v \<Rightarrow> ('k, 'v) btree \<Rightarrow> ('k, 'v) btree" where
  "or_insert k v m = (case bt_get m k of None \<Rightarrow> bt_insert k v m | Some _ \<Rightarrow> m)"

lemma bt_get_or_insert:
  "bt_get (or_insert k v m) j =
     (if j = k then Some (case bt_get m k of None \<Rightarrow> v | Some w \<Rightarrow> w) else bt_get m j)"
  by (auto simp: or_insert_def split: option.splits)

lemma bt_ok_or_insert [simp]: "bt_ok m \<Longrightarrow> bt_ok (or_insert k v m)"
  by (auto simp: or_insert_def split: option.splits)

definition object_hash :: "(bytes \<Rightarrow> bytes) \<Rightarrow> object_kind \<Rightarrow> bytes \<Rightarrow> bytes" where
  "object_hash sha256 kind bs = sha256 (object_kind_tag kind # bs)"

definition put_object_at :: "object_kind \<Rightarrow> bytes \<Rightarrow> bytes \<Rightarrow> inner \<Rightarrow> inner" where
  "put_object_at kind oid bs d =
     d\<lparr>db_objects := or_insert (object_kind_tag kind, oid) bs (db_objects d)\<rparr>"

definition put_object :: "(bytes \<Rightarrow> bytes) \<Rightarrow> object_kind \<Rightarrow> bytes \<Rightarrow> inner \<Rightarrow> bytes \<times> inner" where
  "put_object sha256 kind bs d =
     (let oid = object_hash sha256 kind bs
      in (oid, d\<lparr>db_objects := or_insert (object_kind_tag kind, oid) bs (db_objects d)\<rparr>))"

definition get_object :: "object_kind \<Rightarrow> bytes \<Rightarrow> inner \<Rightarrow> db_error + bytes" where
  "get_object kind oid d = ok_or DbNotFound (bt_get (db_objects d) (object_kind_tag kind, oid))"

definition has_object :: "object_kind \<Rightarrow> bytes \<Rightarrow> inner \<Rightarrow> bool" where
  "has_object kind oid d = bt_mem (object_kind_tag kind, oid) (db_objects d)"

definition list_objects :: "object_kind \<Rightarrow> inner \<Rightarrow> bytes list" where
  "list_objects kind d =
     map snd (filter (\<lambda>key. fst key = object_kind_tag kind) (bt_keys (db_objects d)))"

definition delete_object :: "object_kind \<Rightarrow> bytes \<Rightarrow> inner \<Rightarrow> inner" where
  "delete_object kind oid d = d\<lparr>db_objects := bt_remove (object_kind_tag kind, oid) (db_objects d)\<rparr>"

definition repo_ops :: "string \<Rightarrow> inner \<Rightarrow> (bytes, bytes) btree" where
  "repo_ops repo d = (case bt_get (db_ops d) repo of None \<Rightarrow> [] | Some m \<Rightarrow> m)"

definition put_op_at :: "string \<Rightarrow> bytes \<Rightarrow> bytes \<Rightarrow> inner \<Rightarrow> inner" where
  "put_op_at repo oid bs d =
     d\<lparr>db_ops := bt_insert repo (or_insert oid bs (repo_ops repo d)) (db_ops d)\<rparr>"

definition ascii_bytes :: "string \<Rightarrow> bytes" where
  "ascii_bytes s = map of_char s"

definition put_op :: "(bytes \<Rightarrow> bytes) \<Rightarrow> string \<Rightarrow> bytes \<Rightarrow> inner \<Rightarrow> bytes \<times> inner" where
  "put_op sha256 repo bs d =
     (let oid = sha256 (ascii_bytes ''op'' @ bs)
      in (oid, d\<lparr>db_ops := bt_insert repo (or_insert oid bs (repo_ops repo d)) (db_ops d)\<rparr>))"

definition get_op :: "string \<Rightarrow> bytes \<Rightarrow> inner \<Rightarrow> db_error + bytes" where
  "get_op repo oid d =
     ok_or DbNotFound (case bt_get (db_ops d) repo of None \<Rightarrow> None | Some m \<Rightarrow> bt_get m oid)"

definition list_ops :: "string \<Rightarrow> inner \<Rightarrow> bytes list" where
  "list_ops repo d = (case bt_get (db_ops d) repo of None \<Rightarrow> [] | Some m \<Rightarrow> bt_keys m)"

fun sorted_insert :: "'k::linorder \<Rightarrow> 'k list \<Rightarrow> 'k list" where
  "sorted_insert k [] = [k]"
| "sorted_insert k (a # as) =
     (if k < a then k # a # as else if k = a then a # as else a # sorted_insert k as)"

definition list_repo_keys :: "inner \<Rightarrow> string list" where
  "list_repo_keys d = fold sorted_insert (map fst (bt_keys (db_refs d))) (bt_keys (db_ops d))"

definition set_ref :: "string \<Rightarrow> string \<Rightarrow> bytes \<Rightarrow> inner \<Rightarrow> inner" where
  "set_ref repo nm v d = d\<lparr>db_refs := bt_insert (repo, nm) v (db_refs d)\<rparr>"

definition create_ref :: "string \<Rightarrow> string \<Rightarrow> bytes \<Rightarrow> inner \<Rightarrow> bool \<times> inner" where
  "create_ref repo nm v d =
     (if bt_mem (repo, nm) (db_refs d) then (False, d)
      else (True, d\<lparr>db_refs := bt_insert (repo, nm) v (db_refs d)\<rparr>))"

definition get_ref :: "string \<Rightarrow> string \<Rightarrow> inner \<Rightarrow> bytes option" where
  "get_ref repo nm d = bt_get (db_refs d) (repo, nm)"

definition create_record :: "string \<Rightarrow> string \<Rightarrow> bytes \<Rightarrow> inner \<Rightarrow> bool \<times> inner" where
  "create_record collection key v d =
     (if bt_mem (collection, key) (db_records d) then (False, d)
      else (True, d\<lparr>db_records := bt_insert (collection, key) v (db_records d)\<rparr>))"

text \<open>
  \<open>create_records\<close> first walks the batch with a set of the keys seen so far; a key that
  repeats or is present ends the call with nothing written.
\<close>

fun fresh_keys ::
  "(string \<times> string) set \<Rightarrow> (string \<times> string \<times> bytes) list \<Rightarrow> inner \<Rightarrow> bool" where
  "fresh_keys seen [] d = True"
| "fresh_keys seen ((c, k, v) # rs) d =
     (if (c, k) \<in> seen \<or> bt_mem (c, k) (db_records d) then False
      else fresh_keys (insert (c, k) seen) rs d)"

definition create_records :: "(string \<times> string \<times> bytes) list \<Rightarrow> inner \<Rightarrow> bool \<times> inner" where
  "create_records rs d =
     (if fresh_keys {} rs d
      then (True, d\<lparr>db_records := fold (\<lambda>(c, k, v) m. bt_insert (c, k) v m) rs (db_records d)\<rparr>)
      else (False, d))"

definition get_record :: "string \<Rightarrow> string \<Rightarrow> inner \<Rightarrow> bytes option" where
  "get_record collection key d = bt_get (db_records d) (collection, key)"

definition list_records :: "string \<Rightarrow> inner \<Rightarrow> (string \<times> bytes) list" where
  "list_records collection d =
     map (\<lambda>(key, v). (snd key, v)) (filter (\<lambda>(key, v). fst key = collection) (db_records d))"

definition compare_and_swap_record ::
  "string \<Rightarrow> string \<Rightarrow> bytes \<Rightarrow> bytes \<Rightarrow> inner \<Rightarrow> bool \<times> inner" where
  "compare_and_swap_record collection key expected replacement d =
     (case bt_get (db_records d) (collection, key) of
        None \<Rightarrow> (False, d)
      | Some current \<Rightarrow>
          if current \<noteq> expected then (False, d)
          else (True, d\<lparr>db_records := bt_insert (collection, key) replacement (db_records d)\<rparr>))"

definition compare_and_delete_record :: "string \<Rightarrow> string \<Rightarrow> bytes \<Rightarrow> inner \<Rightarrow> bool \<times> inner" where
  "compare_and_delete_record collection key expected d =
     (if bt_get (db_records d) (collection, key) \<noteq> Some expected then (False, d)
      else (True, d\<lparr>db_records := bt_remove (collection, key) (db_records d)\<rparr>))"

section \<open>Every operation keeps the tables ordered\<close>

lemmas inner_op_defs =
  put_object_def put_object_at_def delete_object_def put_op_def put_op_at_def set_ref_def
  create_ref_def create_record_def create_records_def compare_and_swap_record_def
  compare_and_delete_record_def Let_def

lemma bt_ok_fold_records:
  "bt_ok m \<Longrightarrow> bt_ok (fold (\<lambda>(c, k, v) m. bt_insert (c, k) v m) rs m)"
  by (induction rs arbitrary: m) auto

lemma inner_ok_empty [simp]: "inner_ok empty_db"
  by (simp add: inner_ok_def empty_db_def)

lemma inner_ok_objects [intro]:
  "inner_ok d \<Longrightarrow> inner_ok (put_object_at kind oid bs d)"
  "inner_ok d \<Longrightarrow> inner_ok (snd (put_object h kind bs d))"
  "inner_ok d \<Longrightarrow> inner_ok (delete_object kind oid d)"
  by (simp_all add: inner_ok_def inner_op_defs)

lemma inner_ok_ops_refs [intro]:
  "inner_ok d \<Longrightarrow> inner_ok (put_op_at repo oid bs d)"
  "inner_ok d \<Longrightarrow> inner_ok (snd (put_op h repo bs d))"
  "inner_ok d \<Longrightarrow> inner_ok (set_ref repo nm bs d)"
  "inner_ok d \<Longrightarrow> inner_ok (snd (create_ref repo nm bs d))"
  by (simp_all add: inner_ok_def inner_op_defs)

lemma inner_ok_records [intro]:
  "inner_ok d \<Longrightarrow> inner_ok (snd (create_record c k v d))"
  "inner_ok d \<Longrightarrow> inner_ok (snd (create_records rs d))"
  "inner_ok d \<Longrightarrow> inner_ok (snd (compare_and_swap_record c k v w d))"
  "inner_ok d \<Longrightarrow> inner_ok (snd (compare_and_delete_record c k v d))"
  by (simp_all add: inner_ok_def inner_op_defs bt_ok_fold_records split: option.split)

section \<open>The record interface and its contract\<close>

record 's record_db =
  rdb_create :: "string \<Rightarrow> string \<Rightarrow> bytes \<Rightarrow> 's \<Rightarrow> (db_error + bool) \<times> 's"
  rdb_create_many :: "(string \<times> string \<times> bytes) list \<Rightarrow> 's \<Rightarrow> (db_error + bool) \<times> 's"
  rdb_get :: "string \<Rightarrow> string \<Rightarrow> 's \<Rightarrow> db_error + bytes option"
  rdb_list :: "string \<Rightarrow> 's \<Rightarrow> db_error + (string \<times> bytes) list"
  rdb_cas :: "string \<Rightarrow> string \<Rightarrow> bytes \<Rightarrow> bytes \<Rightarrow> 's \<Rightarrow> (db_error + bool) \<times> 's"
  rdb_cad :: "string \<Rightarrow> string \<Rightarrow> bytes \<Rightarrow> 's \<Rightarrow> (db_error + bool) \<times> 's"

type_synonym table = "string \<times> string \<rightharpoonup> bytes"

text \<open>The table after a batch insert, and the condition under which the batch is taken.\<close>

definition batch_keys :: "(string \<times> string \<times> bytes) list \<Rightarrow> (string \<times> string) list" where
  "batch_keys rs = map (\<lambda>(c, k, v). (c, k)) rs"

definition batch_table :: "(string \<times> string \<times> bytes) list \<Rightarrow> table \<Rightarrow> table" where
  "batch_table rs t = t ++ map_of (map (\<lambda>(c, k, v). ((c, k), v)) rs)"

locale record_db_laws =
  fixes db :: "'s record_db"
    and tbl :: "'s \<Rightarrow> table"
    and inv :: "'s \<Rightarrow> bool"
  assumes get_ok: "inv s \<Longrightarrow> rdb_get db c k s = Inr r \<Longrightarrow> r = tbl s (c, k)"
    and list_ok: "inv s \<Longrightarrow> rdb_list db c s = Inr xs \<Longrightarrow>
      distinct (map fst xs) \<and> set xs = {(k, v). tbl s (c, k) = Some v}"
    and create_fail: "inv s \<Longrightarrow> rdb_create db c k v s = (Inl e, t) \<Longrightarrow> tbl t = tbl s"
    and create_ok: "inv s \<Longrightarrow> rdb_create db c k v s = (Inr b, t) \<Longrightarrow>
      b = (tbl s (c, k) = None) \<and> tbl t = (if b then (tbl s)((c, k) \<mapsto> v) else tbl s)"
    and create_many_fail: "inv s \<Longrightarrow> rdb_create_many db rs s = (Inl e, t) \<Longrightarrow> tbl t = tbl s"
    and create_many_ok: "inv s \<Longrightarrow> rdb_create_many db rs s = (Inr b, t) \<Longrightarrow>
      b = (distinct (batch_keys rs) \<and> (\<forall>ck \<in> set (batch_keys rs). tbl s ck = None))
      \<and> tbl t = (if b then batch_table rs (tbl s) else tbl s)"
    and cas_fail: "inv s \<Longrightarrow> rdb_cas db c k v w s = (Inl e, t) \<Longrightarrow> tbl t = tbl s"
    and cas_ok: "inv s \<Longrightarrow> rdb_cas db c k v w s = (Inr b, t) \<Longrightarrow>
      b = (tbl s (c, k) = Some v) \<and> tbl t = (if b then (tbl s)((c, k) \<mapsto> w) else tbl s)"
    and cad_fail: "inv s \<Longrightarrow> rdb_cad db c k v s = (Inl e, t) \<Longrightarrow> tbl t = tbl s"
    and cad_ok: "inv s \<Longrightarrow> rdb_cad db c k v s = (Inr b, t) \<Longrightarrow>
      b = (tbl s (c, k) = Some v) \<and> tbl t = (if b then (tbl s)((c, k) := None) else tbl s)"
    and inv_create: "inv s \<Longrightarrow> inv (snd (rdb_create db c k v s))"
    and inv_create_many: "inv s \<Longrightarrow> inv (snd (rdb_create_many db rs s))"
    and inv_cas: "inv s \<Longrightarrow> inv (snd (rdb_cas db c k v w s))"
    and inv_cad: "inv s \<Longrightarrow> inv (snd (rdb_cad db c k v s))"
begin

lemmas record_ok = get_ok list_ok create_ok create_many_ok cas_ok cad_ok
lemmas record_inv = inv_create inv_create_many inv_cas inv_cad

lemma create_cases:
  assumes "inv s" and "rdb_create db c k v s = (r, t)"
  shows "tbl t = tbl s \<or> (tbl s (c, k) = None \<and> tbl t = (tbl s)((c, k) \<mapsto> v))"
proof (cases r)
  case (Inl e)
  then show ?thesis using assms create_fail by blast
next
  case (Inr b)
  then show ?thesis using create_ok [of s c k v b t] assms by (cases b) auto
qed

lemma cas_cases:
  assumes "inv s" and "rdb_cas db c k v w s = (r, t)"
  shows "tbl t = tbl s \<or> (tbl s (c, k) = Some v \<and> tbl t = (tbl s)((c, k) \<mapsto> w))"
proof (cases r)
  case (Inl e)
  then show ?thesis using assms cas_fail by blast
next
  case (Inr b)
  then show ?thesis using cas_ok [of s c k v w b t] assms by (cases b) auto
qed

end

locale reliable_record_db = record_db_laws +
  assumes get_total: "inv s \<Longrightarrow> \<exists>r. rdb_get db c k s = Inr r"
    and list_total: "inv s \<Longrightarrow> \<exists>xs. rdb_list db c s = Inr xs"
    and create_total: "inv s \<Longrightarrow> \<exists>b t. rdb_create db c k v s = (Inr b, t)"
    and create_many_total: "inv s \<Longrightarrow> \<exists>b t. rdb_create_many db rs s = (Inr b, t)"
    and cas_total: "inv s \<Longrightarrow> \<exists>b t. rdb_cas db c k v w s = (Inr b, t)"
    and cad_total: "inv s \<Longrightarrow> \<exists>b t. rdb_cad db c k v s = (Inr b, t)"
begin

lemma get_eq: "inv s \<Longrightarrow> rdb_get db c k s = Inr (tbl s (c, k))"
  using get_total get_ok by metis

lemma cas_succeeds:
  assumes "inv s" and "tbl s (c, k) = Some v"
  shows "\<exists>t. rdb_cas db c k v w s = (Inr True, t) \<and> tbl t = (tbl s)((c, k) \<mapsto> w) \<and> inv t"
proof -
  obtain b t where r: "rdb_cas db c k v w s = (Inr b, t)"
    using cas_total [OF assms(1)] by blast
  then show ?thesis
    using cas_ok [OF assms(1) r] inv_cas [OF assms(1), of c k v w] assms(2) by simp
qed

lemma create_succeeds:
  assumes "inv s" and "tbl s (c, k) = None"
  shows "\<exists>t. rdb_create db c k v s = (Inr True, t) \<and> tbl t = (tbl s)((c, k) \<mapsto> v) \<and> inv t"
proof -
  obtain b t where r: "rdb_create db c k v s = (Inr b, t)"
    using create_total [OF assms(1)] by blast
  then show ?thesis
    using create_ok [OF assms(1) r] inv_create [OF assms(1), of c k v] assms(2) by simp
qed

end

section \<open>MemoryObjectDb meets the contract\<close>

definition lift_db :: "(inner \<Rightarrow> bool \<times> inner) \<Rightarrow> inner \<Rightarrow> (db_error + bool) \<times> inner" where
  "lift_db f d = (case f d of (b, d') \<Rightarrow> (Inr b, d'))"

definition memory_db :: "inner record_db" where
  "memory_db = \<lparr>
     rdb_create = (\<lambda>c k v. lift_db (create_record c k v)),
     rdb_create_many = (\<lambda>rs. lift_db (create_records rs)),
     rdb_get = (\<lambda>c k d. Inr (get_record c k d)),
     rdb_list = (\<lambda>c d. Inr (list_records c d)),
     rdb_cas = (\<lambda>c k v w. lift_db (compare_and_swap_record c k v w)),
     rdb_cad = (\<lambda>c k v. lift_db (compare_and_delete_record c k v))\<rparr>"

definition record_table :: "inner \<Rightarrow> table" where
  "record_table d = bt_get (db_records d)"

lemma fresh_keys_iff:
  "fresh_keys seen rs d \<longleftrightarrow>
     distinct (batch_keys rs) \<and> set (batch_keys rs) \<inter> seen = {}
     \<and> (\<forall>ck \<in> set (batch_keys rs). record_table d ck = None)"
  by (induction seen rs d rule: fresh_keys.induct)
    (auto simp: batch_keys_def record_table_def bt_mem_def)

lemma fold_batch_table:
  "distinct (batch_keys rs) \<Longrightarrow>
    bt_get (fold (\<lambda>(c, k, v) m. bt_insert (c, k) v m) rs m) = batch_table rs (bt_get m)"
proof (induction rs arbitrary: m)
  case (Cons r rs)
  obtain c k v where r: "r = (c, k, v)" by (cases r)
  have "(c, k) \<notin> fst ` set (map (\<lambda>(c, k, v). ((c, k), v)) rs)"
    using Cons.prems r by (force simp: batch_keys_def)
  then have new: "map_of (map (\<lambda>(c, k, v). ((c, k), v)) rs) (c, k) = None"
    by (simp add: map_of_eq_None_iff)
  have "distinct (batch_keys rs)" using Cons.prems r by (simp add: batch_keys_def)
  then have "bt_get (fold (\<lambda>(c, k, v) m. bt_insert (c, k) v m) (r # rs) m)
      = batch_table rs ((bt_get m)((c, k) \<mapsto> v))"
    using Cons.IH r by simp
  also have "\<dots> = batch_table (r # rs) (bt_get m)"
    using new r by (simp add: batch_table_def map_add_upd_left domIff)
  finally show ?case .
qed (simp add: batch_table_def)

lemma list_records_spec:
  assumes "inner_ok d"
  shows "distinct (map fst (list_records c d))"
    and "set (list_records c d) = {(k, v). record_table d (c, k) = Some v}"
proof -
  have ok: "bt_ok (db_records d)" using assms by (simp add: inner_ok_def)
  then have "inj_on fst (set (db_records d))"
    by (metis bt_ok_distinct distinct_map)
  moreover have "distinct (db_records d)"
    using bt_ok_distinct [OF ok] by (simp add: distinct_map)
  ultimately show "distinct (map fst (list_records c d))"
    using eq_key_imp_eq_value [OF bt_ok_distinct [OF ok]]
    unfolding list_records_def by (auto simp: distinct_map inj_on_def)
  show "set (list_records c d) = {(k, v). record_table d (c, k) = Some v}"
    by (auto simp: list_records_def record_table_def bt_get_set [OF ok] image_iff)
qed

lemma memory_db_sel:
  "rdb_get memory_db c k d = Inr (record_table d (c, k))"
  "rdb_list memory_db c d = Inr (list_records c d)"
  "rdb_create memory_db c k v d = (Inr (fst (create_record c k v d)), snd (create_record c k v d))"
  "rdb_create_many memory_db rs d = (Inr (fst (create_records rs d)), snd (create_records rs d))"
  "rdb_cas memory_db c k v w d =
     (Inr (fst (compare_and_swap_record c k v w d)), snd (compare_and_swap_record c k v w d))"
  "rdb_cad memory_db c k v d =
     (Inr (fst (compare_and_delete_record c k v d)), snd (compare_and_delete_record c k v d))"
  by (simp_all add: memory_db_def lift_db_def record_table_def get_record_def split_beta)

lemma create_records_table:
  "fst (create_records rs d) \<longleftrightarrow>
     distinct (batch_keys rs) \<and> (\<forall>ck \<in> set (batch_keys rs). record_table d ck = None)"
  "record_table (snd (create_records rs d)) =
     (if fst (create_records rs d) then batch_table rs (record_table d) else record_table d)"
  using fresh_keys_iff [of "{}" rs d]
  by (simp_all add: create_records_def fold_batch_table record_table_def)

lemma record_tables:
  "fst (create_record c k v d) \<longleftrightarrow> record_table d (c, k) = None"
  "record_table (snd (create_record c k v d)) =
     (if record_table d (c, k) = None then (record_table d)((c, k) \<mapsto> v) else record_table d)"
  "fst (compare_and_swap_record c k v w d) \<longleftrightarrow> record_table d (c, k) = Some v"
  "record_table (snd (compare_and_swap_record c k v w d)) =
     (if record_table d (c, k) = Some v then (record_table d)((c, k) \<mapsto> w) else record_table d)"
  "fst (compare_and_delete_record c k v d) \<longleftrightarrow> record_table d (c, k) = Some v"
  "record_table (snd (compare_and_delete_record c k v d)) =
     (if record_table d (c, k) = Some v then (record_table d)((c, k) := None) else record_table d)"
  by (auto simp: record_table_def create_record_def compare_and_swap_record_def
      compare_and_delete_record_def bt_mem_def split: option.splits)

interpretation mdb: reliable_record_db memory_db record_table inner_ok
  by unfold_locales
    (simp_all add: memory_db_sel record_tables create_records_table list_records_spec inner_ok_records,
     auto simp: record_tables create_records_table list_records_spec)

end
