(* ===== verification/Codec.thy ===== *)
theory Codec
  imports Object_Db
begin

text \<open>
  Serialization of stored resources.  The stores write \<open>serde_json::to_vec\<close> and read
  \<open>serde_json::from_slice\<close>; a codec is a parameter of the model, and what the stores rely on
  is that decoding what was encoded gives it back.
\<close>

record 'r codec =
  cd_enc :: "'r \<Rightarrow> string + bytes"
  cd_dec :: "bytes \<Rightarrow> string + 'r"

definition codec_ok :: "'r codec \<Rightarrow> bool" where
  "codec_ok c \<longleftrightarrow> (\<forall>r b. cd_enc c r = Inr b \<longrightarrow> cd_dec c b = Inr r)"

lemma codec_okD: "codec_ok c \<Longrightarrow> cd_enc c r = Inr b \<Longrightarrow> cd_dec c b = Inr r"
  by (simp add: codec_ok_def)

text \<open>A codec given by a finite table.\<close>

definition table_codec :: "('r \<times> bytes) list \<Rightarrow> 'r codec" where
  "table_codec xs = \<lparr>
     cd_enc = (\<lambda>r. case map_of xs r of Some b \<Rightarrow> Inr b | None \<Rightarrow> Inl ''unsupported value''),
     cd_dec = (\<lambda>b. case map_of (map (\<lambda>(r, b). (b, r)) xs) b of Some r \<Rightarrow> Inr r
       | None \<Rightarrow> Inl ''malformed input'')\<rparr>"

lemma table_codec_sel [simp]:
  "cd_enc (table_codec xs) r = (case map_of xs r of Some b \<Rightarrow> Inr b | None \<Rightarrow> Inl ''unsupported value'')"
  "cd_dec (table_codec xs) b = (case map_of (map (\<lambda>(r, b). (b, r)) xs) b of Some r \<Rightarrow> Inr r
     | None \<Rightarrow> Inl ''malformed input'')"
  by (simp_all add: table_codec_def)

lemma codec_ok_table:
  assumes "distinct (map snd xs)"
  shows "codec_ok (table_codec xs)"
proof -
  have "map_of (map (\<lambda>(r, b). (b, r)) xs) b = Some r" if "map_of xs r = Some b" for r b
    using map_of_SomeD [OF that] assms
    by (intro map_of_is_SomeI) (simp add: comp_def case_prod_unfold, force)
  then show ?thesis by (auto simp: codec_ok_def split: option.splits)
qed

text \<open>A collection of a record database, read through a codec.\<close>

definition coll_view :: "string \<Rightarrow> 'r codec \<Rightarrow> table \<Rightarrow> string \<rightharpoonup> 'r" where
  "coll_view coll c T n = (case T (coll, n) of None \<Rightarrow> None
     | Some b \<Rightarrow> (case cd_dec c b of Inl _ \<Rightarrow> None | Inr r \<Rightarrow> Some r))"

lemma coll_view_upd:
  "cd_dec c b = Inr r \<Longrightarrow> coll_view coll c (T((coll, n) \<mapsto> b)) = (coll_view coll c T)(n \<mapsto> r)"
  by (auto simp: coll_view_def fun_eq_iff)

lemma coll_view_other: "coll \<noteq> coll' \<Longrightarrow> coll_view coll c (T((coll', n) := v)) = coll_view coll c T"
  by (auto simp: coll_view_def fun_eq_iff)

lemma coll_view_Some:
  "coll_view coll c T n = Some r \<longleftrightarrow> (\<exists>b. T (coll, n) = Some b \<and> cd_dec c b = Inr r)"
  by (auto simp: coll_view_def split: option.splits sum.splits)

lemma coll_view_absent: "T (coll, n) = None \<Longrightarrow> coll_view coll c T n = None"
  by (simp add: coll_view_def)

end
