(* ===== verification/Versioned.thy ===== *)
theory Versioned
  imports Prelude
begin

text \<open>
  Optimistic concurrency as every control-plane store of \<open>schemahub-core\<close> does it.  A
  stored resource carries an ETag \<open>v\<close>\<open>n\<close>; a replacement names the ETag it was computed
  from and is refused unless that is the current one, and an accepted replacement moves
  the ETag to \<open>v\<close>\<open>(n+1)\<close>.  \<open>next_etag\<close> is the code shared by \<open>change_record/store.rs\<close>
  (where it is written inline twice), \<open>repository.rs\<close> and \<open>auth_object_db.rs\<close>.

  The locale \<open>cas_store\<close> is the contract of such a store, \<open>versioned_store\<close> adds creation.
  Other processes share the database: what they do between the moment a replacement
  starts and the moment it writes is the argument \<open>env\<close> of \<open>replace\<close>.
\<close>

section \<open>ETags\<close>

definition etag_of :: "nat \<Rightarrow> string" where
  "etag_of v = CHR ''v'' # show_nat v"

definition etag_version :: "string \<Rightarrow> nat option" where
  "etag_version e = (case strip_prefix_char (CHR ''v'') e of None \<Rightarrow> None | Some t \<Rightarrow> parse_u64 t)"

definition next_etag :: "string \<Rightarrow> string option" where
  "next_etag e = map_option (\<lambda>v. etag_of (u64_wrapping_inc v)) (etag_version e)"

lemma etag_version_of [simp]: "v < u64_modulus \<Longrightarrow> etag_version (etag_of v) = Some v"
  by (simp add: etag_version_def etag_of_def strip_prefix_char_def)

lemma etag_version_bound: "etag_version e = Some v \<Longrightarrow> v < u64_modulus"
  by (auto simp: etag_version_def dest: parse_u64_bound split: option.splits)

lemma v1_etag: "''v1'' = etag_of 1"
  unfolding etag_of_def by (subst show_nat.simps) (simp add: digit_char_def, code_simp)

lemma etag_version_v1 [simp]: "etag_version ''v1'' = Some 1"
  unfolding v1_etag by (rule etag_version_of) (simp add: u64_modulus_def)

lemma next_etag_version:
  assumes "next_etag e = Some f"
  shows "\<exists>v. etag_version e = Some v \<and> etag_version f = Some (u64_wrapping_inc v)"
  using assms by (auto simp: next_etag_def u64_wrapping_inc_def u64_modulus_def)

lemma next_etag_changes:
  assumes "next_etag e = Some f"
  shows "f \<noteq> e"
proof
  assume "f = e"
  with next_etag_version [OF assms] obtain v where "v < u64_modulus" "u64_wrapping_inc v = v"
    using etag_version_bound by fastforce
  then show False
    by (auto simp: u64_wrapping_inc_def u64_modulus_def mod_if split: if_splits)
qed

section \<open>Steps of a table of versioned resources\<close>

text \<open>
  What any process does to such a table, one atomic write at a time: create an absent
  resource satisfying \<open>I\<close> at \<open>v1\<close>, or replace a resource by one that \<open>P\<close> allows and
  advance its ETag.  Version numbers are \<open>u64\<close>; the steps stay below the wrap-around.
\<close>

definition below_wrap :: "string \<Rightarrow> bool" where
  "below_wrap e \<longleftrightarrow> (\<forall>v. etag_version e = Some v \<longrightarrow> v + 1 < u64_modulus)"

inductive versioned_step ::
  "('r \<Rightarrow> string) \<Rightarrow> ('r \<Rightarrow> string) \<Rightarrow> ('r \<Rightarrow> bool) \<Rightarrow> ('r \<Rightarrow> 'r \<Rightarrow> bool)
    \<Rightarrow> (string \<rightharpoonup> 'r) \<Rightarrow> (string \<rightharpoonup> 'r) \<Rightarrow> bool"
  for key :: "'r \<Rightarrow> string" and etag :: "'r \<Rightarrow> string" and I :: "'r \<Rightarrow> bool" and P :: "'r \<Rightarrow> 'r \<Rightarrow> bool"
  where
    vs_created: "m (key r) = None \<Longrightarrow> I r \<Longrightarrow> etag r = ''v1'' \<Longrightarrow>
      versioned_step key etag I P m (m(key r \<mapsto> r))"
  | vs_replaced: "m (key d) = Some c \<Longrightarrow> P c d \<Longrightarrow> next_etag (etag c) = Some (etag d) \<Longrightarrow>
      below_wrap (etag c) \<Longrightarrow> versioned_step key etag I P m (m(key d \<mapsto> d))"

definition newer :: "('r \<Rightarrow> string) \<Rightarrow> 'r \<Rightarrow> 'r \<Rightarrow> bool" where
  "newer etag c d \<longleftrightarrow> d = c \<or>
     (\<exists>v w. etag_version (etag c) = Some v \<and> etag_version (etag d) = Some w \<and> v < w)"

text \<open>The ETag \<open>e\<close> names a version up to the one \<open>f\<close> names; \<open>e\<close> is not from the future.\<close>

definition issued_by :: "string \<Rightarrow> string \<Rightarrow> bool" where
  "issued_by e f \<longleftrightarrow>
     (\<forall>v w. etag_version e = Some v \<longrightarrow> etag_version f = Some w \<longrightarrow> v \<le> w)"

lemma issued_by_refl [simp]: "issued_by e e"
  by (simp add: issued_by_def)

lemma newer_refl [simp]: "newer etag c c"
  by (simp add: newer_def)

lemma newer_trans: "newer etag b c \<Longrightarrow> newer etag c d \<Longrightarrow> newer etag b d"
  by (fastforce simp: newer_def)

lemma next_etag_newer:
  assumes "next_etag (etag c) = Some (etag d)" and "below_wrap (etag c)"
  shows "newer etag c d"
  using next_etag_version [OF assms(1)] assms(2)
  by (auto simp: newer_def below_wrap_def u64_wrapping_inc_def)

text \<open>Along the steps a resource stays, and only its successors take its place.\<close>

lemma versioned_steps_newer:
  assumes "(versioned_step key etag I P)\<^sup>*\<^sup>* m m'" and "m n = Some c"
  shows "\<exists>d. m' n = Some d \<and> newer etag c d"
  using assms
proof (induction rule: rtranclp_induct)
  case (step m' m'')
  then obtain d where d: "m' n = Some d" "newer etag c d" by blast
  from step.hyps(2) show ?case
  proof cases
    case (vs_replaced d' c')
    then have "newer etag c' d'" by (intro next_etag_newer)
    then show ?thesis
      using vs_replaced d newer_trans [of etag c d d'] by (cases "n = key d'") auto
  qed (use d in auto)
qed simp

text \<open>A property of resources that creation gives and replacement keeps holds throughout.\<close>

lemma versioned_steps_invariant:
  assumes "(versioned_step key etag I P)\<^sup>*\<^sup>* m m'"
    and "\<And>r. I r \<Longrightarrow> Q r" and "\<And>c d. Q c \<Longrightarrow> P c d \<Longrightarrow> Q d"
    and "\<forall>n r. m n = Some r \<longrightarrow> Q r"
  shows "\<forall>n r. m' n = Some r \<longrightarrow> Q r"
  using assms(1,4)
proof (induction rule: rtranclp_induct)
  case (step m' m'')
  note IH = step.IH [OF step.prems]
  from step.hyps(2) show ?case
  proof cases
    case (vs_replaced d c)
    then have "Q d" using IH assms(3) [of c d] by simp
    with vs_replaced IH show ?thesis by simp
  qed (use IH assms(2) in simp)
qed simp

lemma versioned_steps_keyed:
  assumes "(versioned_step key etag I P)\<^sup>*\<^sup>* m m'" and "\<forall>n r. m n = Some r \<longrightarrow> key r = n"
  shows "\<forall>n r. m' n = Some r \<longrightarrow> key r = n"
  using assms
proof (induction rule: rtranclp_induct)
  case (step m' m'')
  from step.hyps(2) step.IH [OF step.prems] show ?case by cases auto
qed simp

text \<open>A resource no replacement is allowed for stays as it is.\<close>

lemma versioned_steps_frozen:
  assumes "(versioned_step key etag I P)\<^sup>*\<^sup>* m m'" and "\<And>d. \<not> P c d" and "m n = Some c"
  shows "m' n = Some c"
  using assms(1,3)
proof (induction rule: rtranclp_induct)
  case (step m' m'')
  note IH = step.IH [OF step.prems]
  from step.hyps(2) show ?case
  proof cases
    case (vs_replaced d c')
    then show ?thesis using IH assms(2) [of d] by (cases "n = key d") auto
  qed (use IH in auto)
qed

text \<open>A relation between a resource and its successors that replacement keeps.\<close>

lemma versioned_steps_relation:
  assumes "(versioned_step key etag I P)\<^sup>*\<^sup>* m m'"
    and "\<And>c. R c c" and "\<And>c d e. R c d \<Longrightarrow> P d e \<Longrightarrow> R c e"
    and "m n = Some c"
  shows "\<exists>d. m' n = Some d \<and> R c d"
  using assms(1,4)
proof (induction rule: rtranclp_induct)
  case (step m' m'')
  then obtain d where d: "m' n = Some d" "R c d" by blast
  from step.hyps(2) d show ?case
  proof cases
    case (vs_replaced e c')
    then show ?thesis using d assms(3) [of c d e] by (cases "n = key e") auto
  qed (use d in auto)
qed (simp add: assms(2))

section \<open>The contract\<close>

locale cas_store =
  fixes key :: "'r \<Rightarrow> string"
    and etag :: "'r \<Rightarrow> string"
    and set_etag :: "string \<Rightarrow> 'r \<Rightarrow> 'r"
    and get :: "string \<Rightarrow> 's \<Rightarrow> 'e + 'r option"
    and replace :: "('s \<Rightarrow> 's) \<Rightarrow> string \<Rightarrow> 'r \<Rightarrow> 's \<Rightarrow> ('e + 'r) \<times> 's"
    and view :: "'s \<Rightarrow> string \<rightharpoonup> 'r"
    and inv :: "'s \<Rightarrow> bool"
  assumes etag_set: "etag (set_etag e r) = e"
    and get_view: "inv s \<Longrightarrow> get n s = Inr ro \<Longrightarrow> ro = view s n"
    and replace_Inr: "inv s \<Longrightarrow> inv (env s) \<Longrightarrow> replace env e r s = (Inr r', t) \<Longrightarrow>
      (\<exists>c. view (env s) (key r) = Some c \<and> etag c = e)
      \<and> next_etag e = Some (etag r') \<and> r' = set_etag (etag r') r
      \<and> view t = (view (env s))(key r \<mapsto> r') \<and> inv t"
    and replace_Inl: "inv s \<Longrightarrow> inv (env s) \<Longrightarrow> replace env e r s = (Inl x, t) \<Longrightarrow>
      (view t = view s \<or> view t = view (env s)) \<and> inv t"
begin

text \<open>A replacement computed from an ETag that is no longer current is refused.\<close>

lemma stale_refused:
  assumes "inv s" and "inv (env s)"
    and "view (env s) (key r) = Some c" and "etag c \<noteq> e"
  shows "\<exists>x. fst (replace env e r s) = Inl x"
proof (cases "fst (replace env e r s)")
  case (Inr r')
  then obtain t where "replace env e r s = (Inr r', t)" by (cases "replace env e r s") auto
  with replace_Inr [of s env e r r'] assms show ?thesis by fastforce
qed simp

lemma missing_refused:
  assumes "inv s" and "inv (env s)" and "view (env s) (key r) = None"
  shows "\<exists>x. fst (replace env e r s) = Inl x"
proof (cases "fst (replace env e r s)")
  case (Inr r')
  then obtain t where "replace env e r s = (Inr r', t)" by (cases "replace env e r s") auto
  with replace_Inr [of s env e r r'] assms show ?thesis by fastforce
qed simp

text \<open>
  No update is lost: a replacement that names an ETag not newer than the resource that was
  read, and is accepted although other processes took steps in between, found that very
  resource still in place.
\<close>

lemma no_lost_update:
  assumes inv: "inv s" "inv (env s)" and env: "(versioned_step key etag I P)\<^sup>*\<^sup>* (view s) (view (env s))"
    and read: "view s (key r) = Some c" and issued: "issued_by e (etag c)"
    and acc: "replace env e r s = (Inr r', t)"
  shows "view (env s) (key r) = Some c \<and> etag c = e"
proof -
  obtain d where d: "view (env s) (key r) = Some d" "etag d = e"
    using replace_Inr [OF _ _ acc] inv by auto
  then have "newer etag c d"
    using versioned_steps_newer [OF env read] by auto
  then have "d = c" using issued d(2) by (auto simp: newer_def issued_by_def)
  then show ?thesis using d by simp
qed

text \<open>An accepted replacement is a step of the table of resources.\<close>

lemma replace_step:
  assumes inv: "inv s" "inv (env s)" and env: "(versioned_step key etag I P)\<^sup>*\<^sup>* (view s) (view (env s))"
    and read: "view s (key r) = Some c" and issued: "issued_by e (etag c)" and below: "below_wrap e"
    and keys: "\<And>e. key (set_etag e r) = key r" and P: "\<And>e. P c (set_etag e r)"
    and acc: "replace env e r s = (Inr r', t)"
  shows "versioned_step key etag I P (view (env s)) (view t) \<and> view (env s) (key r) = Some c
    \<and> view t (key r) = Some r' \<and> etag c = e \<and> inv t"
proof -
  have r': "next_etag e = Some (etag r')" "r' = set_etag (etag r') r"
      "view t = (view (env s))(key r \<mapsto> r')" "inv t"
    using replace_Inr [OF _ _ acc] inv by auto
  have c: "view (env s) (key r) = Some c" "etag c = e"
    using no_lost_update [OF inv env read issued acc] by auto
  have "key r' = key r" "P c r'" using r'(2) keys [of "etag r'"] P [of "etag r'"] by simp_all
  then have "versioned_step key etag I P (view (env s)) (view t)"
    using vs_replaced [of "view (env s)" key r' c P etag I] c r' below by simp
  then show ?thesis using c r' by simp
qed

end

locale versioned_store = cas_store key etag set_etag get replace view inv
  for key :: "'r \<Rightarrow> string" and etag and set_etag
    and get :: "string \<Rightarrow> 's \<Rightarrow> 'e + 'r option" and replace and view and inv +
  fixes create :: "'r \<Rightarrow> 's \<Rightarrow> ('e + 'r) \<times> 's"
  assumes create_Inr: "inv s \<Longrightarrow> create r s = (Inr r', t) \<Longrightarrow>
      view s (key r) = None \<and> r' = set_etag ''v1'' r \<and> view t = (view s)(key r \<mapsto> r') \<and> inv t"
    and create_Inl: "inv s \<Longrightarrow> create r s = (Inl x, t) \<Longrightarrow> view t = view s \<and> inv t"
begin

lemma create_present_refused:
  assumes "inv s" and "view s (key r) = Some c"
  shows "\<exists>x. fst (create r s) = Inl x"
proof (cases "fst (create r s)")
  case (Inr r')
  then obtain t where "create r s = (Inr r', t)" by (cases "create r s") auto
  with create_Inr [OF assms(1)] assms(2) show ?thesis by fastforce
qed simp

lemma create_inv:
  assumes "inv s" and "create r s = (x, t)"
  shows "inv t"
  using assms create_Inr create_Inl by (cases x) blast+

end

end
