(* ===== verification/Change_Store.thy ===== *)
theory Change_Store
  imports Codec Versioned
begin

text \<open>
  Change records and their persistence: \<open>change_record/model.rs\<close> and
  \<open>change_record/store.rs\<close> of \<open>schemahub-core\<close>.  The trait \<open>ChangeRecordStore\<close> is a record
  of operations; \<open>memory_change_store\<close> is \<open>MemoryChangeRecordStore\<close>, and
  \<open>objdb_change_store\<close> is \<open>ObjectDbChangeRecordStore\<close> over any record database and any
  codec (\<open>serde_json\<close> in the code).  Both are shown to meet the locale
  \<open>versioned_store\<close>.  The argument \<open>env\<close> of a replacement is what other threads and
  processes do to the store after the call began and before its atomic write: while the
  call waits for the mutex of the memory store, between the read and the
  compare-and-swap of the durable one.  Mutex poisoning is left out.
\<close>

section \<open>Data\<close>

record change_actor =
  ac_identity :: string
  ac_kind :: identity_kind
  ac_display_name :: "string option"
  ac_delegated_by :: "string option"

definition change_actor_from :: "identity \<Rightarrow> change_actor" where
  "change_actor_from i = \<lparr>
     ac_identity = (case identity_id i of None \<Rightarrow> [] | Some n \<Rightarrow> n),
     ac_kind = identity_kind_of i,
     ac_display_name = identity_display i,
     ac_delegated_by = delegated_by i\<rparr>"

datatype change_edit =
    MutationEdit schema_path string bytes
  | ReplaceSource schema_path string string
  | DeleteSchema schema_path string

datatype change_status = Draft | Ready | Applying | Applied | Rejected | Abandoned

definition is_terminal :: "change_status \<Rightarrow> bool" where
  "is_terminal s = (case s of Applied \<Rightarrow> True | Rejected \<Rightarrow> True | Abandoned \<Rightarrow> True | _ \<Rightarrow> False)"

text \<open>
  The text of a validation issue, as a constructor naming its template with the values
  it interpolates; \<open>RenderedError\<close> is the display form of another component's error.
\<close>

datatype issue_message =
    FixedText string
  | TooManyEdits nat nat
  | TooManySchemas nat nat
  | TargetsOtherRepo string string
  | InvalidFormat string string string
  | DuplicateEdit string
  | RenderedError string

record validation_issue =
  is_code :: string
  is_message :: issue_message
  is_schema_name :: "string option"
  is_declaration_name :: "string option"

record validation_result =
  vr_valid :: bool
  vr_resolved_base_commit :: string
  vr_edit_digest :: string
  vr_issues :: "validation_issue list"
  vr_validated_at :: int
  vr_validator_version :: string

datatype review_decision = RvApproved | RvRejected

record change_review =
  rv_reviewer :: change_actor
  rv_decision :: review_decision
  rv_reason :: string
  rv_create_time :: int

record apply_result =
  ar_commit_id :: string
  ar_change_id :: string
  ar_operation_id :: string
  ar_conflicted_declarations :: "string list"
  ar_artifact_digest :: "string option"

record apply_attempt =
  at_request_id :: string
  at_attempt_id :: string
  at_actor :: change_actor
  at_lease_owner :: string
  at_lease_expires_at :: int
  at_start_time :: int
  at_update_time :: int

record change_record =
  ch_name :: string
  ch_project :: string
  ch_repo :: string
  ch_target_bookmark :: string
  ch_base_revision :: "string option"
  ch_title :: string
  ch_description :: string
  ch_external_references :: "string list"
  ch_edits :: "change_edit list"
  ch_created_by :: change_actor
  ch_status :: change_status
  ch_validation :: "validation_result option"
  ch_reviews :: "change_review list"
  ch_apply_attempt :: "apply_attempt option"
  ch_apply_result :: "apply_result option"
  ch_etag :: string
  ch_create_time :: int
  ch_update_time :: int

record create_change =
  cc_project :: string
  cc_repo :: string
  cc_change_id :: "string option"
  cc_target_bookmark :: string
  cc_base_revision :: "string option"
  cc_title :: string
  cc_description :: string
  cc_external_references :: "string list"
  cc_edits :: "change_edit list"

record change_update =
  cu_target_bookmark :: "string option"
  cu_base_revision :: "string option"
  cu_title :: "string option"
  cu_description :: "string option"
  cu_external_references :: "string list option"
  cu_edits :: "change_edit list option"

definition change_update_is_empty :: "change_update \<Rightarrow> bool" where
  "change_update_is_empty u \<longleftrightarrow>
     cu_target_bookmark u = None \<and> cu_base_revision u = None \<and> cu_title u = None
     \<and> cu_description u = None \<and> cu_external_references u = None \<and> cu_edits u = None"

section \<open>The store interface\<close>

datatype store_message =
    EncodeRecord string
  | DecodeRecord string
  | InvalidStoredEtag string
  | DbMessage db_error
  | KeyNameMismatch string string

datatype change_store_error =
    CsAlreadyExists string
  | CsNotFound string
  | CsEtagMismatch (csm_name: string) (csm_expected: string) (csm_current: string)
  | CsBackend store_message

record 's change_store =
  cs_create :: "change_record \<Rightarrow> 's \<Rightarrow> (change_store_error + change_record) \<times> 's"
  cs_get :: "string \<Rightarrow> 's \<Rightarrow> change_store_error + change_record option"
  cs_list :: "string \<Rightarrow> string \<Rightarrow> 's \<Rightarrow> change_store_error + change_record list"
  cs_replace :: "('s \<Rightarrow> 's) \<Rightarrow> string \<Rightarrow> change_record \<Rightarrow> 's
    \<Rightarrow> (change_store_error + change_record) \<times> 's"

text \<open>\<open>create_time_unix_ms\<close>, then \<open>name\<close>.\<close>

definition list_order :: "change_record \<Rightarrow> int \<times> string" where
  "list_order r = (ch_create_time r, ch_name r)"

definition set_etag :: "string \<Rightarrow> change_record \<Rightarrow> change_record" where
  "set_etag e r = r\<lparr>ch_etag := e\<rparr>"

section \<open>The memory store\<close>

type_synonym change_table = "(string, change_record) btree"

definition mem_create ::
  "change_record \<Rightarrow> change_table \<Rightarrow> (change_store_error + change_record) \<times> change_table" where
  "mem_create r s =
     (if bt_mem (ch_name r) s then (Inl (CsAlreadyExists (ch_name r)), s)
      else let r = set_etag ''v1'' r in (Inr r, bt_insert (ch_name r) r s))"

definition mem_get :: "string \<Rightarrow> change_table \<Rightarrow> change_store_error + change_record option" where
  "mem_get n s = Inr (bt_get s n)"

definition mem_list ::
  "string \<Rightarrow> string \<Rightarrow> change_table \<Rightarrow> change_store_error + change_record list" where
  "mem_list project repo s =
     Inr (sort_key list_order
       (filter (\<lambda>r. ch_project r = project \<and> ch_repo r = repo) (map snd s)))"

definition mem_replace ::
  "(change_table \<Rightarrow> change_table) \<Rightarrow> string \<Rightarrow> change_record \<Rightarrow> change_table
    \<Rightarrow> (change_store_error + change_record) \<times> change_table" where
  "mem_replace env expected r s0 =
     (let s = env s0 in
      and_then_st (ok_or (CsNotFound (ch_name r)) (bt_get s (ch_name r))) s (\<lambda>current.
      if ch_etag current \<noteq> expected then
        (Inl (CsEtagMismatch (ch_name r) expected (ch_etag current)), s)
      else and_then_st
        (ok_or (CsBackend (InvalidStoredEtag (ch_etag current))) (next_etag (ch_etag current))) s
        (\<lambda>e. let r = set_etag e r in (Inr r, bt_insert (ch_name r) r s))))"

definition memory_change_store :: "change_table change_store" where
  "memory_change_store = \<lparr>cs_create = mem_create, cs_get = mem_get, cs_list = mem_list,
     cs_replace = mem_replace\<rparr>"

section \<open>The durable store\<close>

definition change_record_collection :: string where
  "change_record_collection = ''schemahub.change_records.v1''"

definition cs_encode :: "change_record codec \<Rightarrow> change_record \<Rightarrow> change_store_error + bytes" where
  "cs_encode c r = map_err (\<lambda>e. CsBackend (EncodeRecord e)) (cd_enc c r)"

definition cs_decode :: "change_record codec \<Rightarrow> bytes \<Rightarrow> change_store_error + change_record" where
  "cs_decode c b = map_err (\<lambda>e. CsBackend (DecodeRecord e)) (cd_dec c b)"

definition cs_map_db :: "db_error \<Rightarrow> change_store_error" where
  "cs_map_db e = CsBackend (DbMessage e)"

definition odb_create ::
  "'s record_db \<Rightarrow> change_record codec \<Rightarrow> change_record \<Rightarrow> 's
    \<Rightarrow> (change_store_error + change_record) \<times> 's" where
  "odb_create db c r s =
     (let r = set_etag ''v1'' r in
      and_then_st (cs_encode c r) s (\<lambda>bytes.
      case rdb_create db change_record_collection (ch_name r) bytes s of (res, s) \<Rightarrow>
      and_then_st (map_err cs_map_db res) s (\<lambda>inserted.
      if \<not> inserted then (Inl (CsAlreadyExists (ch_name r)), s) else (Inr r, s))))"

definition odb_get ::
  "'s record_db \<Rightarrow> change_record codec \<Rightarrow> string \<Rightarrow> 's \<Rightarrow> change_store_error + change_record option" where
  "odb_get db c n s =
     and_then (map_err cs_map_db (rdb_get db change_record_collection n s)) (\<lambda>b.
     case b of None \<Rightarrow> Inr None | Some bytes \<Rightarrow> and_then (cs_decode c bytes) (\<lambda>r. Inr (Some r)))"

fun decode_all ::
  "change_record codec \<Rightarrow> string \<Rightarrow> string \<Rightarrow> (string \<times> bytes) list \<Rightarrow> change_store_error + change_record list" where
  "decode_all c project repo [] = Inr []"
| "decode_all c project repo ((k, b) # rest) =
     and_then (cs_decode c b) (\<lambda>r.
     if ch_name r \<noteq> k then Inl (CsBackend (KeyNameMismatch k (ch_name r)))
     else and_then (decode_all c project repo rest) (\<lambda>found.
       if ch_project r = project \<and> ch_repo r = repo then Inr (r # found) else Inr found))"

definition odb_list ::
  "'s record_db \<Rightarrow> change_record codec \<Rightarrow> string \<Rightarrow> string \<Rightarrow> 's \<Rightarrow> change_store_error + change_record list" where
  "odb_list db c project repo s =
     and_then (map_err cs_map_db (rdb_list db change_record_collection s)) (\<lambda>kvs.
     and_then (decode_all c project repo kvs) (\<lambda>found. Inr (sort_key list_order found)))"

definition odb_replace ::
  "'s record_db \<Rightarrow> change_record codec \<Rightarrow> ('s \<Rightarrow> 's) \<Rightarrow> string \<Rightarrow> change_record \<Rightarrow> 's
    \<Rightarrow> (change_store_error + change_record) \<times> 's" where
  "odb_replace db c env expected r s =
     and_then_st (and_then (map_err cs_map_db (rdb_get db change_record_collection (ch_name r) s))
       (ok_or (CsNotFound (ch_name r)))) s (\<lambda>current_bytes.
     and_then_st (cs_decode c current_bytes) s (\<lambda>current.
     if ch_etag current \<noteq> expected then
       (Inl (CsEtagMismatch (ch_name r) expected (ch_etag current)), s)
     else and_then_st
       (ok_or (CsBackend (InvalidStoredEtag (ch_etag current))) (next_etag (ch_etag current))) s (\<lambda>e.
     let r = set_etag e r in
     and_then_st (cs_encode c r) s (\<lambda>replacement.
     case rdb_cas db change_record_collection (ch_name r) current_bytes replacement (env s) of (res, s) \<Rightarrow>
     and_then_st (map_err cs_map_db res) s (\<lambda>replaced.
     if replaced then (Inr r, s)
     else and_then_st (and_then (and_then
         (map_err cs_map_db (rdb_get db change_record_collection (ch_name r) s))
         (ok_or (CsNotFound (ch_name r)))) (cs_decode c)) s (\<lambda>latest.
       (Inl (CsEtagMismatch (ch_name r) expected (ch_etag latest)), s)))))))"

definition objdb_change_store :: "'s record_db \<Rightarrow> change_record codec \<Rightarrow> 's change_store" where
  "objdb_change_store db c = \<lparr>cs_create = odb_create db c, cs_get = odb_get db c,
     cs_list = odb_list db c, cs_replace = odb_replace db c\<rparr>"

section \<open>Both stores are versioned\<close>

lemma set_etag_simps [simp]:
  "ch_etag (set_etag e r) = e" "ch_name (set_etag e r) = ch_name r"
  "ch_status (set_etag e r) = ch_status r"
  by (simp_all add: set_etag_def)

lemma memory_change_store_sel [simp]:
  "cs_create memory_change_store = mem_create" "cs_get memory_change_store = mem_get"
  "cs_list memory_change_store = mem_list" "cs_replace memory_change_store = mem_replace"
  by (simp_all add: memory_change_store_def)

lemma objdb_change_store_sel [simp]:
  "cs_create (objdb_change_store db c) = odb_create db c" "cs_get (objdb_change_store db c) = odb_get db c"
  "cs_list (objdb_change_store db c) = odb_list db c" "cs_replace (objdb_change_store db c) = odb_replace db c"
  by (simp_all add: objdb_change_store_def)

lemma mem_replace_Inr:
  assumes "mem_replace env e r s = (Inr r', t)"
  shows "\<exists>c. bt_get (env s) (ch_name r) = Some c \<and> ch_etag c = e"
    and "next_etag e = Some (ch_etag r')" and "r' = set_etag (ch_etag r') r"
    and "t = bt_insert (ch_name r) r' (env s)"
  using assms by (auto simp: mem_replace_def Let_def and_then_st_Inr ok_or_Inr split: if_splits)

lemma mem_replace_Inl: "mem_replace env e r s = (Inl x, t) \<Longrightarrow> t = env s"
  by (auto simp: mem_replace_def Let_def and_then_st_def ok_or_def split: if_splits option.splits)

interpretation mcs: versioned_store ch_name ch_etag set_etag mem_get mem_replace bt_get bt_ok mem_create
proof unfold_locales
  fix s env e r r' t
  assume "bt_ok s" "bt_ok (env s)" and *: "mem_replace env e r s = (Inr r', t)"
  then show "(\<exists>c. bt_get (env s) (ch_name r) = Some c \<and> ch_etag c = e)
      \<and> next_etag e = Some (ch_etag r') \<and> r' = set_etag (ch_etag r') r
      \<and> bt_get t = (bt_get (env s))(ch_name r \<mapsto> r') \<and> bt_ok t"
    using mem_replace_Inr [OF *] by simp
qed (auto simp: mem_get_def mem_create_def bt_mem_iff Let_def dest: mem_replace_Inl split: if_splits)

text \<open>The map of records a record database holds, read through the codec.\<close>

abbreviation cs_view :: "change_record codec \<Rightarrow> table \<Rightarrow> string \<rightharpoonup> change_record" where
  "cs_view \<equiv> coll_view change_record_collection"

context record_db_laws
begin

lemma odb_get_view:
  assumes "inv s" and "odb_get db c n s = Inr ro"
  shows "ro = cs_view c (tbl s) n"
  using assms get_ok [OF assms(1)]
  by (fastforce simp: odb_get_def and_then_Inr map_err_Inr cs_decode_def coll_view_def split: option.splits)

lemma odb_create_Inr:
  assumes "codec_ok c" and "inv s" and "odb_create db c r s = (Inr r', t)"
  shows "cs_view c (tbl s) (ch_name r) = None \<and> r' = set_etag ''v1'' r
    \<and> cs_view c (tbl t) = (cs_view c (tbl s))(ch_name r \<mapsto> r') \<and> inv t"
proof -
  obtain b where enc: "cd_enc c (set_etag ''v1'' r) = Inr b"
    and db: "rdb_create db change_record_collection (ch_name r) b s = (Inr True, t)"
    and r': "r' = set_etag ''v1'' r"
    using assms(3) by (auto simp: odb_create_def Let_def and_then_st_Inr cs_encode_def map_err_Inr
        case_prod_eq_iff split: if_splits)
  have "cd_dec c b = Inr r'" using assms(1) enc r' by (auto simp: codec_ok_def)
  then show ?thesis
    using create_ok [OF assms(2) db] inv_create [OF assms(2), of change_record_collection "ch_name r" b] db r'
    by (simp add: coll_view_upd) (simp add: coll_view_def)
qed

lemma odb_create_Inl:
  assumes "inv s" and "odb_create db c r s = (Inl x, t)"
  shows "cs_view c (tbl t) = cs_view c (tbl s) \<and> inv t"
proof (cases "cs_encode c (set_etag ''v1'' r)")
  case (Inr b)
  obtain res u where db: "rdb_create db change_record_collection (ch_name r) b s = (res, u)" by force
  then have "t = u" and "res = Inr False \<or> (\<exists>e. res = Inl e)"
    using assms(2) Inr by (auto simp: odb_create_def Let_def result_simps split: if_splits)
  then show ?thesis
    using create_ok [OF assms(1), of _ _ b False] create_fail [OF assms(1), of _ _ b]
      inv_create [OF assms(1), of change_record_collection "ch_name r" b] db by auto
qed (use assms in \<open>auto simp: odb_create_def Let_def\<close>)

lemma odb_replace_Inr:
  assumes ok: "codec_ok c" and inv: "inv s" "inv (env s)"
    and rep: "odb_replace db c env e r s = (Inr r', t)"
  shows "(\<exists>d. cs_view c (tbl (env s)) (ch_name r) = Some d \<and> ch_etag d = e)
    \<and> next_etag e = Some (ch_etag r') \<and> r' = set_etag (ch_etag r') r
    \<and> cs_view c (tbl t) = (cs_view c (tbl (env s)))(ch_name r \<mapsto> r') \<and> inv t"
proof -
  obtain cb cur b where dec: "cd_dec c cb = Inr cur" and et: "ch_etag cur = e" "next_etag e = Some (ch_etag r')"
    and r': "r' = set_etag (ch_etag r') r" and enc: "cd_enc c r' = Inr b"
    and cas: "rdb_cas db change_record_collection (ch_name r) cb b (env s) = (Inr True, t)"
    using rep by (auto simp: odb_replace_def Let_def and_then_st_Inr and_then_Inr cs_encode_def cs_decode_def
        map_err_Inr ok_or_Inr case_prod_eq_iff split: if_splits)
  have "cd_dec c b = Inr r'" using ok enc by (auto simp: codec_ok_def)
  moreover have "tbl (env s) (change_record_collection, ch_name r) = Some cb"
    and "tbl t = (tbl (env s))((change_record_collection, ch_name r) \<mapsto> b)"
    using cas_ok [OF inv(2) cas] by auto
  moreover have "inv t"
    using inv_cas [OF inv(2), of change_record_collection "ch_name r" cb b] cas by simp
  ultimately show ?thesis using dec et r' by (simp add: coll_view_upd) (simp add: coll_view_def)
qed

lemma odb_replace_Inl:
  assumes inv: "inv s" "inv (env s)" and rep: "odb_replace db c env e r s = (Inl x, t)"
  shows "(cs_view c (tbl t) = cs_view c (tbl s) \<or> cs_view c (tbl t) = cs_view c (tbl (env s))) \<and> inv t"
proof (cases "t = s")
  case False
  then obtain cb b res where cas: "rdb_cas db change_record_collection (ch_name r) cb b (env s) = (res, t)"
    and "res = Inr False \<or> (\<exists>e. res = Inl e)"
    using rep by (auto simp: odb_replace_def Let_def result_simps split: if_splits)
  then show ?thesis
    using cas_ok [OF inv(2), of _ _ cb b False] cas_fail [OF inv(2), of _ _ cb b]
      inv_cas [OF inv(2), of change_record_collection "ch_name r" cb b] by auto
qed (use inv in simp)

end

lemma objdb_versioned:
  assumes "record_db_laws db tbl ok" and "codec_ok c"
  shows "versioned_store ch_name ch_etag set_etag (odb_get db c) (odb_replace db c)
    (\<lambda>s. cs_view c (tbl s)) ok (odb_create db c)"
  by (intro versioned_store.intro cas_store.intro versioned_store_axioms.intro)
    (erule (1) record_db_laws.odb_get_view [OF assms(1)]
      record_db_laws.odb_create_Inr [OF assms] record_db_laws.odb_create_Inl [OF assms(1)]
      record_db_laws.odb_replace_Inr [OF assms] record_db_laws.odb_replace_Inl [OF assms(1)] | simp)+

end
