(* ===== verification/Change_Ledger.thy ===== *)
theory Change_Ledger
  imports Change_Store
begin

text \<open>
  The lifecycle of change records: \<open>change_record/ledger.rs\<close> and the clock and id
  interfaces of \<open>change_record/runtime.rs\<close>.  Every operation of \<open>ChangeLedger\<close> is a
  definition over the store interface; a \<open>runtime\<close> holds what the environment supplies to one
  call: the clock, the id generators, and the steps of other processes before the read and
  before the write of each round of a retry loop (loops make four rounds, other operations
  only round 0).
\<close>

section \<open>Errors and runtime\<close>

datatype runtime_error = ClockError string | TimestampOverflow

datatype ledger_message =
    EtagEmpty | EmptyMask | BadSegment string | EmptyField string | TitleTooLong
  | TooManyReferences | BadReference | DuplicateReference string | BadChangeId | BadRequestId
  | BadName | BadStatus string change_status change_status | NoteOnlyDraft | NotValidated
  | ValidationBlocking | LeaseNotPositive | AppliedNoAttempt | AppliedByOther | NotPassing
  | ApplyingNoAttempt | OtherRequestApplying | CannotApply change_status | AcquireRetry
  | CorrelationMismatch | ResultIncomplete | CompleteRetry | ReleaseMismatch | ReleaseRetry
  | EmptyRejection | CannotAbandon change_status | AuthorReview | AlreadyReviewed string

datatype ledger_error =
    InvalidArgument ledger_message
  | FailedPrecondition ledger_message
  | LStore change_store_error
  | LRuntime runtime_error

record 's runtime =
  rt_now :: "nat \<Rightarrow> runtime_error + int"
  rt_change_id :: string
  rt_attempt_id :: "nat \<Rightarrow> string"
  rt_lease_owner :: "nat \<Rightarrow> string"
  rt_before_read :: "nat \<Rightarrow> 's \<Rightarrow> 's"
  rt_before_write :: "nat \<Rightarrow> 's \<Rightarrow> 's"

definition now_unix_millis :: "'s runtime \<Rightarrow> nat \<Rightarrow> ledger_error + int" where
  "now_unix_millis rt i = map_err LRuntime (rt_now rt i)"

text \<open>\<open>SystemChangeClock\<close>: milliseconds since the epoch, which must fit an \<open>i64\<close>.\<close>

definition system_now :: "string + nat \<Rightarrow> runtime_error + int" where
  "system_now since_epoch =
     and_then (map_err ClockError since_epoch) (\<lambda>millis.
     if int millis \<le> i64_max then Inr (int millis) else Inl TimestampOverflow)"

section \<open>Argument checks\<close>

definition require_status :: "change_record \<Rightarrow> change_status \<Rightarrow> string \<Rightarrow> ledger_error + unit" where
  "require_status r expected operation =
     ensure (ch_status r = expected) (FailedPrecondition (BadStatus operation (ch_status r) expected))"

definition validate_segment :: "string \<Rightarrow> string \<Rightarrow> ledger_error + unit" where
  "validate_segment label v =
     (if v = [] \<or> contains_char (CHR ''/'') v \<or> has_control v then Inl (InvalidArgument (BadSegment label))
      else Inr ())"

definition validate_nonempty :: "string \<Rightarrow> string \<Rightarrow> ledger_error + unit" where
  "validate_nonempty label v = (if trim v = [] then Inl (InvalidArgument (EmptyField label)) else Inr ())"

definition validate_title :: "string \<Rightarrow> ledger_error + unit" where
  "validate_title t = and_then (validate_nonempty ''title'' t) (\<lambda>_.
     if chars_count t > 200 then Inl (InvalidArgument TitleTooLong) else Inr ())"

fun normalize_loop :: "string list \<Rightarrow> string list \<Rightarrow> ledger_error + string list" where
  "normalize_loop unique [] = Inr []"
| "normalize_loop unique (x # rest) =
     (let r = trim x in
      if r = [] \<or> length r > 2048 \<or> has_control r then Inl (InvalidArgument BadReference)
      else if r \<in> set unique then Inl (InvalidArgument (DuplicateReference r))
      else and_then (normalize_loop (r # unique) rest) (\<lambda>rs. Inr (r # rs)))"

definition normalize_external_references :: "string list \<Rightarrow> ledger_error + string list" where
  "normalize_external_references refs =
     (if length refs > 32 then Inl (InvalidArgument TooManyReferences) else normalize_loop [] refs)"

definition is_lower :: "char \<Rightarrow> bool" where
  "is_lower c \<longleftrightarrow> 97 \<le> (of_char c :: nat) \<and> (of_char c :: nat) \<le> 122"

definition is_digit :: "char \<Rightarrow> bool" where
  "is_digit c \<longleftrightarrow> 48 \<le> (of_char c :: nat) \<and> (of_char c :: nat) \<le> 57"

definition validate_change_id :: "string \<Rightarrow> ledger_error + unit" where
  "validate_change_id i =
     (let valid = 1 \<le> length i \<and> length i \<le> 63
        \<and> (case i of [] \<Rightarrow> False | c # _ \<Rightarrow> is_lower c)
        \<and> list_all (\<lambda>c. is_lower c \<or> is_digit c \<or> c = CHR ''-'') i
      in if \<not> valid then Inl (InvalidArgument BadChangeId) else Inr ())"

definition validate_request_id :: "string \<Rightarrow> ledger_error + unit" where
  "validate_request_id i =
     (if trim i = [] \<or> length i > 128 \<or> has_control i then Inl (InvalidArgument BadRequestId) else Inr ())"

definition parse_resource_name :: "string \<Rightarrow> ledger_error + string list" where
  "parse_resource_name n =
     (let parts = split_on (CHR ''/'') n in
      if length parts \<noteq> 6 \<or> parts ! 0 \<noteq> ''projects'' \<or> parts ! 2 \<noteq> ''repos'' \<or> parts ! 4 \<noteq> ''changes''
      then Inl (InvalidArgument BadName)
      else and_then (validate_segment ''project'' (parts ! 1)) (\<lambda>_.
        and_then (validate_segment ''repo'' (parts ! 3)) (\<lambda>_.
        and_then (validate_change_id (parts ! 5)) (\<lambda>_. Inr parts))))"

definition validate_resource_name :: "string \<Rightarrow> ledger_error + unit" where
  "validate_resource_name n = and_then (parse_resource_name n) (\<lambda>_. Inr ())"

definition scope :: "string \<Rightarrow> ledger_error + string \<times> string" where
  "scope n = and_then (parse_resource_name n) (\<lambda>parts. Inr (parts ! 1, parts ! 3))"

definition validate_scope :: "string \<Rightarrow> string \<Rightarrow> ledger_error + unit" where
  "validate_scope project repo =
     and_then (validate_segment ''project'' project) (\<lambda>_. validate_segment ''repo'' repo)"

definition change_name :: "string \<Rightarrow> string \<Rightarrow> string \<Rightarrow> string" where
  "change_name project repo change_id =
     ''projects/'' @ project @ ''/repos/'' @ repo @ ''/changes/'' @ change_id"

section \<open>Reading and creating\<close>

definition store_result :: "(change_store_error + 'a) \<times> 's \<Rightarrow> (ledger_error + 'a) \<times> 's" where
  "store_result x = (case x of (r, s) \<Rightarrow> (map_err LStore r, s))"

definition ledger_create ::
  "'s change_store \<Rightarrow> 's runtime \<Rightarrow> create_change \<Rightarrow> identity \<Rightarrow> 's
    \<Rightarrow> (ledger_error + change_record) \<times> 's" where
  "ledger_create st rt input identity s =
     and_then_st (validate_segment ''project'' (cc_project input)) s (\<lambda>_.
     and_then_st (validate_segment ''repo'' (cc_repo input)) s (\<lambda>_.
     and_then_st (validate_nonempty ''target_bookmark'' (cc_target_bookmark input)) s (\<lambda>_.
     and_then_st (validate_title (cc_title input)) s (\<lambda>_.
     and_then_st (normalize_external_references (cc_external_references input)) s (\<lambda>references.
     let change_id = (case cc_change_id input of Some i \<Rightarrow> i | None \<Rightarrow> rt_change_id rt) in
     and_then_st (validate_change_id change_id) s (\<lambda>_.
     and_then_st (now_unix_millis rt 0) s (\<lambda>now.
     store_result (cs_create st \<lparr>
       ch_name = change_name (cc_project input) (cc_repo input) change_id,
       ch_project = cc_project input, ch_repo = cc_repo input,
       ch_target_bookmark = cc_target_bookmark input, ch_base_revision = cc_base_revision input,
       ch_title = trim (cc_title input), ch_description = cc_description input,
       ch_external_references = references, ch_edits = cc_edits input,
       ch_created_by = change_actor_from identity, ch_status = Draft, ch_validation = None,
       ch_reviews = [], ch_apply_attempt = None, ch_apply_result = None, ch_etag = [],
       ch_create_time = now, ch_update_time = now\<rparr> s))))))))"

definition ledger_get :: "'s change_store \<Rightarrow> string \<Rightarrow> 's \<Rightarrow> ledger_error + change_record" where
  "ledger_get st n s =
     and_then (validate_resource_name n) (\<lambda>_.
     and_then (map_err LStore (cs_get st n s)) (ok_or (LStore (CsNotFound n))))"

definition get_at_etag :: "'s change_store \<Rightarrow> string \<Rightarrow> string \<Rightarrow> 's \<Rightarrow> ledger_error + change_record" where
  "get_at_etag st n expected s =
     (if expected = [] then Inl (InvalidArgument EtagEmpty)
      else and_then (ledger_get st n s) (\<lambda>r.
        if ch_etag r \<noteq> expected then Inl (LStore (CsEtagMismatch n expected (ch_etag r))) else Inr r))"

definition ledger_list ::
  "'s change_store \<Rightarrow> string \<Rightarrow> string \<Rightarrow> 's \<Rightarrow> ledger_error + change_record list" where
  "ledger_list st project repo s =
     and_then (validate_segment ''project'' project) (\<lambda>_.
     and_then (validate_segment ''repo'' repo) (\<lambda>_. map_err LStore (cs_list st project repo s)))"

section \<open>Drafts\<close>

text \<open>The fields an update changes; a patched target, base or edits drop the validation.\<close>

definition patch_fields :: "change_update \<Rightarrow> change_record \<Rightarrow> ledger_error + change_record" where
  "patch_fields patch r =
     (let invalidates = cu_target_bookmark patch \<noteq> None \<or> cu_base_revision patch \<noteq> None \<or> cu_edits patch \<noteq> None in
      and_then (try_some (cu_target_bookmark patch) (\<lambda>t r.
        and_then (validate_nonempty ''target_bookmark'' t) (\<lambda>_. Inr (r\<lparr>ch_target_bookmark := t\<rparr>))) r) (\<lambda>r.
      let r = if_some (cu_base_revision patch)
        (\<lambda>b r. r\<lparr>ch_base_revision := (if b \<noteq> [] then Some b else None)\<rparr>) r in
      and_then (try_some (cu_title patch) (\<lambda>t r.
        and_then (validate_title t) (\<lambda>_. Inr (r\<lparr>ch_title := trim t\<rparr>))) r) (\<lambda>r.
      let r = if_some (cu_description patch) (\<lambda>d r. r\<lparr>ch_description := d\<rparr>) r in
      and_then (try_some (cu_external_references patch) (\<lambda>refs r.
        and_then (normalize_external_references refs) (\<lambda>refs. Inr (r\<lparr>ch_external_references := refs\<rparr>))) r) (\<lambda>r.
      let r = if_some (cu_edits patch) (\<lambda>es r. r\<lparr>ch_edits := es\<rparr>) r in
      Inr (if invalidates then r\<lparr>ch_validation := None\<rparr> else r)))))"

definition ledger_update ::
  "'s change_store \<Rightarrow> 's runtime \<Rightarrow> string \<Rightarrow> string \<Rightarrow> change_update \<Rightarrow> 's
    \<Rightarrow> (ledger_error + change_record) \<times> 's" where
  "ledger_update st rt n expected patch s =
     (if expected = [] then (Inl (InvalidArgument EtagEmpty), s)
      else if change_update_is_empty patch then (Inl (InvalidArgument EmptyMask), s)
      else and_then_st (ledger_get st n s) s (\<lambda>r.
        and_then_st (require_status r Draft ''update'') s (\<lambda>_.
        and_then_st (patch_fields patch r) s (\<lambda>r.
        and_then_st (now_unix_millis rt 0) s (\<lambda>now.
        store_result (cs_replace st (rt_before_write rt 0) expected (r\<lparr>ch_update_time := now\<rparr>) s))))))"

definition record_validation ::
  "'s change_store \<Rightarrow> 's runtime \<Rightarrow> string \<Rightarrow> string \<Rightarrow> validation_result \<Rightarrow> 's
    \<Rightarrow> (ledger_error + change_record) \<times> 's" where
  "record_validation st rt n expected validation s =
     and_then_st (ledger_get st n s) s (\<lambda>r.
     and_then_st (require_status r Draft ''validate'') s (\<lambda>_.
     and_then_st (now_unix_millis rt 0) s (\<lambda>now.
     store_result (cs_replace st (rt_before_write rt 0) expected
       (r\<lparr>ch_validation := Some (validation\<lparr>vr_validated_at := now\<rparr>), ch_update_time := now\<rparr>) s))))"

definition mark_ready ::
  "'s change_store \<Rightarrow> 's runtime \<Rightarrow> string \<Rightarrow> string \<Rightarrow> 's \<Rightarrow> (ledger_error + change_record) \<times> 's" where
  "mark_ready st rt n expected s =
     and_then_st (ledger_get st n s) s (\<lambda>r.
     and_then_st (require_status r Draft ''mark ready'') s (\<lambda>_.
     if ch_edits r = [] then (Inl (FailedPrecondition NoteOnlyDraft), s)
     else and_then_st (ok_or (FailedPrecondition NotValidated) (ch_validation r)) s (\<lambda>validation.
     if \<not> vr_valid validation then (Inl (FailedPrecondition ValidationBlocking), s)
     else and_then_st (now_unix_millis rt 0) s (\<lambda>now.
     store_result (cs_replace st (rt_before_write rt 0) expected
       (r\<lparr>ch_status := Ready, ch_update_time := now\<rparr>) s)))))"

section \<open>Applying\<close>

datatype acquisition = Acquired change_record | Observed change_record | AlreadyApplied change_record

text \<open>\<open>checked_add\<close> on the lease, and the attempt a fresh acquisition records.\<close>

definition lease_end :: "int \<Rightarrow> int \<Rightarrow> ledger_error + int" where
  "lease_end now duration = ok_or (LRuntime TimestampOverflow) (i64_checked_add now duration)"

definition fresh_attempt :: "'s runtime \<Rightarrow> nat \<Rightarrow> string \<Rightarrow> identity \<Rightarrow> int \<Rightarrow> int \<Rightarrow> apply_attempt" where
  "fresh_attempt rt i request_id actor now expires = \<lparr>at_request_id = request_id,
     at_attempt_id = rt_attempt_id rt i, at_actor = change_actor_from actor,
     at_lease_owner = rt_lease_owner rt i, at_lease_expires_at = expires,
     at_start_time = now, at_update_time = now\<rparr>"

text \<open>
  One write of a retry loop: \<open>again\<close> is the next round, taken when the store reports that
  the ETag moved.
\<close>

definition replace_or_retry ::
  "(change_store_error + change_record) \<times> 's \<Rightarrow> (change_record \<Rightarrow> 'a)
    \<Rightarrow> ('s \<Rightarrow> (ledger_error + 'a) \<times> 's) \<Rightarrow> (ledger_error + 'a) \<times> 's" where
  "replace_or_retry res ok again = (case res of
       (Inr r, s) \<Rightarrow> (Inr (ok r), s)
     | (Inl e, s) \<Rightarrow> (case e of CsEtagMismatch _ _ _ \<Rightarrow> again s | _ \<Rightarrow> (Inl (LStore e), s)))"

definition acquire_ready ::
  "'s change_store \<Rightarrow> 's runtime \<Rightarrow> nat \<Rightarrow> string \<Rightarrow> string \<Rightarrow> string \<Rightarrow> identity \<Rightarrow> int \<Rightarrow> change_record
    \<Rightarrow> 's \<Rightarrow> ('s \<Rightarrow> (ledger_error + acquisition) \<times> 's) \<Rightarrow> (ledger_error + acquisition) \<times> 's" where
  "acquire_ready st rt i n expected request_id actor duration r s again =
     (if ch_etag r \<noteq> expected then (Inl (LStore (CsEtagMismatch n expected (ch_etag r))), s)
      else if \<not> (case ch_validation r of Some v \<Rightarrow> vr_valid v | None \<Rightarrow> False)
      then (Inl (FailedPrecondition NotPassing), s)
      else and_then_st (now_unix_millis rt i) s (\<lambda>now.
        and_then_st (lease_end now duration) s (\<lambda>expires.
        replace_or_retry
          (cs_replace st (rt_before_write rt i) expected
            (r\<lparr>ch_status := Applying,
               ch_apply_attempt := Some (fresh_attempt rt i request_id actor now expires),
               ch_update_time := now\<rparr>) s)
          Acquired again)))"

definition acquire_applying ::
  "'s change_store \<Rightarrow> 's runtime \<Rightarrow> nat \<Rightarrow> string \<Rightarrow> int \<Rightarrow> change_record
    \<Rightarrow> 's \<Rightarrow> ('s \<Rightarrow> (ledger_error + acquisition) \<times> 's) \<Rightarrow> (ledger_error + acquisition) \<times> 's" where
  "acquire_applying st rt i request_id duration r s again =
     and_then_st (now_unix_millis rt i) s (\<lambda>now.
     and_then_st (ok_or (FailedPrecondition ApplyingNoAttempt) (ch_apply_attempt r)) s (\<lambda>a.
     if at_request_id a \<noteq> request_id then (Inl (FailedPrecondition OtherRequestApplying), s)
     else if at_lease_expires_at a > now then (Inr (Observed r), s)
     else and_then_st (lease_end now duration) s (\<lambda>expires.
       replace_or_retry
         (cs_replace st (rt_before_write rt i) (ch_etag r)
           (r\<lparr>ch_apply_attempt := Some (a\<lparr>at_lease_owner := rt_lease_owner rt i,
                at_lease_expires_at := expires, at_update_time := now\<rparr>),
              ch_update_time := now\<rparr>) s)
         Acquired again)))"

fun acquire_rounds ::
  "'s change_store \<Rightarrow> 's runtime \<Rightarrow> string \<Rightarrow> string \<Rightarrow> string \<Rightarrow> identity \<Rightarrow> int
    \<Rightarrow> nat \<Rightarrow> nat \<Rightarrow> 's \<Rightarrow> (ledger_error + acquisition) \<times> 's" where
  "acquire_rounds st rt n expected request_id actor duration i 0 s =
     (Inl (FailedPrecondition AcquireRetry), s)"
| "acquire_rounds st rt n expected request_id actor duration i (Suc left) s0 =
     (let s = rt_before_read rt i s0;
          again = acquire_rounds st rt n expected request_id actor duration (i + 1) left in
      and_then_st (ledger_get st n s) s (\<lambda>r.
      case ch_status r of
        Applied \<Rightarrow>
          and_then_st (ok_or (FailedPrecondition AppliedNoAttempt) (ch_apply_attempt r)) s (\<lambda>a.
          if at_request_id a = request_id then (Inr (AlreadyApplied r), s)
          else (Inl (FailedPrecondition AppliedByOther), s))
      | Ready \<Rightarrow> acquire_ready st rt i n expected request_id actor duration r s again
      | Applying \<Rightarrow> acquire_applying st rt i request_id duration r s again
      | status \<Rightarrow> (Inl (FailedPrecondition (CannotApply status)), s)))"

definition acquire_apply ::
  "'s change_store \<Rightarrow> 's runtime \<Rightarrow> string \<Rightarrow> string \<Rightarrow> string \<Rightarrow> identity \<Rightarrow> int \<Rightarrow> 's
    \<Rightarrow> (ledger_error + acquisition) \<times> 's" where
  "acquire_apply st rt n expected request_id actor duration s =
     and_then_st (validate_request_id request_id) s (\<lambda>_.
     if expected = [] then (Inl (InvalidArgument EtagEmpty), s)
     else if duration \<le> 0 then (Inl (InvalidArgument LeaseNotPositive), s)
     else acquire_rounds st rt n expected request_id actor duration 0 4 s)"

fun complete_rounds ::
  "'s change_store \<Rightarrow> 's runtime \<Rightarrow> string \<Rightarrow> string \<Rightarrow> string \<Rightarrow> apply_result
    \<Rightarrow> nat \<Rightarrow> nat \<Rightarrow> 's \<Rightarrow> (ledger_error + change_record) \<times> 's" where
  "complete_rounds st rt n request_id attempt_id result i 0 s =
     (Inl (FailedPrecondition CompleteRetry), s)"
| "complete_rounds st rt n request_id attempt_id result i (Suc left) s0 =
     (let s = rt_before_read rt i s0 in
      and_then_st (ledger_get st n s) s (\<lambda>r.
      if ch_status r = Applied then
        (if (case ch_apply_attempt r of Some a \<Rightarrow> at_request_id a = request_id | None \<Rightarrow> False)
         then (Inr r, s) else (Inl (FailedPrecondition AppliedByOther), s))
      else and_then_st (require_status r Applying ''complete apply'') s (\<lambda>_.
        and_then_st (ok_or (FailedPrecondition ApplyingNoAttempt) (ch_apply_attempt r)) s (\<lambda>a.
        if at_request_id a \<noteq> request_id \<or> at_attempt_id a \<noteq> attempt_id
        then (Inl (FailedPrecondition CorrelationMismatch), s)
        else if ar_commit_id result = [] \<or> ar_change_id result = [] \<or> ar_operation_id result = []
        then (Inl (InvalidArgument ResultIncomplete), s)
        else and_then_st (now_unix_millis rt i) s (\<lambda>now.
          replace_or_retry
            (cs_replace st (rt_before_write rt i) (ch_etag r)
              (r\<lparr>ch_apply_attempt := Some (a\<lparr>at_update_time := now\<rparr>), ch_status := Applied,
                 ch_apply_result := Some result, ch_update_time := now\<rparr>) s)
            id (complete_rounds st rt n request_id attempt_id result (i + 1) left))))))"

definition complete_apply ::
  "'s change_store \<Rightarrow> 's runtime \<Rightarrow> string \<Rightarrow> string \<Rightarrow> string \<Rightarrow> apply_result \<Rightarrow> 's
    \<Rightarrow> (ledger_error + change_record) \<times> 's" where
  "complete_apply st rt n request_id attempt_id result s =
     complete_rounds st rt n request_id attempt_id result 0 4 s"

fun release_rounds ::
  "'s change_store \<Rightarrow> 's runtime \<Rightarrow> string \<Rightarrow> string \<Rightarrow> string \<Rightarrow> string
    \<Rightarrow> nat \<Rightarrow> nat \<Rightarrow> 's \<Rightarrow> (ledger_error + change_record) \<times> 's" where
  "release_rounds st rt n request_id attempt_id lease_owner i 0 s =
     (Inl (FailedPrecondition ReleaseRetry), s)"
| "release_rounds st rt n request_id attempt_id lease_owner i (Suc left) s0 =
     (let s = rt_before_read rt i s0 in
      and_then_st (ledger_get st n s) s (\<lambda>r.
      and_then_st (require_status r Applying ''release apply'') s (\<lambda>_.
      and_then_st (ok_or (FailedPrecondition ApplyingNoAttempt) (ch_apply_attempt r)) s (\<lambda>a.
      if at_request_id a \<noteq> request_id \<or> at_attempt_id a \<noteq> attempt_id \<or> at_lease_owner a \<noteq> lease_owner
      then (Inl (FailedPrecondition ReleaseMismatch), s)
      else and_then_st (now_unix_millis rt i) s (\<lambda>now.
        replace_or_retry
          (cs_replace st (rt_before_write rt i) (ch_etag r)
            (r\<lparr>ch_status := Ready, ch_apply_attempt := None, ch_update_time := now\<rparr>) s)
          id (release_rounds st rt n request_id attempt_id lease_owner (i + 1) left))))))"

definition release_apply ::
  "'s change_store \<Rightarrow> 's runtime \<Rightarrow> string \<Rightarrow> string \<Rightarrow> string \<Rightarrow> string \<Rightarrow> 's
    \<Rightarrow> (ledger_error + change_record) \<times> 's" where
  "release_apply st rt n request_id attempt_id lease_owner s =
     release_rounds st rt n request_id attempt_id lease_owner 0 4 s"

section \<open>Reviewing and abandoning\<close>

definition review ::
  "'s change_store \<Rightarrow> 's runtime \<Rightarrow> string \<Rightarrow> string \<Rightarrow> identity \<Rightarrow> review_decision \<Rightarrow> string \<Rightarrow> 's
    \<Rightarrow> (ledger_error + change_record) \<times> 's" where
  "review st rt n expected reviewer decision reason s =
     and_then_st (ledger_get st n s) s (\<lambda>r.
     and_then_st (require_status r Ready ''review'') s (\<lambda>_.
     let actor = change_actor_from reviewer in
     if ac_identity (ch_created_by r) = ac_identity actor then (Inl (FailedPrecondition AuthorReview), s)
     else if list_ex (\<lambda>v. ac_identity (rv_reviewer v) = ac_identity actor) (ch_reviews r)
     then (Inl (FailedPrecondition (AlreadyReviewed (ac_identity actor))), s)
     else and_then_st (now_unix_millis rt 0) s (\<lambda>now.
       let v = \<lparr>rv_reviewer = actor, rv_decision = decision, rv_reason = reason, rv_create_time = now\<rparr>;
           r1 = r\<lparr>ch_reviews := ch_reviews r @ [v]\<rparr>;
           r2 = (if decision = RvRejected then r1\<lparr>ch_status := Rejected\<rparr> else r1)
       in store_result (cs_replace st (rt_before_write rt 0) expected (r2\<lparr>ch_update_time := now\<rparr>) s))))"

definition approve ::
  "'s change_store \<Rightarrow> 's runtime \<Rightarrow> string \<Rightarrow> string \<Rightarrow> identity \<Rightarrow> string \<Rightarrow> 's
    \<Rightarrow> (ledger_error + change_record) \<times> 's" where
  "approve st rt n expected reviewer reason s = review st rt n expected reviewer RvApproved reason s"

definition reject ::
  "'s change_store \<Rightarrow> 's runtime \<Rightarrow> string \<Rightarrow> string \<Rightarrow> identity \<Rightarrow> string \<Rightarrow> 's
    \<Rightarrow> (ledger_error + change_record) \<times> 's" where
  "reject st rt n expected reviewer reason s =
     (if trim reason = [] then (Inl (InvalidArgument EmptyRejection), s)
      else review st rt n expected reviewer RvRejected reason s)"

definition abandon ::
  "'s change_store \<Rightarrow> 's runtime \<Rightarrow> string \<Rightarrow> string \<Rightarrow> 's \<Rightarrow> (ledger_error + change_record) \<times> 's" where
  "abandon st rt n expected s =
     and_then_st (ledger_get st n s) s (\<lambda>r.
     if ch_status r \<noteq> Draft \<and> ch_status r \<noteq> Ready
     then (Inl (FailedPrecondition (CannotAbandon (ch_status r))), s)
     else and_then_st (now_unix_millis rt 0) s (\<lambda>now.
       store_result (cs_replace st (rt_before_write rt 0) expected
         (r\<lparr>ch_status := Abandoned, ch_update_time := now\<rparr>) s)))"

end
