(* ===== verification/Change_Lifecycle.thy ===== *)
theory Change_Lifecycle
  imports Change_Ledger
begin

text \<open>
  What the ledger promises, and that it keeps it.  \<open>change_step\<close> is the lifecycle as a
  relation between a record and its successor; \<open>ledger_step\<close> lifts it to the table of
  records.  Every operation of the ledger, over any versioned store and with other
  processes taking ledger steps at any point in between, is a sequence of such steps; the
  record invariant and the immutability of terminal records follow for everything that
  is reachable.
\<close>

section \<open>The lifecycle\<close>

definition title_ok :: "string \<Rightarrow> bool" where
  "title_ok t \<longleftrightarrow> t \<noteq> [] \<and> chars_count t \<le> 200"

definition refs_ok :: "string list \<Rightarrow> bool" where
  "refs_ok rs \<longleftrightarrow> length rs \<le> 32 \<and> distinct rs
     \<and> (\<forall>r \<in> set rs. r \<noteq> [] \<and> length r \<le> 2048 \<and> \<not> has_control r)"

definition validated :: "change_record \<Rightarrow> bool" where
  "validated r \<longleftrightarrow> (\<exists>v. ch_validation r = Some v \<and> vr_valid v)"

definition fresh_reviewer :: "change_record \<Rightarrow> change_review \<Rightarrow> bool" where
  "fresh_reviewer r v \<longleftrightarrow> ac_identity (rv_reviewer v) \<noteq> ac_identity (ch_created_by r)
     \<and> ac_identity (rv_reviewer v) \<notin> (ac_identity \<circ> rv_reviewer) ` set (ch_reviews r)"

inductive change_step :: "change_record \<Rightarrow> change_record \<Rightarrow> bool" where
  st_update: "ch_status c = Draft \<Longrightarrow>
    target = ch_target_bookmark c \<or> trim target \<noteq> [] \<Longrightarrow>
    title = ch_title c \<or> title_ok title \<Longrightarrow>
    refs = ch_external_references c \<or> refs_ok refs \<Longrightarrow>
    v = None \<or> v = ch_validation c \<and> target = ch_target_bookmark c
      \<and> base = ch_base_revision c \<and> edits = ch_edits c \<Longrightarrow>
    change_step c (c\<lparr>ch_target_bookmark := target, ch_base_revision := base, ch_title := title,
      ch_description := descr, ch_external_references := refs, ch_edits := edits,
      ch_validation := v, ch_update_time := now, ch_etag := e\<rparr>)"
| st_validate: "ch_status c = Draft \<Longrightarrow>
    change_step c (c\<lparr>ch_validation := Some v, ch_update_time := now, ch_etag := e\<rparr>)"
| st_ready: "ch_status c = Draft \<Longrightarrow> ch_edits c \<noteq> [] \<Longrightarrow> validated c \<Longrightarrow>
    change_step c (c\<lparr>ch_status := Ready, ch_update_time := now, ch_etag := e\<rparr>)"
| st_acquire: "ch_status c = Ready \<Longrightarrow> validated c \<Longrightarrow> now < at_lease_expires_at a \<Longrightarrow>
    change_step c (c\<lparr>ch_status := Applying, ch_apply_attempt := Some a,
      ch_update_time := now, ch_etag := e\<rparr>)"
| st_reacquire: "ch_status c = Applying \<Longrightarrow> ch_apply_attempt c = Some a \<Longrightarrow>
    at_lease_expires_at a \<le> now \<Longrightarrow> now < expires \<Longrightarrow>
    change_step c (c\<lparr>ch_apply_attempt := Some (a\<lparr>at_lease_owner := lo,
      at_lease_expires_at := expires, at_update_time := now\<rparr>), ch_update_time := now, ch_etag := e\<rparr>)"
| st_complete: "ch_status c = Applying \<Longrightarrow> ch_apply_attempt c = Some a \<Longrightarrow>
    ar_commit_id res \<noteq> [] \<Longrightarrow> ar_change_id res \<noteq> [] \<Longrightarrow> ar_operation_id res \<noteq> [] \<Longrightarrow>
    change_step c (c\<lparr>ch_apply_attempt := Some (a\<lparr>at_update_time := now\<rparr>), ch_status := Applied,
      ch_apply_result := Some res, ch_update_time := now, ch_etag := e\<rparr>)"
| st_release: "ch_status c = Applying \<Longrightarrow> ch_apply_attempt c = Some a \<Longrightarrow>
    change_step c (c\<lparr>ch_status := Ready, ch_apply_attempt := None, ch_update_time := now, ch_etag := e\<rparr>)"
| st_approve: "ch_status c = Ready \<Longrightarrow> fresh_reviewer c w \<Longrightarrow> rv_decision w = RvApproved \<Longrightarrow>
    change_step c (c\<lparr>ch_reviews := ch_reviews c @ [w], ch_update_time := now, ch_etag := e\<rparr>)"
| st_reject: "ch_status c = Ready \<Longrightarrow> fresh_reviewer c w \<Longrightarrow> rv_decision w = RvRejected \<Longrightarrow>
    trim (rv_reason w) \<noteq> [] \<Longrightarrow>
    change_step c (c\<lparr>ch_reviews := ch_reviews c @ [w], ch_status := Rejected,
      ch_update_time := now, ch_etag := e\<rparr>)"
| st_abandon: "ch_status c = Draft \<or> ch_status c = Ready \<Longrightarrow>
    change_step c (c\<lparr>ch_status := Abandoned, ch_update_time := now, ch_etag := e\<rparr>)"

definition name_ok :: "change_record \<Rightarrow> bool" where
  "name_ok r \<longleftrightarrow> (\<exists>i. ch_name r = change_name (ch_project r) (ch_repo r) i
     \<and> validate_scope (ch_project r) (ch_repo r) = Inr () \<and> validate_change_id i = Inr ())"

definition initial_record :: "change_record \<Rightarrow> bool" where
  "initial_record r \<longleftrightarrow> name_ok r \<and> trim (ch_target_bookmark r) \<noteq> [] \<and> title_ok (ch_title r)
     \<and> refs_ok (ch_external_references r) \<and> ch_status r = Draft \<and> ch_validation r = None
     \<and> ch_reviews r = [] \<and> ch_apply_attempt r = None \<and> ch_apply_result r = None"

abbreviation ledger_step :: "(string \<rightharpoonup> change_record) \<Rightarrow> (string \<rightharpoonup> change_record) \<Rightarrow> bool" where
  "ledger_step \<equiv> versioned_step ch_name ch_etag initial_record change_step"

section \<open>The record invariant\<close>

definition record_inv :: "change_record \<Rightarrow> bool" where
  "record_inv r \<longleftrightarrow>
     name_ok r \<and> trim (ch_target_bookmark r) \<noteq> [] \<and> title_ok (ch_title r)
     \<and> refs_ok (ch_external_references r)
     \<and> (ch_status r \<in> {Ready, Applying, Applied} \<longrightarrow> ch_edits r \<noteq> [] \<and> validated r)
     \<and> (ch_status r = Draft \<longrightarrow> ch_reviews r = [])
     \<and> (ch_apply_attempt r \<noteq> None \<longleftrightarrow> ch_status r \<in> {Applying, Applied})
     \<and> (case ch_apply_result r of None \<Rightarrow> ch_status r \<noteq> Applied
        | Some res \<Rightarrow> ch_status r = Applied \<and> ar_commit_id res \<noteq> [] \<and> ar_change_id res \<noteq> []
            \<and> ar_operation_id res \<noteq> [])
     \<and> distinct (map (ac_identity \<circ> rv_reviewer) (ch_reviews r))
     \<and> ac_identity (ch_created_by r) \<notin> (ac_identity \<circ> rv_reviewer) ` set (ch_reviews r)
     \<and> (ch_status r = Rejected \<longleftrightarrow> RvRejected \<in> rv_decision ` set (ch_reviews r))"

lemma initial_record_inv: "initial_record r \<Longrightarrow> record_inv r"
  by (simp add: initial_record_def record_inv_def)

text \<open>Fields no transition touches.\<close>

definition same_identity :: "change_record \<Rightarrow> change_record \<Rightarrow> bool" where
  "same_identity c d \<longleftrightarrow> ch_name d = ch_name c \<and> ch_project d = ch_project c \<and> ch_repo d = ch_repo c
     \<and> ch_created_by d = ch_created_by c \<and> ch_create_time d = ch_create_time c"

lemma change_step_same_identity: "change_step c d \<Longrightarrow> same_identity c d"
  by (induction rule: change_step.induct) (simp_all add: same_identity_def)

lemma change_step_record_inv: "change_step c d \<Longrightarrow> record_inv c \<Longrightarrow> record_inv d"
  by (induction rule: change_step.induct)
    (auto simp: record_inv_def name_ok_def validated_def fresh_reviewer_def split: option.splits)

lemma change_step_not_terminal: "change_step c d \<Longrightarrow> \<not> is_terminal (ch_status c)"
  by (induction rule: change_step.induct) (auto simp: is_terminal_def)

text \<open>The edges of the lifecycle.\<close>

fun status_edge :: "change_status \<Rightarrow> change_status \<Rightarrow> bool" where
  "status_edge Draft s = (s \<in> {Draft, Ready, Abandoned})"
| "status_edge Ready s = (s \<in> {Ready, Applying, Rejected, Abandoned})"
| "status_edge Applying s = (s \<in> {Applying, Applied, Ready})"
| "status_edge _ s = False"

lemma change_step_edge: "change_step c d \<Longrightarrow> status_edge (ch_status c) (ch_status d)"
  by (induction rule: change_step.induct) auto

text \<open>Once a record left Draft, what is to be applied and its validation are fixed.\<close>

definition same_plan :: "change_record \<Rightarrow> change_record \<Rightarrow> bool" where
  "same_plan c d \<longleftrightarrow> ch_status d \<noteq> Draft \<and> ch_edits d = ch_edits c \<and> ch_validation d = ch_validation c
     \<and> ch_target_bookmark d = ch_target_bookmark c \<and> ch_base_revision d = ch_base_revision c"

lemma change_step_same_plan: "change_step c d \<Longrightarrow> ch_status c \<noteq> Draft \<Longrightarrow> same_plan c d"
  by (induction rule: change_step.induct) (auto simp: same_plan_def)

section \<open>What the argument checks establish\<close>

lemma validate_title_ok: "validate_title t = Inr u \<Longrightarrow> title_ok (trim t)"
  using chars_count_trim [of t]
  by (auto simp: validate_title_def validate_nonempty_def title_ok_def split: if_splits)

lemma normalize_loop_ok:
  "normalize_loop unique refs = Inr rs \<Longrightarrow>
    rs = map trim refs \<and> distinct rs \<and> set rs \<inter> set unique = {}
    \<and> (\<forall>r \<in> set rs. r \<noteq> [] \<and> length r \<le> 2048 \<and> \<not> has_control r)"
proof (induction refs arbitrary: unique rs)
  case (Cons x refs)
  let ?r = "trim x"
  obtain rs' where rs': "normalize_loop (?r # unique) refs = Inr rs'" "rs = ?r # rs'"
    and r: "?r \<noteq> []" "length ?r \<le> 2048" "\<not> has_control ?r" "?r \<notin> set unique"
    using Cons.prems by (auto simp: Let_def and_then_Inr split: if_splits)
  note IH = Cons.IH [OF rs'(1)]
  have "set rs' \<inter> set (?r # unique) = {}" using IH by blast
  then have "?r \<notin> set rs'" "set rs' \<inter> set unique = {}" by auto
  then show ?case using IH rs'(2) r by auto
qed simp

lemma normalize_refs_ok: "normalize_external_references refs = Inr rs \<Longrightarrow> refs_ok rs"
  by (auto simp: normalize_external_references_def refs_ok_def dest: normalize_loop_ok split: if_splits)

lemma require_status_Inr [simp]: "require_status r x op = Inr u \<longleftrightarrow> ch_status r = x"
  by (simp add: require_status_def ensure_def)

lemma now_unix_millis_Inr [simp]: "now_unix_millis rt i = Inr now \<longleftrightarrow> rt_now rt i = Inr now"
  by (simp add: now_unix_millis_def map_err_Inr)

lemma lease_end_Inr: "lease_end now d = Inr x \<Longrightarrow> 0 < d \<Longrightarrow> now < x"
  by (auto simp: lease_end_def ok_or_Inr i64_checked_add_def split: if_splits)

definition patching :: "change_update \<Rightarrow> change_record \<Rightarrow> change_record \<Rightarrow> bool" where
  "patching patch r r' \<longleftrightarrow>
     ch_name r' = ch_name r \<and> ch_project r' = ch_project r \<and> ch_repo r' = ch_repo r
     \<and> ch_created_by r' = ch_created_by r \<and> ch_status r' = ch_status r \<and> ch_validation r' = ch_validation r
     \<and> ch_reviews r' = ch_reviews r \<and> ch_apply_attempt r' = ch_apply_attempt r
     \<and> ch_apply_result r' = ch_apply_result r \<and> ch_etag r' = ch_etag r
     \<and> ch_create_time r' = ch_create_time r \<and> ch_update_time r' = ch_update_time r
     \<and> (ch_target_bookmark r' = ch_target_bookmark r \<or> trim (ch_target_bookmark r') \<noteq> [])
     \<and> (ch_title r' = ch_title r \<or> title_ok (ch_title r'))
     \<and> (ch_external_references r' = ch_external_references r \<or> refs_ok (ch_external_references r'))
     \<and> (cu_target_bookmark patch = None \<longrightarrow> ch_target_bookmark r' = ch_target_bookmark r)
     \<and> (cu_base_revision patch = None \<longrightarrow> ch_base_revision r' = ch_base_revision r)
     \<and> (cu_edits patch = None \<longrightarrow> ch_edits r' = ch_edits r)"

lemma patching_refl: "patching patch r r"
  by (simp add: patching_def)

lemma patching_steps:
  assumes "patching patch r r'"
  shows "cu_target_bookmark patch = Some t \<Longrightarrow> trim t \<noteq> [] \<Longrightarrow> patching patch r (r'\<lparr>ch_target_bookmark := t\<rparr>)"
    and "cu_base_revision patch = Some b \<Longrightarrow> patching patch r (r'\<lparr>ch_base_revision := bo\<rparr>)"
    and "title_ok t \<Longrightarrow> patching patch r (r'\<lparr>ch_title := t\<rparr>)"
    and "patching patch r (r'\<lparr>ch_description := d\<rparr>)"
    and "refs_ok rs \<Longrightarrow> patching patch r (r'\<lparr>ch_external_references := rs\<rparr>)"
    and "cu_edits patch = Some es \<Longrightarrow> patching patch r (r'\<lparr>ch_edits := es\<rparr>)"
  using assms by (simp_all add: patching_def)

lemma patching_eq:
  "patching patch r r' \<Longrightarrow>
    r' = r\<lparr>ch_target_bookmark := ch_target_bookmark r', ch_base_revision := ch_base_revision r',
       ch_title := ch_title r', ch_description := ch_description r',
       ch_external_references := ch_external_references r', ch_edits := ch_edits r'\<rparr>"
  by (rule change_record.equality) (simp_all add: patching_def)

lemma patch_fields_Inr:
  assumes "patch_fields patch r = Inr r'"
  shows "\<exists>r6. patching patch r r6 \<and> r' = (if cu_target_bookmark patch \<noteq> None \<or> cu_base_revision patch \<noteq> None
    \<or> cu_edits patch \<noteq> None then r6\<lparr>ch_validation := None\<rparr> else r6)"
proof -
  let ?b = "if_some (cu_base_revision patch) (\<lambda>b r. r\<lparr>ch_base_revision := (if b \<noteq> [] then Some b else None)\<rparr>)"
  let ?d = "if_some (cu_description patch) (\<lambda>d r. r\<lparr>ch_description := d\<rparr>)"
  let ?e = "if_some (cu_edits patch) (\<lambda>es r. r\<lparr>ch_edits := es\<rparr>)"
  obtain r1 r3 r5 where r1: "try_some (cu_target_bookmark patch) (\<lambda>t r.
        and_then (validate_nonempty ''target_bookmark'' t) (\<lambda>_. Inr (r\<lparr>ch_target_bookmark := t\<rparr>))) r = Inr r1"
    and r3: "try_some (cu_title patch) (\<lambda>t r.
        and_then (validate_title t) (\<lambda>_. Inr (r\<lparr>ch_title := trim t\<rparr>))) (?b r1) = Inr r3"
    and r5: "try_some (cu_external_references patch) (\<lambda>refs r. and_then (normalize_external_references refs)
        (\<lambda>refs. Inr (r\<lparr>ch_external_references := refs\<rparr>))) (?d r3) = Inr r5"
    and r': "r' = (if cu_target_bookmark patch \<noteq> None \<or> cu_base_revision patch \<noteq> None
      \<or> cu_edits patch \<noteq> None then (?e r5)\<lparr>ch_validation := None\<rparr> else ?e r5)"
    using assms by (auto simp: patch_fields_def Let_def and_then_Inr)
  have "patching patch r r1"
    by (rule try_some_keeps [OF r1]) (auto simp: patching_refl and_then_Inr validate_nonempty_def
        intro: patching_steps(1) split: if_splits)
  then have "patching patch r (?b r1)"
    by (auto intro: if_some_keeps patching_steps(2))
  then have "patching patch r r3"
    by (rule try_some_keeps [OF r3]) (auto simp: and_then_Inr \<open>patching patch r (?b r1)\<close>
        intro: patching_steps(3) validate_title_ok)
  then have *: "patching patch r (?d r3)"
    by (auto intro: if_some_keeps patching_steps(4))
  then have "patching patch r r5"
    by (rule try_some_keeps [OF r5]) (auto simp: and_then_Inr * intro: patching_steps(5) normalize_refs_ok)
  then have "patching patch r (?e r5)"
    by (auto intro: if_some_keeps patching_steps(6))
  then show ?thesis using r' by blast
qed

lemma patch_fields_step:
  assumes "patch_fields patch r = Inr r'" and "ch_status r = Draft"
  shows "change_step r (set_etag e (r'\<lparr>ch_update_time := now\<rparr>))" and "ch_name r' = ch_name r"
proof -
  obtain r6 where r6: "patching patch r r6"
    and r': "r' = (if cu_target_bookmark patch \<noteq> None \<or> cu_base_revision patch \<noteq> None
      \<or> cu_edits patch \<noteq> None then r6\<lparr>ch_validation := None\<rparr> else r6)"
    using patch_fields_Inr [OF assms(1)] by blast
  let ?v = "ch_validation r'"
  have v: "?v = None \<or> ?v = ch_validation r \<and> ch_target_bookmark r6 = ch_target_bookmark r
      \<and> ch_base_revision r6 = ch_base_revision r \<and> ch_edits r6 = ch_edits r"
    using r6 r' by (simp add: patching_def)
  have "r' = r6\<lparr>ch_validation := ?v\<rparr>" using r' by simp
  then have eq: "set_etag e (r'\<lparr>ch_update_time := now\<rparr>) = r\<lparr>ch_target_bookmark := ch_target_bookmark r6,
      ch_base_revision := ch_base_revision r6, ch_title := ch_title r6, ch_description := ch_description r6,
      ch_external_references := ch_external_references r6, ch_edits := ch_edits r6,
      ch_validation := ?v, ch_update_time := now, ch_etag := e\<rparr>"
    using patching_eq [OF r6] unfolding set_etag_def by (metis change_record.fold_congs)
  show "change_step r (set_etag e (r'\<lparr>ch_update_time := now\<rparr>))"
    unfolding eq using assms(2) v r6 by (intro st_update) (auto simp: patching_def)
  show "ch_name r' = ch_name r" using r' r6 by (simp add: patching_def)
qed

section \<open>Calls\<close>

text \<open>
  One call of the ledger's interface; the read-only operations are left out.  An
  acquisition answers with the record it carries.
\<close>

datatype ledger_call =
    CallCreate create_change identity
  | CallUpdate string string change_update
  | CallValidate string string validation_result
  | CallReady string string
  | CallAcquire string string string identity int
  | CallComplete string string string apply_result
  | CallRelease string string string string
  | CallApprove string string identity string
  | CallReject string string identity string
  | CallAbandon string string

fun acquisition_record :: "acquisition \<Rightarrow> change_record" where
  "acquisition_record (Acquired r) = r"
| "acquisition_record (Observed r) = r"
| "acquisition_record (AlreadyApplied r) = r"

fun ledger_exec ::
  "'s change_store \<Rightarrow> 's runtime \<Rightarrow> ledger_call \<Rightarrow> 's \<Rightarrow> (ledger_error + change_record) \<times> 's" where
  "ledger_exec st rt (CallCreate input identity) s = ledger_create st rt input identity s"
| "ledger_exec st rt (CallUpdate n e patch) s = ledger_update st rt n e patch s"
| "ledger_exec st rt (CallValidate n e v) s = record_validation st rt n e v s"
| "ledger_exec st rt (CallReady n e) s = mark_ready st rt n e s"
| "ledger_exec st rt (CallAcquire n e q actor d) s =
     (case acquire_apply st rt n e q actor d s of
        (Inr a, t) \<Rightarrow> (Inr (acquisition_record a), t) | (Inl x, t) \<Rightarrow> (Inl x, t))"
| "ledger_exec st rt (CallComplete n q a res) s = complete_apply st rt n q a res s"
| "ledger_exec st rt (CallRelease n q a lo) s = release_apply st rt n q a lo s"
| "ledger_exec st rt (CallApprove n e who why) s = approve st rt n e who why s"
| "ledger_exec st rt (CallReject n e who why) s = reject st rt n e who why s"
| "ledger_exec st rt (CallAbandon n e) s = abandon st rt n e s"

text \<open>The record and the ETag a single-shot call names.\<close>

fun named_etag :: "ledger_call \<Rightarrow> (string \<times> string) option" where
  "named_etag (CallUpdate n e patch) = Some (n, e)"
| "named_etag (CallValidate n e v) = Some (n, e)"
| "named_etag (CallReady n e) = Some (n, e)"
| "named_etag (CallApprove n e who why) = Some (n, e)"
| "named_etag (CallReject n e who why) = Some (n, e)"
| "named_etag (CallAbandon n e) = Some (n, e)"
| "named_etag _ = None"

text \<open>The ETag a caller names was handed out before the call reads the record.\<close>

definition etag_issued :: "ledger_call \<Rightarrow> (string \<rightharpoonup> change_record) \<Rightarrow> bool" where
  "etag_issued call m \<longleftrightarrow>
     (\<forall>n e c. named_etag call = Some (n, e) \<longrightarrow> m n = Some c \<longrightarrow> issued_by e (ch_etag c))"

section \<open>Every operation takes steps of the lifecycle\<close>

text \<open>Records stored under their names, with versions below the wrap-around.\<close>

definition table_ok :: "(string \<rightharpoonup> change_record) \<Rightarrow> bool" where
  "table_ok m \<longleftrightarrow> (\<forall>n c. m n = Some c \<longrightarrow> ch_name c = n \<and> below_wrap (ch_etag c))"

definition env_ok :: "('s \<Rightarrow> string \<rightharpoonup> change_record) \<Rightarrow> ('s \<Rightarrow> bool) \<Rightarrow> ('s \<Rightarrow> 's) \<Rightarrow> bool" where
  "env_ok view ok env \<longleftrightarrow> (\<forall>s. ok s \<longrightarrow> table_ok (view s) \<longrightarrow>
     ok (env s) \<and> table_ok (view (env s)) \<and> ledger_step\<^sup>*\<^sup>* (view s) (view (env s)))"

definition rely :: "('s \<Rightarrow> string \<rightharpoonup> change_record) \<Rightarrow> ('s \<Rightarrow> bool) \<Rightarrow> 's runtime \<Rightarrow> bool" where
  "rely view ok rt \<longleftrightarrow>
     (\<forall>i. env_ok view ok (rt_before_read rt i) \<and> env_ok view ok (rt_before_write rt i))"

text \<open>
  Who gets the lease: the table right before the winning write held the record Ready at
  the caller's ETag, or Applying for the same request with a lease that had run out.
\<close>

definition lease_won ::
  "('s \<Rightarrow> string \<rightharpoonup> change_record) \<Rightarrow> 's runtime \<Rightarrow> string \<Rightarrow> string \<Rightarrow> string \<Rightarrow> change_record \<Rightarrow> 's \<Rightarrow> bool" where
  "lease_won view rt n e q r t \<longleftrightarrow> (\<exists>j c m now a.
     m n = Some c \<and> rt_now rt j = Inr now \<and> ledger_step m (view t)
     \<and> (ch_status c = Ready \<and> ch_etag c = e \<and> validated c
        \<or> ch_status c = Applying \<and> (\<exists>b. ch_apply_attempt c = Some b \<and> at_request_id b = q
            \<and> at_lease_expires_at b \<le> now))
     \<and> view t n = Some r \<and> ch_status r = Applying \<and> ch_apply_attempt r = Some a
     \<and> at_request_id a = q \<and> at_lease_owner a = rt_lease_owner rt j \<and> now < at_lease_expires_at a)"

locale change_ledger =
  versioned_store ch_name ch_etag set_etag "cs_get st" "cs_replace st" view ok "cs_create st"
  for st :: "'s change_store" and view :: "'s \<Rightarrow> string \<rightharpoonup> change_record" and ok :: "'s \<Rightarrow> bool"
begin

text \<open>What a call may do to the store: take steps, and leave in place the record it returns.\<close>

definition guarantee :: "('a \<Rightarrow> change_record) \<Rightarrow> 's \<Rightarrow> (ledger_error + 'a) \<times> 's \<Rightarrow> bool" where
  "guarantee f s res \<longleftrightarrow> ok (snd res) \<and> ledger_step\<^sup>*\<^sup>* (view s) (view (snd res))
     \<and> (\<forall>d. fst res = Inr d \<longrightarrow> view (snd res) (ch_name (f d)) = Some (f d))"

lemma guarantee_same: "ok s \<Longrightarrow> guarantee f s (Inl e, s)"
  by (simp add: guarantee_def)

lemma guarantee_read: "ok s \<Longrightarrow> view s (ch_name (f r)) = Some (f r) \<Longrightarrow> guarantee f s (Inr r, s)"
  by (simp add: guarantee_def)

lemma guarantee_and_then_st:
  "ok s \<Longrightarrow> (\<And>x. m = Inr x \<Longrightarrow> guarantee f s (k x)) \<Longrightarrow> guarantee f s (and_then_st m s k)"
  by (cases m) (simp_all add: guarantee_same)

lemma guarantee_if:
  "(b \<Longrightarrow> guarantee f s x) \<Longrightarrow> (\<not> b \<Longrightarrow> guarantee f s y) \<Longrightarrow> guarantee f s (if b then x else y)"
  by simp

lemmas guarantee_intros = guarantee_and_then_st guarantee_if guarantee_same

lemma guarantee_trans:
  "ledger_step\<^sup>*\<^sup>* (view s) (view t) \<Longrightarrow> guarantee f t res \<Longrightarrow> guarantee f s res"
  by (auto simp: guarantee_def)

lemma ledger_get_view:
  assumes "ok s" and "table_ok (view s)" and "ledger_get st n s = Inr r"
  shows "view s n = Some r \<and> ch_name r = n \<and> below_wrap (ch_etag r)"
  using assms get_view [of s n] by (auto simp: ledger_get_def result_simps table_ok_def)

text \<open>A write of a successor of the record that was read, under the caller's ETag.\<close>

lemma guarantee_write:
  assumes "ok s" "table_ok (view s)" and env: "env_ok view ok env"
    and read: "ledger_get st n s = Inr c" and "issued_by e (ch_etag c)"
    and name: "ch_name r = ch_name c" and step: "\<And>f. change_step c (set_etag f r)"
  shows "guarantee id s (store_result (cs_replace st env e r s))"
    and "\<And>x t. cs_replace st env e r s = (x, t) \<Longrightarrow>
      ok t \<and> ledger_step\<^sup>*\<^sup>* (view s) (view t) \<and> (x \<in> range Inl \<longrightarrow> table_ok (view t))
      \<and> (\<forall>d. x = Inr d \<longrightarrow> view t (ch_name d) = Some d)"
proof -
  have env': "ok (env s)" "table_ok (view (env s))" "ledger_step\<^sup>*\<^sup>* (view s) (view (env s))"
    using env assms(1,2) by (auto simp: env_ok_def)
  have c: "view s (ch_name r) = Some c" "below_wrap (ch_etag c)"
    using ledger_get_view [OF assms(1,2) read] name by auto
  show main: "ok t \<and> ledger_step\<^sup>*\<^sup>* (view s) (view t) \<and> (x \<in> range Inl \<longrightarrow> table_ok (view t))
      \<and> (\<forall>d. x = Inr d \<longrightarrow> view t (ch_name d) = Some d)"
    if res: "cs_replace st env e r s = (x, t)" for x t
  proof (cases x)
    case (Inl y)
    then have "(view t = view s \<or> view t = view (env s)) \<and> ok t"
      using replace_Inl [of s env e r y t] res assms(1) env' by simp
    then show ?thesis using Inl assms(2) env' by auto
  next
    case (Inr d)
    note acc = res [unfolded Inr]
    have "ch_etag c = e"
      using no_lost_update [OF assms(1) env'(1,3) c(1) assms(5) acc] by simp
    then have "ledger_step (view (env s)) (view t) \<and> view t (ch_name r) = Some d \<and> ok t"
      using replace_step [OF assms(1) env'(1,3) c(1) assms(5) _ _ step acc] c(2) by simp
    moreover have "d = set_etag (ch_etag d) r"
      using replace_Inr [of s env e r d t] acc assms(1) env' by blast
    then have "ch_name d = ch_name r" by (metis set_etag_simps(2))
    ultimately show ?thesis using Inr env'(3) by auto
  qed
  show "guarantee id s (store_result (cs_replace st env e r s))"
    using main by (cases "cs_replace st env e r s") (auto simp: guarantee_def store_result_def map_err_Inr)
qed

text \<open>A write of a retry loop, with the rounds that are left.\<close>

lemma guarantee_retry:
  assumes "ok s" "table_ok (view s)" and "env_ok view ok env"
    and "ledger_get st n s = Inr c" and "ch_name r = ch_name c" and "\<And>e. change_step c (set_etag e r)"
    and f: "\<And>d. f (g d) = d"
    and again: "\<And>t. ok t \<Longrightarrow> table_ok (view t) \<Longrightarrow> guarantee f t (again t)"
  shows "guarantee f s (replace_or_retry (cs_replace st env (ch_etag c) r s) g again)"
proof -
  obtain x t where res: "cs_replace st env (ch_etag c) r s = (x, t)" by force
  note w = guarantee_write(2) [OF assms(1-4) issued_by_refl assms(5,6) res]
  show ?thesis
  proof (cases x)
    case (Inl e)
    then have "guarantee f s (again t)" using w again guarantee_trans by blast
    then show ?thesis
      using Inl res w by (cases e) (simp_all add: replace_or_retry_def guarantee_def)
  qed (use res w f in \<open>simp add: replace_or_retry_def guarantee_def\<close>)
qed

lemma create_write_guarantee:
  assumes "ok s" and "initial_record r"
  shows "guarantee id s (store_result (cs_create st r s))"
proof -
  obtain x t where res: "cs_create st r s = (x, t)" by force
  have init: "initial_record (set_etag e r)" for e
    using assms(2) by (simp add: initial_record_def name_ok_def set_etag_def)
  show ?thesis
  proof (cases x)
    case (Inl e)
    then show ?thesis using create_Inl [of s r e t] assms(1) res
      by (simp add: guarantee_def store_result_def)
  next
    case (Inr d)
    then have d: "view s (ch_name r) = None" "d = set_etag ''v1'' r" "view t = (view s)(ch_name r \<mapsto> d)" "ok t"
      using create_Inr [of s r d t] assms(1) res by auto
    then have "ledger_step (view s) (view t)"
      using vs_created [of "view s" ch_name d initial_record ch_etag change_step] init by simp
    then show ?thesis using Inr res d by (auto simp: guarantee_def store_result_def)
  qed
qed

lemma create_guarantee:
  assumes "ok s"
  shows "guarantee id s (ledger_create st rt input identity s)"
  unfolding ledger_create_def Let_def using assms
  by (intro guarantee_and_then_st create_write_guarantee)
    (auto simp: initial_record_def name_ok_def validate_scope_def validate_title_ok normalize_refs_ok
      validate_nonempty_def split: if_splits)

lemma update_guarantee:
  assumes "ok s" "table_ok (view s)" "env_ok view ok (rt_before_write rt 0)"
    and "etag_issued (CallUpdate n e patch) (view s)"
  shows "guarantee id s (ledger_update st rt n e patch s)"
  unfolding ledger_update_def
proof (intro guarantee_intros assms)
  fix c u r now
  assume "ledger_get st n s = Inr c" "require_status c Draft ''update'' = Inr u" "patch_fields patch c = Inr r"
  then show "guarantee id s (store_result (cs_replace st (rt_before_write rt 0) e (r\<lparr>ch_update_time := now\<rparr>) s))"
    using assms ledger_get_view [OF assms(1,2)] patch_fields_step [of patch c r]
    by (intro guarantee_write(1)) (auto simp: etag_issued_def)
qed

lemma validate_guarantee:
  assumes "ok s" "table_ok (view s)" "env_ok view ok (rt_before_write rt 0)"
    and "etag_issued (CallValidate n e v) (view s)"
  shows "guarantee id s (record_validation st rt n e v s)"
  unfolding record_validation_def
  using assms ledger_get_view [OF assms(1,2)]
  by (intro guarantee_intros guarantee_write(1)) (auto simp: etag_issued_def set_etag_def intro: st_validate)

lemma ready_guarantee:
  assumes "ok s" "table_ok (view s)" "env_ok view ok (rt_before_write rt 0)"
    and "etag_issued (CallReady n e) (view s)"
  shows "guarantee id s (mark_ready st rt n e s)"
  unfolding mark_ready_def
  using assms ledger_get_view [OF assms(1,2)]
  by (intro guarantee_intros guarantee_write(1))
    (auto simp: etag_issued_def set_etag_def validated_def ok_or_Inr intro!: st_ready)

lemma abandon_guarantee:
  assumes "ok s" "table_ok (view s)" "env_ok view ok (rt_before_write rt 0)"
    and "etag_issued (CallAbandon n e) (view s)"
  shows "guarantee id s (abandon st rt n e s)"
  unfolding abandon_def
  using assms ledger_get_view [OF assms(1,2)]
  by (intro guarantee_intros guarantee_write(1))
    (auto simp: etag_issued_def set_etag_def intro!: st_abandon)

lemma review_guarantee:
  assumes "ok s" "table_ok (view s)" "env_ok view ok (rt_before_write rt 0)"
    and issued: "\<And>c. view s n = Some c \<Longrightarrow> issued_by e (ch_etag c)"
    and reason: "decision = RvRejected \<Longrightarrow> trim reason \<noteq> []"
  shows "guarantee id s (review st rt n e who decision reason s)"
  unfolding review_def Let_def
proof (intro guarantee_intros assms(1))
  fix c :: change_record and u now
  let ?w = "\<lparr>rv_reviewer = change_actor_from who, rv_decision = decision, rv_reason = reason, rv_create_time = now\<rparr>"
  let ?r1 = "c\<lparr>ch_reviews := ch_reviews c @ [?w]\<rparr>"
  let ?r2 = "if decision = RvRejected then ?r1\<lparr>ch_status := Rejected\<rparr> else ?r1"
  assume get: "ledger_get st n s = Inr c" and "require_status c Ready ''review'' = Inr u"
    and "ac_identity (ch_created_by c) \<noteq> ac_identity (change_actor_from who)"
    and "\<not> list_ex (\<lambda>v. ac_identity (rv_reviewer v) = ac_identity (change_actor_from who)) (ch_reviews c)"
  then have st: "ch_status c = Ready" "fresh_reviewer c ?w"
    by (auto simp: fresh_reviewer_def list_ex_iff)
  have "change_step c (set_etag f (?r2\<lparr>ch_update_time := now\<rparr>))" for f
    using st_approve [OF st, where now = now and e = f] st_reject [OF st, where now = now and e = f] reason
    by (cases decision) (auto simp: set_etag_def)
  then show "guarantee id s (store_result (cs_replace st (rt_before_write rt 0) e (?r2\<lparr>ch_update_time := now\<rparr>) s))"
    using issued ledger_get_view [OF assms(1,2) get] by (intro guarantee_write(1) [OF assms(1-3) get]) auto
qed

lemma acquire_ready_guarantee:
  assumes "ok s" "table_ok (view s)" "env_ok view ok (rt_before_write rt i)"
    and get: "ledger_get st n s = Inr c" and "ch_status c = Ready" and "0 < d"
    and again: "\<And>t. ok t \<Longrightarrow> table_ok (view t) \<Longrightarrow> guarantee acquisition_record t (again t)"
  shows "guarantee acquisition_record s (acquire_ready st rt i n e q actor d c s again)"
  unfolding acquire_ready_def
proof (intro guarantee_intros assms(1))
  fix now expires
  let ?r = "c\<lparr>ch_status := Applying, ch_apply_attempt := Some (fresh_attempt rt i q actor now expires),
    ch_update_time := now\<rparr>"
  assume e: "\<not> ch_etag c \<noteq> e" and v: "\<not> \<not> (case ch_validation c of Some v \<Rightarrow> vr_valid v | None \<Rightarrow> False)"
    and lease: "lease_end now d = Inr expires"
  have "validated c" using v by (auto simp: validated_def split: option.splits)
  then have "change_step c (set_etag f ?r)" for f
    using st_acquire [where c = c and now = now and e = f and a = "fresh_attempt rt i q actor now expires"]
      assms(5) lease_end_Inr [OF lease \<open>0 < d\<close>] by (simp add: set_etag_def fresh_attempt_def)
  then show "guarantee acquisition_record s
      (replace_or_retry (cs_replace st (rt_before_write rt i) e ?r s) Acquired again)"
    using guarantee_retry [OF assms(1-3) get, of ?r acquisition_record Acquired again] again e by simp
qed

lemma acquire_applying_guarantee:
  assumes "ok s" "table_ok (view s)" "env_ok view ok (rt_before_write rt i)"
    and get: "ledger_get st n s = Inr c" and "ch_status c = Applying" and "0 < d"
    and again: "\<And>t. ok t \<Longrightarrow> table_ok (view t) \<Longrightarrow> guarantee acquisition_record t (again t)"
  shows "guarantee acquisition_record s (acquire_applying st rt i q d c s again)"
  unfolding acquire_applying_def
proof (intro guarantee_intros assms(1))
  show "guarantee acquisition_record s (Inr (Observed c), s)"
    using ledger_get_view [OF assms(1,2) get] assms(1) by (intro guarantee_read) auto
  fix now a expires
  let ?r = "c\<lparr>ch_apply_attempt := Some (a\<lparr>at_lease_owner := rt_lease_owner rt i,
    at_lease_expires_at := expires, at_update_time := now\<rparr>), ch_update_time := now\<rparr>"
  assume a: "ok_or (FailedPrecondition ApplyingNoAttempt) (ch_apply_attempt c) = Inr a"
    and old: "\<not> now < at_lease_expires_at a" and lease: "lease_end now d = Inr expires"
  have "change_step c (set_etag f ?r)" for f
    using st_reacquire [where c = c and now = now and e = f and a = a and expires = expires
        and lo = "rt_lease_owner rt i"] a old assms(5) lease_end_Inr [OF lease \<open>0 < d\<close>]
    by (simp add: set_etag_def ok_or_Inr)
  then show "guarantee acquisition_record s
      (replace_or_retry (cs_replace st (rt_before_write rt i) (ch_etag c) ?r s) Acquired again)"
    using guarantee_retry [OF assms(1-3) get, of ?r acquisition_record Acquired again] again by simp
qed

lemma acquire_rounds_guarantee:
  assumes "rely view ok rt" and "0 < d"
  shows "ok s \<Longrightarrow> table_ok (view s) \<Longrightarrow>
    guarantee acquisition_record s (acquire_rounds st rt n e q actor d i left s)"
proof (induction left arbitrary: i s)
  case (Suc left)
  let ?s = "rt_before_read rt i s"
  have s': "ok ?s" "table_ok (view ?s)" "ledger_step\<^sup>*\<^sup>* (view s) (view ?s)"
      and env: "env_ok view ok (rt_before_write rt i)"
    using assms(1) Suc.prems by (auto simp: rely_def env_ok_def)
  note branch = acquire_ready_guarantee [OF s'(1,2) env _ _ assms(2)]
    acquire_applying_guarantee [OF s'(1,2) env _ _ assms(2)]
  show ?case
    unfolding acquire_rounds.simps Let_def
    using s' Suc.IH [of _ "i + 1"] ledger_get_view [OF s'(1,2)]
    by (intro guarantee_trans [OF s'(3)] guarantee_and_then_st)
      (auto split: change_status.split intro!: branch guarantee_intros guarantee_read)
qed (simp add: guarantee_same)

lemma complete_rounds_guarantee:
  assumes "rely view ok rt"
  shows "ok s \<Longrightarrow> table_ok (view s) \<Longrightarrow> guarantee id s (complete_rounds st rt n q a res i left s)"
proof (induction left arbitrary: i s)
  case (Suc left)
  let ?s = "rt_before_read rt i s"
  have s': "ok ?s" "table_ok (view ?s)" "ledger_step\<^sup>*\<^sup>* (view s) (view ?s)"
      and env: "env_ok view ok (rt_before_write rt i)"
    using assms Suc.prems by (auto simp: rely_def env_ok_def)
  note retry = guarantee_retry [OF s'(1,2) env]
  show ?case
    unfolding complete_rounds.simps Let_def
    using s' Suc.IH [of _ "i + 1"] ledger_get_view [OF s'(1,2)]
    by (intro guarantee_trans [OF s'(3)] guarantee_and_then_st guarantee_if)
      (auto simp: set_etag_def ok_or_Inr intro!: retry guarantee_same guarantee_read st_complete)
qed (simp add: guarantee_same)

lemma release_rounds_guarantee:
  assumes "rely view ok rt"
  shows "ok s \<Longrightarrow> table_ok (view s) \<Longrightarrow> guarantee id s (release_rounds st rt n q a lo i left s)"
proof (induction left arbitrary: i s)
  case (Suc left)
  let ?s = "rt_before_read rt i s"
  have s': "ok ?s" "table_ok (view ?s)" "ledger_step\<^sup>*\<^sup>* (view s) (view ?s)"
      and env: "env_ok view ok (rt_before_write rt i)"
    using assms Suc.prems by (auto simp: rely_def env_ok_def)
  note retry = guarantee_retry [OF s'(1,2) env]
  show ?case
    unfolding release_rounds.simps Let_def
    using s' Suc.IH [of _ "i + 1"] ledger_get_view [OF s'(1,2)]
    by (intro guarantee_trans [OF s'(3)] guarantee_and_then_st guarantee_if)
      (auto simp: set_etag_def ok_or_Inr intro!: retry guarantee_same st_release)
qed (simp add: guarantee_same)

lemma exec_guarantee:
  assumes "ok s" "table_ok (view s)" and rely: "rely view ok rt" and issued: "etag_issued call (view s)"
  shows "guarantee id s (ledger_exec st rt call s)"
proof -
  have env: "env_ok view ok (rt_before_write rt 0)" using rely by (simp add: rely_def)
  have held: "\<And>c. view s n = Some c \<Longrightarrow> issued_by e (ch_etag c)" if "named_etag call = Some (n, e)" for n e
    using issued that by (auto simp: etag_issued_def)
  show ?thesis
  proof (cases call)
    case (CallAcquire n e q actor d)
    have "guarantee acquisition_record s (acquire_apply st rt n e q actor d s)"
      unfolding acquire_apply_def using acquire_rounds_guarantee [OF rely] assms(1,2)
      by (intro guarantee_intros) auto
    then show ?thesis using CallAcquire by (auto simp: guarantee_def split: prod.splits sum.splits)
  qed (use assms env held in \<open>auto simp: approve_def reject_def complete_apply_def release_apply_def
      intro: create_guarantee update_guarantee validate_guarantee ready_guarantee abandon_guarantee
        review_guarantee complete_rounds_guarantee release_rounds_guarantee guarantee_same\<close>)
qed

lemma replace_won:
  assumes "ok s" "table_ok (view s)" and env: "env_ok view ok env"
    and read: "ledger_get st n s = Inr c" and name: "ch_name r = ch_name c"
    and step: "\<And>f. change_step c (set_etag f r)"
    and acc: "cs_replace st env (ch_etag c) r s = (Inr d, t)"
  shows "view (env s) n = Some c \<and> ledger_step (view (env s)) (view t) \<and> view t n = Some d
    \<and> (\<exists>f. d = set_etag f r)"
proof -
  have env': "ok (env s)" "ledger_step\<^sup>*\<^sup>* (view s) (view (env s))"
    using env assms(1,2) by (auto simp: env_ok_def)
  have c: "view s (ch_name r) = Some c" "below_wrap (ch_etag c)" "ch_name r = n"
    using ledger_get_view [OF assms(1,2) read] name by auto
  have "d = set_etag (ch_etag d) r"
    using replace_Inr [of s env "ch_etag c" r d t] acc assms(1) env' by blast
  then show ?thesis
    using replace_step [OF assms(1) env' c(1) issued_by_refl _ _ step acc] c by auto
qed

lemma acquire_ready_won:
  assumes "ok s" "table_ok (view s)" "env_ok view ok (rt_before_write rt i)"
    and get: "ledger_get st n s = Inr c" and "ch_status c = Ready" and "0 < d"
    and res: "acquire_ready st rt i n e q actor d c s again = (Inr (Acquired r), t)"
  shows "lease_won view rt n e q r t
    \<or> (\<exists>u. ok u \<and> table_ok (view u) \<and> again u = (Inr (Acquired r), t))"
proof -
  obtain now expires where e: "ch_etag c = e" and v: "validated c" and now: "rt_now rt i = Inr now"
    and lease: "lease_end now d = Inr expires"
    and wr: "replace_or_retry (cs_replace st (rt_before_write rt i) e
        (c\<lparr>ch_status := Applying, ch_apply_attempt := Some (fresh_attempt rt i q actor now expires),
           ch_update_time := now\<rparr>) s) Acquired again = (Inr (Acquired r), t)"
    using res by (auto simp: acquire_ready_def and_then_st_Inr validated_def split: if_splits option.splits)
  let ?r = "c\<lparr>ch_status := Applying, ch_apply_attempt := Some (fresh_attempt rt i q actor now expires),
    ch_update_time := now\<rparr>"
  have less: "now < expires" using lease_end_Inr [OF lease \<open>0 < d\<close>] .
  have step: "change_step c (set_etag f ?r)" for f
    using st_acquire [where c = c and now = now and e = f and a = "fresh_attempt rt i q actor now expires"]
      assms(5) v less by (simp add: set_etag_def fresh_attempt_def)
  obtain x u where x: "cs_replace st (rt_before_write rt i) e ?r s = (x, u)" by force
  show ?thesis
  proof (cases x)
    case (Inr d)
    then have "d = r" "u = t" using wr x by (auto simp: replace_or_retry_def)
    then have acc: "cs_replace st (rt_before_write rt i) (ch_etag c) ?r s = (Inr r, t)" using x Inr e by simp
    obtain f where f: "r = set_etag f ?r" and won: "view (rt_before_write rt i s) n = Some c"
        "ledger_step (view (rt_before_write rt i s)) (view t)" "view t n = Some r"
      using replace_won [OF assms(1-4) _ step acc] by auto
    have r: "ch_status r = Applying" "ch_apply_attempt r = Some (fresh_attempt rt i q actor now expires)"
      using f by (simp_all add: set_etag_def)
    have free: "ch_status c = Ready \<and> ch_etag c = e \<and> validated c
        \<or> ch_status c = Applying \<and> (\<exists>b. ch_apply_attempt c = Some b \<and> at_request_id b = q
            \<and> at_lease_expires_at b \<le> now)"
      using e v assms(5) by simp
    show ?thesis
      unfolding lease_won_def
      by (rule disjI1, intro exI conjI, rule won(1), rule now, rule won(2), rule free, rule won(3),
          rule r(1), rule r(2)) (use less in \<open>simp_all add: fresh_attempt_def\<close>)
  next
    case (Inl y)
    moreover have "ok u \<and> table_ok (view u)"
      using guarantee_write(2) [OF assms(1-4) issued_by_refl _ step, of x u] x Inl e by auto
    ultimately show ?thesis using wr x by (cases y) (auto simp: replace_or_retry_def)
  qed
qed

lemma acquire_applying_won:
  assumes "ok s" "table_ok (view s)" "env_ok view ok (rt_before_write rt i)"
    and get: "ledger_get st n s = Inr c" and "ch_status c = Applying" and "0 < d"
    and res: "acquire_applying st rt i q d c s again = (Inr (Acquired r), t)"
  shows "lease_won view rt n e q r t
    \<or> (\<exists>u. ok u \<and> table_ok (view u) \<and> again u = (Inr (Acquired r), t))"
proof -
  obtain now a expires where now: "rt_now rt i = Inr now" and a: "ch_apply_attempt c = Some a"
    and q: "at_request_id a = q" and old: "at_lease_expires_at a \<le> now" and lease: "lease_end now d = Inr expires"
    and wr: "replace_or_retry (cs_replace st (rt_before_write rt i) (ch_etag c)
        (c\<lparr>ch_apply_attempt := Some (a\<lparr>at_lease_owner := rt_lease_owner rt i,
             at_lease_expires_at := expires, at_update_time := now\<rparr>),
           ch_update_time := now\<rparr>) s) Acquired again = (Inr (Acquired r), t)"
    using res by (auto simp: acquire_applying_def and_then_st_Inr ok_or_Inr not_less split: if_splits)
  let ?a = "a\<lparr>at_lease_owner := rt_lease_owner rt i, at_lease_expires_at := expires, at_update_time := now\<rparr>"
  let ?r = "c\<lparr>ch_apply_attempt := Some ?a, ch_update_time := now\<rparr>"
  have less: "now < expires" using lease_end_Inr [OF lease \<open>0 < d\<close>] .
  have step: "change_step c (set_etag f ?r)" for f
    using st_reacquire [where c = c and now = now and e = f and a = a and expires = expires
        and lo = "rt_lease_owner rt i"] a old assms(5) less by (simp add: set_etag_def)
  obtain x u where x: "cs_replace st (rt_before_write rt i) (ch_etag c) ?r s = (x, u)" by force
  show ?thesis
  proof (cases x)
    case (Inr d)
    then have "d = r" "u = t" using wr x by (auto simp: replace_or_retry_def)
    then have acc: "cs_replace st (rt_before_write rt i) (ch_etag c) ?r s = (Inr r, t)" using x Inr by simp
    obtain f where f: "r = set_etag f ?r" and won: "view (rt_before_write rt i s) n = Some c"
        "ledger_step (view (rt_before_write rt i s)) (view t)" "view t n = Some r"
      using replace_won [OF assms(1-4) _ step acc] by auto
    have r: "ch_status r = Applying" "ch_apply_attempt r = Some ?a"
      using f assms(5) by (simp_all add: set_etag_def)
    have free: "ch_status c = Ready \<and> ch_etag c = e \<and> validated c
        \<or> ch_status c = Applying \<and> (\<exists>b. ch_apply_attempt c = Some b \<and> at_request_id b = q
            \<and> at_lease_expires_at b \<le> now)"
      using a q old assms(5) by simp
    show ?thesis
      unfolding lease_won_def
      by (rule disjI1, intro exI conjI, rule won(1), rule now, rule won(2), rule free, rule won(3),
          rule r(1), rule r(2)) (use less q in simp_all)
  next
    case (Inl y)
    moreover have "ok u \<and> table_ok (view u)"
      using guarantee_write(2) [OF assms(1-4) issued_by_refl _ step, of x u] x Inl by auto
    ultimately show ?thesis using wr x by (cases y) (auto simp: replace_or_retry_def)
  qed
qed

lemma acquire_rounds_won:
  assumes "rely view ok rt" and "0 < d"
  shows "ok s \<Longrightarrow> table_ok (view s) \<Longrightarrow>
    acquire_rounds st rt n e q actor d i left s = (Inr (Acquired r), t) \<Longrightarrow> lease_won view rt n e q r t"
proof (induction left arbitrary: i s)
  case (Suc left)
  let ?s = "rt_before_read rt i s"
  let ?again = "acquire_rounds st rt n e q actor d (i + 1) left"
  have s': "ok ?s" "table_ok (view ?s)" and env: "env_ok view ok (rt_before_write rt i)"
    using assms(1) Suc.prems by (auto simp: rely_def env_ok_def)
  obtain c where get: "ledger_get st n ?s = Inr c"
    using Suc.prems(3) by (cases "ledger_get st n ?s") (simp_all add: Let_def)
  show ?case
  proof (cases "ch_status c")
    case Ready
    then have "acquire_ready st rt i n e q actor d c ?s ?again = (Inr (Acquired r), t)"
      using Suc.prems(3) get by (simp add: Let_def)
    from acquire_ready_won [OF s' env get Ready assms(2) this] show ?thesis using Suc.IH by blast
  next
    case Applying
    then have "acquire_applying st rt i q d c ?s ?again = (Inr (Acquired r), t)"
      using Suc.prems(3) get by (simp add: Let_def)
    from acquire_applying_won [OF s' env get Applying assms(2) this] show ?thesis using Suc.IH by blast
  qed (use Suc.prems(3) get in \<open>auto simp: Let_def and_then_st_Inr split: if_splits\<close>)
qed simp

end

interpretation mcl: change_ledger memory_change_store bt_get bt_ok
  unfolding change_ledger_def memory_change_store_sel by (rule mcs.versioned_store_axioms)

lemma objdb_ledger:
  assumes "record_db_laws db tbl ok" and "codec_ok c"
  shows "change_ledger (objdb_change_store db c) (\<lambda>s. cs_view c (tbl s)) ok"
  unfolding change_ledger_def objdb_change_store_sel by (rule objdb_versioned [OF assms])

end
