(* ===== verification/Change_Properties.thy ===== *)
theory Change_Properties
  imports Change_Lifecycle
begin

text \<open>
  The properties of the change ledger and its stores, with a concrete instance of each:
  the lifecycle of a small change on the memory store and on the durable store.
\<close>

section \<open>Calls that are refused\<close>

text \<open>A refused call reports an error and leaves the store as it found it.\<close>

definition refused :: "'s \<Rightarrow> ('e + 'a) \<times> 's \<Rightarrow> bool" where
  "refused s res \<longleftrightarrow> (\<exists>e. res = (Inl e, s))"

lemma refused_Inl: "refused s (Inl e, s)"
  by (simp add: refused_def)

lemma refused_and_then_st:
  "(\<And>x. m = Inr x \<Longrightarrow> refused s (k x)) \<Longrightarrow> refused s (and_then_st m s k)"
  by (cases m) (auto simp: refused_def)

lemma refused_if: "(b \<Longrightarrow> refused s x) \<Longrightarrow> (\<not> b \<Longrightarrow> refused s y) \<Longrightarrow> refused s (if b then x else y)"
  by simp

lemma refused_store_result: "refused s res \<Longrightarrow> refused s (store_result res)"
  by (auto simp: refused_def store_result_def)

lemma store_result_Inr: "store_result res = (Inr r, t) \<longleftrightarrow> res = (Inr r, t)"
  by (cases res) (simp add: store_result_def map_err_Inr)

lemmas refused_intros = refused_Inl refused_and_then_st refused_if refused_store_result

lemma mem_replace_stale:
  assumes "bt_get s (ch_name r) = Some c" and "ch_etag c \<noteq> e"
  shows "refused s (mem_replace (\<lambda>s. s) e r s)"
  using assms by (simp add: mem_replace_def refused_def)

lemma ledger_get_mem:
  "ledger_get memory_change_store n s = Inr r \<Longrightarrow> bt_get s n = Some r"
  by (auto simp: ledger_get_def result_simps mem_get_def)

lemma patch_fields_values:
  assumes "patch_fields patch c = Inr r"
  shows "ch_validation r = (if cu_target_bookmark patch \<noteq> None \<or> cu_base_revision patch \<noteq> None
      \<or> cu_edits patch \<noteq> None then None else ch_validation c)"
    and "ch_status r = ch_status c" and "ch_name r = ch_name c" and "ch_created_by r = ch_created_by c"
proof -
  obtain r6 where "patching patch c r6" and r: "r = (if cu_target_bookmark patch \<noteq> None
      \<or> cu_base_revision patch \<noteq> None \<or> cu_edits patch \<noteq> None then r6\<lparr>ch_validation := None\<rparr> else r6)"
    using patch_fields_Inr [OF assms] by blast
  then have "ch_validation r6 = ch_validation c" "ch_status r6 = ch_status c" "ch_name r6 = ch_name c"
      "ch_created_by r6 = ch_created_by c"
    unfolding patching_def by blast+
  with r show "ch_validation r = (if cu_target_bookmark patch \<noteq> None \<or> cu_base_revision patch \<noteq> None
      \<or> cu_edits patch \<noteq> None then None else ch_validation c)"
    and "ch_status r = ch_status c" and "ch_name r = ch_name c" and "ch_created_by r = ch_created_by c"
    by simp_all
qed

lemma stale_call_refused:
  assumes named: "named_etag call = Some (n, e)" and cur: "bt_get s n = Some c" "ch_name c = n" "ch_etag c \<noteq> e"
    and quiet: "rt_before_write rt 0 = (\<lambda>s. s)"
  shows "refused s (ledger_exec memory_change_store rt call s)"
proof -
  have wr: "ledger_get memory_change_store n s = Inr r \<Longrightarrow> ch_name r' = ch_name r \<Longrightarrow>
      refused s (store_result (mem_replace (rt_before_write rt 0) e r' s))" for r r'
    using ledger_get_mem [of n s r] cur mem_replace_stale [of s r' c e]
    by (auto simp: quiet intro: refused_store_result)
  have rv: "refused s (review memory_change_store rt n e who decision why s)" for who decision why
    unfolding review_def Let_def memory_change_store_sel
    by (intro refused_and_then_st refused_if refused_Inl wr) (assumption | simp)+
  have "refused s (ledger_update memory_change_store rt n e patch s)" for patch
    unfolding ledger_update_def memory_change_store_sel
    by (intro refused_and_then_st refused_if refused_Inl wr) (assumption | simp add: patch_fields_values(3))+
  moreover have "refused s (record_validation memory_change_store rt n e v s)" for v
    unfolding record_validation_def memory_change_store_sel by (intro refused_and_then_st wr) (assumption | simp)+
  moreover have "refused s (mark_ready memory_change_store rt n e s)"
    unfolding mark_ready_def memory_change_store_sel
    by (intro refused_and_then_st refused_if refused_Inl wr) (assumption | simp)+
  moreover have "refused s (abandon memory_change_store rt n e s)"
    unfolding abandon_def memory_change_store_sel
    by (intro refused_and_then_st refused_if refused_Inl wr) (assumption | simp)+
  ultimately show ?thesis
    using named rv by (cases call) (simp_all add: approve_def reject_def refused_Inl)
qed

section \<open>Completion\<close>

context change_ledger
begin

lemma complete_rounds_applied:
  assumes "rely view ok rt"
  shows "ok s \<Longrightarrow> table_ok (view s) \<Longrightarrow> complete_rounds st rt n q a res i left s = (Inr r, t) \<Longrightarrow>
    validate_resource_name n = Inr () \<and> ch_name r = n \<and> ch_status r = Applied
    \<and> (\<exists>b. ch_apply_attempt r = Some b \<and> at_request_id b = q)"
proof (induction left arbitrary: i s)
  case (Suc left)
  let ?s = "rt_before_read rt i s"
  have s': "ok ?s" "table_ok (view ?s)" and env: "env_ok view ok (rt_before_write rt i)"
    using assms Suc.prems by (auto simp: rely_def env_ok_def)
  obtain c where get: "ledger_get st n ?s = Inr c"
    using Suc.prems(3) by (cases "ledger_get st n ?s") (simp_all add: Let_def)
  then have n: "ch_name c = n" "validate_resource_name n = Inr ()"
    using ledger_get_view [OF s' get] by (auto simp: ledger_get_def and_then_Inr)
  show ?case
  proof (cases "ch_status c = Applied")
    case True
    then show ?thesis using Suc.prems(3) get n by (auto simp: Let_def split: if_splits option.splits)
  next
    case False
    then obtain b now where b: "ch_status c = Applying" "ch_apply_attempt c = Some b" "at_request_id b = q"
      and ids: "ar_commit_id res \<noteq> []" "ar_change_id res \<noteq> []" "ar_operation_id res \<noteq> []"
      and wr: "replace_or_retry (cs_replace st (rt_before_write rt i) (ch_etag c)
        (c\<lparr>ch_apply_attempt := Some (b\<lparr>at_update_time := now\<rparr>), ch_status := Applied,
           ch_apply_result := Some res, ch_update_time := now\<rparr>) ?s)
        id (complete_rounds st rt n q a res (i + 1) left) = (Inr r, t)"
      using Suc.prems(3) get by (auto simp: Let_def and_then_st_Inr ok_or_Inr split: if_splits)
    let ?r = "c\<lparr>ch_apply_attempt := Some (b\<lparr>at_update_time := now\<rparr>), ch_status := Applied,
      ch_apply_result := Some res, ch_update_time := now\<rparr>"
    have step: "change_step c (set_etag f ?r)" for f
      using st_complete [OF b(1,2) ids, where now = now and e = f] by (simp add: set_etag_def)
    obtain x u where x: "cs_replace st (rt_before_write rt i) (ch_etag c) ?r ?s = (x, u)" by force
    show ?thesis
    proof (cases x)
      case (Inr d)
      then have acc: "cs_replace st (rt_before_write rt i) (ch_etag c) ?r ?s = (Inr r, t)"
        using wr x by (auto simp: replace_or_retry_def)
      obtain f where "r = set_etag f ?r" using replace_won [OF s' env get _ step acc] by auto
      then show ?thesis using n b by (simp add: set_etag_def)
    next
      case (Inl y)
      have "ok u \<and> table_ok (view u)"
        using guarantee_write(2) [OF s' env get issued_by_refl _ step, of x u] x Inl by auto
      then show ?thesis using Suc.IH [of u "i + 1"] wr x Inl by (cases y) (auto simp: replace_or_retry_def)
    qed
  qed
qed simp

end

lemma complete_replay:
  assumes "validate_resource_name n = Inr ()" and "bt_get t n = Some r" and "ch_status r = Applied"
    and "ch_apply_attempt r = Some b" and "at_request_id b = q" and "rt_before_read rt 0 = (\<lambda>s. s)"
  shows "complete_apply memory_change_store rt n q a res t = (Inr r, t)"
  using assms
  by (simp add: complete_apply_def numeral_eq_Suc Let_def ledger_get_def mem_get_def)

section \<open>Resource names\<close>

lemma segment_no_slash: "validate_segment l v = Inr u \<Longrightarrow> CHR ''/'' \<notin> set v"
  by (auto simp: validate_segment_def contains_char_def split: if_splits)

lemma change_id_no_slash: "validate_change_id i = Inr u \<Longrightarrow> CHR ''/'' \<notin> set i"
  by (auto simp: validate_change_id_def Let_def list_all_iff is_lower_def is_digit_def split: if_splits)

lemma split_change_name:
  assumes "CHR ''/'' \<notin> set p" "CHR ''/'' \<notin> set r" "CHR ''/'' \<notin> set i"
  shows "split_on (CHR ''/'') (change_name p r i) = [''projects'', p, ''repos'', r, ''changes'', i]"
proof -
  have "change_name p r i =
      ''projects'' @ CHR ''/'' # p @ CHR ''/'' # ''repos'' @ CHR ''/'' # r @ CHR ''/'' # ''changes'' @ CHR ''/'' # i"
    by (simp add: change_name_def)
  then show ?thesis using assms by (simp only: split_on_append_delim) (simp add: split_on_append_delim)
qed

lemma parse_change_name:
  assumes "validate_scope p r = Inr ()" and "validate_change_id i = Inr ()"
  shows "parse_resource_name (change_name p r i) = Inr [''projects'', p, ''repos'', r, ''changes'', i]"
proof -
  have v: "validate_segment ''project'' p = Inr ()" "validate_segment ''repo'' r = Inr ()"
    using assms(1) by (auto simp: validate_scope_def and_then_Inr)
  then have "split_on (CHR ''/'') (change_name p r i) = [''projects'', p, ''repos'', r, ''changes'', i]"
    using segment_no_slash change_id_no_slash assms(2) by (intro split_change_name) auto
  then show ?thesis using v assms(2) by (simp add: parse_resource_name_def)
qed

lemma parse_resource_name_Inr:
  assumes "parse_resource_name n = Inr parts"
  shows "\<exists>p r i. n = change_name p r i \<and> parts = [''projects'', p, ''repos'', r, ''changes'', i]
    \<and> validate_scope p r = Inr () \<and> validate_change_id i = Inr ()"
proof -
  have parts: "parts = split_on (CHR ''/'') n" "length parts = 6" "parts ! 0 = ''projects''" "parts ! 2 = ''repos''"
      "parts ! 4 = ''changes''" "validate_segment ''project'' (parts ! 1) = Inr ()"
      "validate_segment ''repo'' (parts ! 3) = Inr ()" "validate_change_id (parts ! 5) = Inr ()"
    using assms by (auto simp: parse_resource_name_def Let_def and_then_Inr split: if_splits)
  have "parts = [parts ! 0, parts ! 1, parts ! 2, parts ! 3, parts ! 4, parts ! 5]"
    using parts(2) by (auto simp: list_eq_iff_nth_eq less_Suc_eq numeral_eq_Suc)
  then have eq: "parts = [''projects'', parts ! 1, ''repos'', parts ! 3, ''changes'', parts ! 5]"
    using parts(3-5) by simp
  have "n = join_with ''/'' parts" using join_split_on [of "CHR ''/''" n] parts(1) by simp
  also have "\<dots> = change_name (parts ! 1) (parts ! 3) (parts ! 5)"
    by (subst eq) (simp add: change_name_def)
  finally have "n = change_name (parts ! 1) (parts ! 3) (parts ! 5)" .
  moreover have "validate_scope (parts ! 1) (parts ! 3) = Inr ()" using parts by (simp add: validate_scope_def)
  ultimately show ?thesis using eq parts(8) by blast
qed

section \<open>Listing\<close>

definition in_repo :: "string \<Rightarrow> string \<Rightarrow> change_record \<Rightarrow> bool" where
  "in_repo project repo r \<longleftrightarrow> ch_project r = project \<and> ch_repo r = repo"

lemma decode_all_Inr:
  "decode_all c project repo kvs = Inr found \<Longrightarrow> distinct (map fst kvs) \<Longrightarrow>
    distinct (map ch_name found) \<and> ch_name ` set found \<subseteq> fst ` set kvs
    \<and> set found = {r. \<exists>k b. (k, b) \<in> set kvs \<and> cd_dec c b = Inr r \<and> in_repo project repo r}"
proof (induction c project repo kvs arbitrary: found rule: decode_all.induct)
  case (2 c project repo k b rest)
  obtain r found' where r: "cd_dec c b = Inr r" "ch_name r = k"
    and rest: "decode_all c project repo rest = Inr found'"
    and found: "found = (if in_repo project repo r then r # found' else found')"
    using "2.prems"(1) by (auto simp: and_then_Inr cs_decode_def map_err_Inr in_repo_def split: if_splits)
  have "cs_decode c b = Inr r" "\<not> ch_name r \<noteq> k" "distinct (map fst rest)"
    using r "2.prems"(2) by (simp_all add: cs_decode_def)
  note * = "2.IH" [OF this(1,2) rest this(3)]
  then have names: "distinct (map ch_name found')" "ch_name ` set found' \<subseteq> fst ` set rest" by blast+
  then have "k \<notin> ch_name ` set found'" using "2.prems"(2) by auto
  with names have "distinct (map ch_name found)" "ch_name ` set found \<subseteq> fst ` set ((k, b) # rest)"
    using r(2) found by (auto split: if_splits)
  moreover have "set found = {r. \<exists>k' b'. (k', b') \<in> set ((k, b) # rest) \<and> cd_dec c b' = Inr r \<and> in_repo project repo r}"
    using * r(1) found by auto
  ultimately show ?case by blast
qed simp

lemma sort_list_order:
  "sorted (map list_order (sort_key list_order xs)) \<and> set (sort_key list_order xs) = set xs
    \<and> (distinct (map ch_name xs) \<longrightarrow> distinct (map ch_name (sort_key list_order xs)))"
  by (auto simp: distinct_map)

lemma ran_cs_view:
  "r \<in> ran (cs_view c T) \<longleftrightarrow> (\<exists>k b. T (change_record_collection, k) = Some b \<and> cd_dec c b = Inr r)"
proof -
  have "cs_view c T k = Some r \<longleftrightarrow> (\<exists>b. T (change_record_collection, k) = Some b \<and> cd_dec c b = Inr r)" for k
    by (auto simp: coll_view_def split: option.splits sum.splits)
  then show ?thesis by (simp add: ran_def)
qed

lemma odb_list_Inr:
  assumes "record_db_laws db tbl ok" and "ok s" and "odb_list db c project repo s = Inr xs"
  shows "sorted (map list_order xs) \<and> distinct (map ch_name xs)
    \<and> set xs = {r \<in> ran (cs_view c (tbl s)). in_repo project repo r}"
proof -
  obtain kvs found where kvs: "rdb_list db change_record_collection s = Inr kvs"
    and found: "decode_all c project repo kvs = Inr found" "xs = sort_key list_order found"
    using assms(3) by (auto simp: odb_list_def and_then_Inr map_err_Inr)
  have ks: "distinct (map fst kvs)" "set kvs = {(k, v). tbl s (change_record_collection, k) = Some v}"
    using record_db_laws.list_ok [OF assms(1,2) kvs] by auto
  have "set found = {r \<in> ran (cs_view c (tbl s)). in_repo project repo r}"
    using decode_all_Inr [OF found(1) ks(1)] ks(2)
    by (auto simp: ran_cs_view)
  then show ?thesis using decode_all_Inr [OF found(1) ks(1)] found(2) sort_list_order [of found] by simp
qed

lemma mem_list_Inr:
  assumes "bt_ok s" and "table_ok (bt_get s)" and "mem_list project repo s = Inr xs"
  shows "sorted (map list_order xs) \<and> distinct (map ch_name xs)
    \<and> set xs = {r \<in> ran (bt_get s). in_repo project repo r}"
proof -
  let ?ys = "filter (in_repo project repo) (map snd s)"
  have xs: "xs = sort_key list_order ?ys" using assms(3) by (simp add: mem_list_def in_repo_def [abs_def])
  have names: "map ch_name (map snd s) = map fst s"
    using assms(2) bt_get_set [OF assms(1)] by (auto simp: table_ok_def)
  have "distinct (map ch_name (map snd s))" unfolding names by (rule bt_ok_distinct [OF assms(1)])
  then have "distinct (map ch_name ?ys)" by (rule distinct_map_filter)
  moreover have "set (map snd s) = ran (bt_get s)"
    by (auto simp: ran_def bt_get_set [OF assms(1)] image_iff Bex_def)
  ultimately show ?thesis using xs sort_list_order [of ?ys] by auto
qed

section \<open>A sample change\<close>

definition quiet :: "int \<Rightarrow> 's runtime" where
  "quiet now = \<lparr>rt_now = (\<lambda>_. Inr now), rt_change_id = ''c9'', rt_attempt_id = (\<lambda>_. ''a1''),
     rt_lease_owner = (\<lambda>_. ''l1''), rt_before_read = (\<lambda>_ s. s), rt_before_write = (\<lambda>_ s. s)\<rparr>"

lemma quiet_sel [simp]:
  "rt_now (quiet now) i = Inr now" "rt_before_read (quiet now) i = (\<lambda>s. s)"
  "rt_before_write (quiet now) i = (\<lambda>s. s)" "rt_lease_owner (quiet now) i = ''l1''"
  by (simp_all add: quiet_def)

lemma rely_quiet: "rely view ok (quiet now)"
  by (simp add: rely_def env_ok_def)

definition author :: identity where "author = User ''ann'' None"

definition sample_name :: string where "sample_name = ''projects/p/repos/r/changes/c1''"

definition sample_input :: create_change where
  "sample_input = \<lparr>cc_project = ''p'', cc_repo = ''r'', cc_change_id = Some ''c1'',
     cc_target_bookmark = ''main'', cc_base_revision = None, cc_title = '' t '', cc_description = [],
     cc_external_references = [''x''],
     cc_edits = [DeleteSchema \<lparr>sp_project = ''p'', sp_repo = ''r'', sp_schema_name = ''s''\<rparr> ''protobuf'']\<rparr>"

definition sample_draft :: change_record where
  "sample_draft = \<lparr>ch_name = sample_name, ch_project = ''p'', ch_repo = ''r'', ch_target_bookmark = ''main'',
     ch_base_revision = None, ch_title = ''t'', ch_description = [], ch_external_references = [''x''],
     ch_edits = [DeleteSchema \<lparr>sp_project = ''p'', sp_repo = ''r'', sp_schema_name = ''s''\<rparr> ''protobuf''],
     ch_created_by = change_actor_from author, ch_status = Draft, ch_validation = None, ch_reviews = [],
     ch_apply_attempt = None, ch_apply_result = None, ch_etag = ''v1'', ch_create_time = 5, ch_update_time = 5\<rparr>"

definition sample_validation :: validation_result where
  "sample_validation = \<lparr>vr_valid = True, vr_resolved_base_commit = ''b'', vr_edit_digest = ''d'', vr_issues = [],
     vr_validated_at = 6, vr_validator_version = ''1''\<rparr>"

definition sample_ready :: change_record where
  "sample_ready = sample_draft\<lparr>ch_status := Ready, ch_validation := Some sample_validation, ch_etag := ''v3''\<rparr>"

definition sample_attempt :: apply_attempt where
  "sample_attempt = \<lparr>at_request_id = ''q'', at_attempt_id = ''a1'', at_actor = change_actor_from author,
     at_lease_owner = ''l1'', at_lease_expires_at = 20, at_start_time = 10, at_update_time = 10\<rparr>"

definition sample_applying :: change_record where
  "sample_applying = sample_ready\<lparr>ch_status := Applying, ch_apply_attempt := Some sample_attempt,
     ch_etag := ''v4'', ch_update_time := 10\<rparr>"

definition sample_result :: apply_result where
  "sample_result = \<lparr>ar_commit_id = ''k'', ar_change_id = ''j'', ar_operation_id = ''o'',
     ar_conflicted_declarations = [], ar_artifact_digest = None\<rparr>"

definition sample_applied :: change_record where
  "sample_applied = sample_applying\<lparr>ch_status := Applied, ch_apply_attempt := Some (sample_attempt\<lparr>at_update_time := 12\<rparr>),
     ch_apply_result := Some sample_result, ch_etag := ''v5'', ch_update_time := 12\<rparr>"

lemmas sample_defs = sample_draft_def sample_ready_def sample_applying_def sample_applied_def
  sample_attempt_def sample_result_def sample_validation_def sample_name_def author_def

definition sample_codec :: "change_record codec" where
  "sample_codec = table_codec [(sample_draft, [1]), (sample_ready, [3]), (sample_applying, [4]), (sample_applied, [5])]"

lemma sample_codec_ok: "codec_ok sample_codec"
  unfolding sample_codec_def by (rule codec_ok_table) simp

definition sample_db :: "bytes \<Rightarrow> inner" where
  "sample_db b = empty_db\<lparr>db_records := [((change_record_collection, sample_name), b)]\<rparr>"

lemma sample_db_ok: "inner_ok (sample_db b)"
  by (simp add: sample_db_def inner_ok_def empty_db_def)

lemma sample_acquire:
  "ledger_exec (objdb_change_store memory_db sample_codec) (quiet 10)
     (CallAcquire sample_name ''v3'' ''q'' author 10) (sample_db [3]) = (Inr sample_applying, sample_db [4])"
  by code_simp

lemma sample_views:
  "cs_view sample_codec (record_table (sample_db [3])) = [sample_name \<mapsto> sample_ready]"
  "cs_view sample_codec (record_table (sample_db [4])) = [sample_name \<mapsto> sample_applying]"
  "cs_view sample_codec (record_table (sample_db [5])) = [sample_name \<mapsto> sample_applied]"
  by (simp_all add: fun_eq_iff coll_view_def record_table_def sample_db_def empty_db_def sample_codec_def sample_defs)

lemma sample_names [simp]:
  "ch_name sample_draft = sample_name" "ch_name sample_ready = sample_name"
  "ch_name sample_applying = sample_name" "ch_name sample_applied = sample_name"
  by (simp_all add: sample_defs)

lemma below_wrap_small: "etag_version e = Some v \<Longrightarrow> v < 1000 \<Longrightarrow> below_wrap e"
  by (simp add: below_wrap_def u64_modulus_def)

lemma sample_below_wrap:
  "below_wrap (ch_etag sample_ready)" "below_wrap (ch_etag sample_applying)" "below_wrap (ch_etag sample_applied)"
  by (rule below_wrap_small [of _ 3], code_simp, simp, rule below_wrap_small [of _ 4], code_simp, simp,
      rule below_wrap_small [of _ 5], code_simp, simp)

lemma sample_tables_ok:
  "table_ok [sample_name \<mapsto> sample_ready]" "table_ok [sample_name \<mapsto> sample_applying]"
  "table_ok [sample_name \<mapsto> sample_applied]"
  by (simp_all add: table_ok_def sample_below_wrap)

section \<open>The ledger keeps its promises\<close>



text \<open>The states of the memory store that sequences of ledger calls reach.\<close>

inductive ledger_reach :: "change_table \<Rightarrow> bool" where
  reach_empty: "ledger_reach []"
| reach_call: "ledger_reach s \<Longrightarrow> rely bt_get bt_ok rt \<Longrightarrow> etag_issued call (bt_get s) \<Longrightarrow>
    ledger_exec memory_change_store rt call s = (x, t) \<Longrightarrow>
    \<forall>n r. bt_get t n = Some r \<longrightarrow> below_wrap (ch_etag r) \<Longrightarrow> ledger_reach t"

lemma ledger_reach_table:
  "ledger_reach s \<Longrightarrow> bt_ok s \<and> table_ok (bt_get s) \<and> ledger_step\<^sup>*\<^sup>* Map.empty (bt_get s)"
proof (induction rule: ledger_reach.induct)
  case (reach_call s rt call x t)
  then have g: "bt_ok t" "ledger_step\<^sup>*\<^sup>* (bt_get s) (bt_get t)"
    using mcl.exec_guarantee [of s rt call] by (auto simp: mcl.guarantee_def)
  then have steps: "ledger_step\<^sup>*\<^sup>* Map.empty (bt_get t)"
    using reach_call.IH by (meson rtranclp_trans)
  have "\<forall>n r. bt_get t n = Some r \<longrightarrow> ch_name r = n"
    using versioned_steps_keyed [OF steps] by simp
  then show ?case using g(1) steps reach_call.hyps by (simp add: table_ok_def)
qed (simp add: table_ok_def)

lemma ledger_steps_record_inv:
  assumes "ledger_step\<^sup>*\<^sup>* Map.empty m" and "m n = Some r"
  shows "record_inv r \<and> ch_name r = n"
  using versioned_steps_invariant [OF assms(1), of record_inv] versioned_steps_keyed [OF assms(1)]
    initial_record_inv change_step_record_inv assms(2) by blast

text \<open>
  C2: In every state that any sequence of ledger calls can reach from the empty memory
  store, each stored record satisfies the record invariant: it is stored under a well-formed
  name for its project and repository; Ready, Applying and Applied records have edits and a
  passing validation; exactly Applying and Applied records have an apply attempt, exactly
  Applied ones a complete receipt; Drafts have no reviews, no one reviews twice, the author
  never reviews, and a record is Rejected exactly when some review rejects it.
\<close>

theorem reachable_records_ok:
  assumes "ledger_reach s" and "bt_get s n = Some r"
  shows "record_inv r \<and> ch_name r = n"
  using ledger_reach_table [OF assms(1)] ledger_steps_record_inv assms(2) by blast

lemma sample_reach: "ledger_reach [(sample_name, sample_draft)]"
proof -
  have create: "ledger_exec memory_change_store (quiet 5) (CallCreate sample_input author) []
      = (Inr sample_draft, [(sample_name, sample_draft)])" by code_simp
  have "below_wrap (ch_etag sample_draft)"
    by (rule below_wrap_small [of _ 1]) (simp_all add: sample_draft_def)
  then show ?thesis
    by (intro reach_call [OF reach_empty rely_quiet _ create]) (simp_all add: etag_issued_def)
qed

theorem reachable_records_ok_witness: "record_inv sample_draft \<and> ch_name sample_draft = sample_name"
  using reachable_records_ok [OF sample_reach, of sample_name sample_draft] by simp

lemma durable_steps:
  assumes "record_db_laws db tbl ok" and "codec_ok c"
    and "ok s" and "table_ok (cs_view c (tbl s))" and "rely (\<lambda>s. cs_view c (tbl s)) ok rt"
    and "etag_issued call (cs_view c (tbl s))"
    and "ledger_exec (objdb_change_store db c) rt call s = (x, t)"
  shows "ledger_step\<^sup>*\<^sup>* (cs_view c (tbl s)) (cs_view c (tbl t))"
  using change_ledger.exec_guarantee [OF objdb_ledger [OF assms(1,2)] assms(3-6)]
  by (simp add: change_ledger.guarantee_def [OF objdb_ledger [OF assms(1,2)]] assms(7))


lemma sample_release:
  "ledger_exec (objdb_change_store memory_db sample_codec) (quiet 30)
     (CallRelease sample_name ''q'' ''a1'' ''l1'') (sample_db [5])
   = (Inl (FailedPrecondition (BadStatus ''release apply'' Applied Applying)), sample_db [5])"
  by code_simp





lemma sample_acquired:
  "acquire_apply (objdb_change_store memory_db sample_codec) (quiet 10) sample_name ''v3'' ''q'' author 10 (sample_db [3])
   = (Inr (Acquired sample_applying), sample_db [4])"
  by code_simp


text \<open>
  C6: While a lease is held no one else gets in: on a record that is Applying with a lease
  that ends after the current clock reading, \<open>acquire_apply\<close> changes nothing; the same
  request id is told \<open>Observed\<close>, any other request id is refused.
\<close>

theorem held_lease_excludes:
  assumes "validate_resource_name n = Inr ()" and "validate_request_id q = Inr ()" and "e \<noteq> []" and "0 < d"
    and "bt_get s n = Some r" and "ch_status r = Applying" and "ch_apply_attempt r = Some a"
    and "rt_before_read rt 0 = (\<lambda>s. s)" and "rt_now rt 0 = Inr now" and "now < at_lease_expires_at a"
  shows "acquire_apply memory_change_store rt n e q actor d s =
    (if at_request_id a = q then Inr (Observed r) else Inl (FailedPrecondition OtherRequestApplying), s)"
  using assms
  by (simp add: acquire_apply_def numeral_eq_Suc Let_def ledger_get_def mem_get_def acquire_applying_def
      now_unix_millis_def)

theorem held_lease_excludes_witness:
  "acquire_apply memory_change_store (quiet 15) sample_name ''v4'' ''z'' author 10 [(sample_name, sample_applying)]
   = (Inl (FailedPrecondition OtherRequestApplying), [(sample_name, sample_applying)])"
proof -
  have "validate_resource_name sample_name = Inr ()" "validate_request_id ''z'' = Inr ()" by code_simp+
  then show ?thesis
    using held_lease_excludes [of sample_name "''z''" "''v4''" 10 "[(sample_name, sample_applying)]"
        sample_applying sample_attempt "quiet 15" 15 author]
    by (simp add: sample_applying_def) (simp add: sample_attempt_def)
qed

text \<open>
  C7: \<open>complete_apply\<close> is idempotent across retries and reconcilers.  After a completion
  that returned a record, under whatever interference, a later completion for the same
  request id returns that same record and leaves the store unchanged, whatever attempt id
  and receipt it brings.
\<close>

theorem complete_apply_idempotent:
  assumes "bt_ok s" and "table_ok (bt_get s)" and "rely bt_get bt_ok rt"
    and "complete_apply memory_change_store rt n q a res s = (Inr r, t)"
    and "rt_before_read rt' 0 = (\<lambda>s. s)"
  shows "ch_status r = Applied \<and> complete_apply memory_change_store rt' n q a' res' t = (Inr r, t)"
proof -
  have rounds: "complete_rounds memory_change_store rt n q a res 0 4 s = (Inr r, t)"
    using assms(4) by (simp add: complete_apply_def)
  then have "bt_get t (ch_name r) = Some r"
    using mcl.complete_rounds_guarantee [OF assms(3,1,2), of n q a res 0 4] by (simp add: mcl.guarantee_def)
  then show ?thesis
    using mcl.complete_rounds_applied [OF assms(3,1,2) rounds] complete_replay assms(5) by blast
qed

theorem complete_apply_idempotent_witness:
  "complete_apply memory_change_store (quiet 99) sample_name ''q'' ''other'' (sample_result\<lparr>ar_commit_id := ''zz''\<rparr>)
     [(sample_name, sample_applied)] = (Inr sample_applied, [(sample_name, sample_applied)])"
proof -
  have run: "complete_apply memory_change_store (quiet 12) sample_name ''q'' ''a1'' sample_result [(sample_name, sample_applying)]
      = (Inr sample_applied, [(sample_name, sample_applied)])" by code_simp
  have "bt_get [(sample_name, sample_applying)] = [sample_name \<mapsto> sample_applying]" by (simp add: fun_eq_iff)
  then show ?thesis
    using complete_apply_idempotent [OF _ _ rely_quiet run, of "quiet 99"] sample_tables_ok by simp
qed

text \<open>
  C8: A call that names an ETag other than the stored record's current one (update,
  validate, mark ready, approve, reject, abandon) is refused with an error, and the store is
  exactly as before.
\<close>

theorem stale_etag_refused:
  assumes "named_etag call = Some (n, e)" and "bt_get s n = Some r" and "ch_name r = n" and "ch_etag r \<noteq> e"
    and "rt_before_write rt 0 = (\<lambda>s. s)"
  shows "\<exists>x. ledger_exec memory_change_store rt call s = (Inl x, s)"
  using stale_call_refused [OF assms] by (simp add: refused_def)

theorem stale_etag_refused_witness:
  "\<exists>x. ledger_exec memory_change_store (quiet 7) (CallAbandon sample_name ''v1'') [(sample_name, sample_ready)]
     = (Inl x, [(sample_name, sample_ready)])"
  by (rule stale_etag_refused [of _ sample_name "''v1''" _ sample_ready]) (simp_all add: sample_ready_def)


definition sample_validated :: change_record where
  "sample_validated = sample_draft\<lparr>ch_validation := Some sample_validation, ch_etag := ''v2''\<rparr>"

definition sample_patch :: change_update where
  "sample_patch = \<lparr>cu_target_bookmark = None, cu_base_revision = None, cu_title = None, cu_description = None,
     cu_external_references = None, cu_edits = Some []\<rparr>"



text \<open>
  C11: Listing is complete, sound and ordered, in both stores: a successful listing of a
  repository returns each of its stored records once and no others, in order of creation time
  and then name.
\<close>

theorem list_complete_and_ordered:
  assumes "record_db_laws db tbl ok" and "ok s" and "bt_ok m" and "table_ok (bt_get m)"
  shows "(\<forall>xs. odb_list db c project repo s = Inr xs \<longrightarrow>
      sorted (map list_order xs) \<and> distinct (map ch_name xs)
      \<and> set xs = {r \<in> ran (cs_view c (tbl s)). in_repo project repo r})
    \<and> (\<forall>xs. mem_list project repo m = Inr xs \<longrightarrow>
      sorted (map list_order xs) \<and> distinct (map ch_name xs)
      \<and> set xs = {r \<in> ran (bt_get m). in_repo project repo r})"
  using odb_list_Inr [OF assms(1,2)] mem_list_Inr [OF assms(3,4)] by blast

theorem list_complete_and_ordered_witness:
  "odb_list memory_db sample_codec ''p'' ''r'' (sample_db [3]) = Inr [sample_ready]
   \<and> mem_list ''p'' ''r'' [(sample_name, sample_ready)] = Inr [sample_ready]
   \<and> ran (cs_view sample_codec (record_table (sample_db [3]))) \<supseteq> {sample_ready}"
proof -
  have *: "odb_list memory_db sample_codec ''p'' ''r'' (sample_db [3]) = Inr [sample_ready]"
    "mem_list ''p'' ''r'' [(sample_name, sample_ready)] = Inr [sample_ready]" by code_simp+
  have "bt_get [(sample_name, sample_ready)] = [sample_name \<mapsto> sample_ready]" by (simp add: fun_eq_iff)
  then have "set [sample_ready] = {r \<in> ran (cs_view sample_codec (record_table (sample_db [3]))). in_repo ''p'' ''r'' r}"
    using list_complete_and_ordered [OF mdb.record_db_laws_axioms sample_db_ok [of "[3]"],
        of "[(sample_name, sample_ready)]" sample_codec "''p''" "''r''"] * sample_tables_ok by simp
  then show ?thesis using * by auto
qed

end
