(* ===== verification/Access_Store.thy ===== *)
theory Access_Store
  imports Codec Versioned
begin

text \<open>
  Projects and memberships: the store interfaces of \<open>auth_store.rs\<close> and their durable
  implementations over record databases of \<open>auth_object_db.rs\<close>.  Project metadata is a
  versioned resource; a membership is a record \<open>(project, identity, role, active)\<close> under a key
  built from the project and the hex form of the identity (\<open>hex::encode\<close> is a parameter).
  Operations that read and then write take the steps other processes make before each of
  their reads and writes.
\<close>

section \<open>Data and interfaces\<close>

text \<open>A message made with \<open>format!\<close>: the template and the values it interpolates.\<close>

datatype message = Msg (msg_template: string) (msg_values: "string list")

datatype access_store_error =
    AsAlreadyExists string
  | AsNotFound string
  | AsEtagMismatch string string string
  | AsBackend message

record project_meta =
  pm_name :: string
  pm_visibility :: visibility
  pm_creator :: string
  pm_etag :: string
  pm_create_time :: int
  pm_update_time :: int
  pm_archived :: bool
  pm_archive_time :: "int option"

definition project_meta_new :: "string \<Rightarrow> visibility \<Rightarrow> string \<Rightarrow> int \<Rightarrow> project_meta" where
  "project_meta_new name vis creator now = \<lparr>pm_name = name, pm_visibility = vis, pm_creator = creator,
     pm_etag = [], pm_create_time = now, pm_update_time = now, pm_archived = False, pm_archive_time = None\<rparr>"

record role_record =
  rr_project :: string
  rr_identity_id :: string
  rr_role :: role
  rr_active :: bool

text \<open>What other processes do before the read and the write of each round.\<close>

record 's interference =
  if_read :: "nat \<Rightarrow> 's \<Rightarrow> 's"
  if_write :: "nat \<Rightarrow> 's \<Rightarrow> 's"

definition alone :: "'s interference" where
  "alone = \<lparr>if_read = (\<lambda>_ s. s), if_write = (\<lambda>_ s. s)\<rparr>"

lemma alone_sel [simp]: "if_read alone i = (\<lambda>s. s)" "if_write alone i = (\<lambda>s. s)"
  by (simp_all add: alone_def)

record 's role_store =
  rs_get :: "string \<Rightarrow> identity \<Rightarrow> 's \<Rightarrow> access_store_error + role option"
  rs_set :: "'s interference \<Rightarrow> string \<Rightarrow> string \<Rightarrow> role \<Rightarrow> 's \<Rightarrow> (access_store_error + unit) \<times> 's"
  rs_remove :: "'s interference \<Rightarrow> string \<Rightarrow> string \<Rightarrow> 's \<Rightarrow> (access_store_error + unit) \<times> 's"
  rs_list_project :: "string \<Rightarrow> 's \<Rightarrow> access_store_error + (string \<times> role) list"

record 's project_store =
  pj_get :: "string \<Rightarrow> 's \<Rightarrow> access_store_error + project_meta option"
  pj_create_with_owner :: "project_meta \<Rightarrow> string \<Rightarrow> 's \<Rightarrow> (access_store_error + project_meta) \<times> 's"
  pj_set :: "'s interference \<Rightarrow> project_meta \<Rightarrow> 's \<Rightarrow> (access_store_error + unit) \<times> 's"
  pj_replace :: "('s \<Rightarrow> 's) \<Rightarrow> string \<Rightarrow> project_meta \<Rightarrow> 's \<Rightarrow> (access_store_error + project_meta) \<times> 's"
  pj_list :: "'s \<Rightarrow> access_store_error + project_meta list"

section \<open>Helpers\<close>

definition project_collection :: string where "project_collection = ''schemahub.projects.v1''"
definition role_collection :: string where "role_collection = ''schemahub.project_roles.v1''"
definition max_cas_retries :: nat where "max_cas_retries = 8"

definition as_map_db :: "db_error \<Rightarrow> access_store_error" where
  "as_map_db e = AsBackend (Msg ''{}'' [case e of DbNotFound \<Rightarrow> ''object not found'' | DbBackend m \<Rightarrow> ''database error: '' @ m])"

definition pj_encode :: "project_meta codec \<Rightarrow> project_meta \<Rightarrow> access_store_error + bytes" where
  "pj_encode c m = map_err (\<lambda>e. AsBackend (Msg ''encode project: {}'' [e])) (cd_enc c m)"

definition pj_decode :: "project_meta codec \<Rightarrow> bytes \<Rightarrow> access_store_error + project_meta" where
  "pj_decode c b = map_err (\<lambda>e. AsBackend (Msg ''decode project: {}'' [e])) (cd_dec c b)"

definition encode_role :: "role_record codec \<Rightarrow> role_record \<Rightarrow> access_store_error + bytes" where
  "encode_role c r = map_err (\<lambda>e. AsBackend (Msg ''encode role: {}'' [e])) (cd_enc c r)"

definition decode_role :: "role_record codec \<Rightarrow> bytes \<Rightarrow> access_store_error + role_record" where
  "decode_role c b = map_err (\<lambda>e. AsBackend (Msg ''decode role: {}'' [e])) (cd_dec c b)"

definition as_next_etag :: "string \<Rightarrow> access_store_error + string" where
  "as_next_etag e = ok_or (AsBackend (Msg ''invalid stored project etag: {}'' [e])) (next_etag e)"

definition role_key :: "(string \<Rightarrow> string) \<Rightarrow> string \<Rightarrow> string \<Rightarrow> string" where
  "role_key hex project i = ''projects/'' @ project @ ''/members/'' @ hex i"

section \<open>ObjectDbProjectStore\<close>

fun upsert_rounds ::
  "'s record_db \<Rightarrow> project_meta codec \<Rightarrow> 's interference \<Rightarrow> nat \<Rightarrow> nat \<Rightarrow> project_meta \<Rightarrow> 's
    \<Rightarrow> (access_store_error + project_meta) \<times> 's" where
  "upsert_rounds db c env i 0 meta s =
     (Inl (AsBackend (Msg ''project changed repeatedly while writing bootstrap metadata'' [])), s)"
| "upsert_rounds db c env i (Suc left) meta s0 =
     (let s = if_read env i s0 in
      and_then_st (map_err as_map_db (rdb_get db project_collection (pm_name meta) s)) s (\<lambda>found.
      case found of
        None \<Rightarrow>
          let meta = (if pm_etag meta = [] then meta\<lparr>pm_etag := ''v1''\<rparr> else meta) in
          and_then_st (pj_encode c meta) s (\<lambda>replacement.
          case rdb_create db project_collection (pm_name meta) replacement (if_write env i s) of (res, s) \<Rightarrow>
          and_then_st (map_err as_map_db res) s (\<lambda>inserted.
          if inserted then (Inr meta, s) else upsert_rounds db c env (i + 1) left meta s))
      | Some current \<Rightarrow>
          and_then_st (pj_decode c current) s (\<lambda>current_meta.
          and_then_st (if pm_etag meta = []
            then and_then (as_next_etag (pm_etag current_meta)) (\<lambda>e. Inr (meta\<lparr>pm_etag := e\<rparr>))
            else Inr meta) s (\<lambda>meta.
          and_then_st (pj_encode c meta) s (\<lambda>replacement.
          case rdb_cas db project_collection (pm_name meta) current replacement (if_write env i s) of (res, s) \<Rightarrow>
          and_then_st (map_err as_map_db res) s (\<lambda>swapped.
          if swapped then (Inr meta, s) else upsert_rounds db c env (i + 1) left meta s))))))"

definition upsert ::
  "'s record_db \<Rightarrow> project_meta codec \<Rightarrow> 's interference \<Rightarrow> project_meta \<Rightarrow> 's
    \<Rightarrow> (access_store_error + project_meta) \<times> 's" where
  "upsert db c env meta s = upsert_rounds db c env 0 max_cas_retries meta s"

fun encode_members ::
  "role_record codec \<Rightarrow> (string \<Rightarrow> string) \<Rightarrow> string \<Rightarrow> (string \<times> role) list
    \<Rightarrow> access_store_error + (string \<times> string \<times> bytes) list" where
  "encode_members c hex project [] = Inr []"
| "encode_members c hex project ((i, role) # rest) =
     (let r = \<lparr>rr_project = project, rr_identity_id = i, rr_role = role, rr_active = True\<rparr> in
      and_then (encode_role c r) (\<lambda>b.
      and_then (encode_members c hex project rest) (\<lambda>bs.
      Inr ((role_collection, role_key hex (rr_project r) (rr_identity_id r), b) # bs))))"

definition create_with_members ::
  "'s record_db \<Rightarrow> project_meta codec \<Rightarrow> role_record codec \<Rightarrow> (string \<Rightarrow> string)
    \<Rightarrow> project_meta \<Rightarrow> (string \<times> role) list \<Rightarrow> 's \<Rightarrow> (access_store_error + project_meta) \<times> 's" where
  "create_with_members db c rc hex meta members s =
     (if \<not> list_ex (\<lambda>(_, role). role = Owner) members
      then (Inl (AsBackend (Msg ''project '{}' cannot be created without an Owner'' [pm_name meta])), s)
      else let meta = meta\<lparr>pm_etag := ''v1''\<rparr> in
        and_then_st (pj_encode c meta) s (\<lambda>project_bytes.
        and_then_st (encode_members rc hex (pm_name meta) members) s (\<lambda>role_records.
        case rdb_create_many db ((project_collection, pm_name meta, project_bytes) # role_records) s of (res, s) \<Rightarrow>
        and_then_st (map_err as_map_db res) s (\<lambda>created.
        if \<not> created then (Inl (AsAlreadyExists (pm_name meta)), s) else (Inr meta, s)))))"

definition odb_project_get ::
  "'s record_db \<Rightarrow> project_meta codec \<Rightarrow> string \<Rightarrow> 's \<Rightarrow> access_store_error + project_meta option" where
  "odb_project_get db c project s =
     and_then (map_err as_map_db (rdb_get db project_collection project s)) (\<lambda>b.
     case b of None \<Rightarrow> Inr None | Some bytes \<Rightarrow> and_then (pj_decode c bytes) (\<lambda>m. Inr (Some m)))"

definition create_with_owner ::
  "'s record_db \<Rightarrow> project_meta codec \<Rightarrow> role_record codec \<Rightarrow> (string \<Rightarrow> string)
    \<Rightarrow> project_meta \<Rightarrow> string \<Rightarrow> 's \<Rightarrow> (access_store_error + project_meta) \<times> 's" where
  "create_with_owner db c rc hex meta owner_id s = create_with_members db c rc hex meta [(owner_id, Owner)] s"

definition odb_project_set ::
  "'s record_db \<Rightarrow> project_meta codec \<Rightarrow> 's interference \<Rightarrow> project_meta \<Rightarrow> 's
    \<Rightarrow> (access_store_error + unit) \<times> 's" where
  "odb_project_set db c env meta s = (case upsert db c env meta s of (res, s) \<Rightarrow> (and_then res (\<lambda>_. Inr ()), s))"

definition odb_project_replace ::
  "'s record_db \<Rightarrow> project_meta codec \<Rightarrow> ('s \<Rightarrow> 's) \<Rightarrow> string \<Rightarrow> project_meta \<Rightarrow> 's
    \<Rightarrow> (access_store_error + project_meta) \<times> 's" where
  "odb_project_replace db c env expected meta s =
     and_then_st (and_then (map_err as_map_db (rdb_get db project_collection (pm_name meta) s))
       (ok_or (AsNotFound (pm_name meta)))) s (\<lambda>current.
     and_then_st (pj_decode c current) s (\<lambda>current_meta.
     if pm_etag current_meta \<noteq> expected
     then (Inl (AsEtagMismatch (pm_name meta) expected (pm_etag current_meta)), s)
     else and_then_st (as_next_etag (pm_etag current_meta)) s (\<lambda>e.
     let meta = meta\<lparr>pm_etag := e\<rparr> in
     and_then_st (pj_encode c meta) s (\<lambda>replacement.
     case rdb_cas db project_collection (pm_name meta) current replacement (env s) of (res, s) \<Rightarrow>
     and_then_st (map_err as_map_db res) s (\<lambda>swapped.
     if swapped then (Inr meta, s)
     else and_then_st (and_then (odb_project_get db c (pm_name meta) s) (ok_or (AsNotFound (pm_name meta)))) s
       (\<lambda>latest. (Inl (AsEtagMismatch (pm_name meta) expected (pm_etag latest)), s)))))))"

fun decode_projects ::
  "project_meta codec \<Rightarrow> (string \<times> bytes) list \<Rightarrow> access_store_error + project_meta list" where
  "decode_projects c [] = Inr []"
| "decode_projects c ((k, b) # rest) =
     and_then (pj_decode c b) (\<lambda>m.
     if pm_name m \<noteq> k then Inl (AsBackend (Msg ''project key/name mismatch: key={}, name={}'' [k, pm_name m]))
     else and_then (decode_projects c rest) (\<lambda>ms. Inr (m # ms)))"

definition odb_project_list ::
  "'s record_db \<Rightarrow> project_meta codec \<Rightarrow> 's \<Rightarrow> access_store_error + project_meta list" where
  "odb_project_list db c s =
     and_then (map_err as_map_db (rdb_list db project_collection s)) (\<lambda>kvs.
     and_then (decode_projects c kvs) (\<lambda>ms. Inr (sort_key pm_name ms)))"

definition objdb_project_store ::
  "'s record_db \<Rightarrow> project_meta codec \<Rightarrow> role_record codec \<Rightarrow> (string \<Rightarrow> string) \<Rightarrow> 's project_store" where
  "objdb_project_store db c rc hex = \<lparr>pj_get = odb_project_get db c,
     pj_create_with_owner = create_with_owner db c rc hex, pj_set = odb_project_set db c,
     pj_replace = odb_project_replace db c, pj_list = odb_project_list db c\<rparr>"

section \<open>ObjectDbRoleStore\<close>

fun role_replace_rounds ::
  "'s record_db \<Rightarrow> 's interference \<Rightarrow> string \<Rightarrow> bytes \<Rightarrow> nat \<Rightarrow> nat \<Rightarrow> 's \<Rightarrow> (access_store_error + unit) \<times> 's" where
  "role_replace_rounds db env key replacement i 0 s =
     (Inl (AsBackend (Msg ''membership {} changed repeatedly'' [key])), s)"
| "role_replace_rounds db env key replacement i (Suc left) s0 =
     (let s = if_read env i s0 in
      and_then_st (map_err as_map_db (rdb_get db role_collection key s)) s (\<lambda>found.
      case (case found of
          None \<Rightarrow> rdb_create db role_collection key replacement (if_write env i s)
        | Some current \<Rightarrow> rdb_cas db role_collection key current replacement (if_write env i s)) of (res, s) \<Rightarrow>
      and_then_st (map_err as_map_db res) s (\<lambda>done.
      if done then (Inr (), s) else role_replace_rounds db env key replacement (i + 1) left s)))"

definition role_replace ::
  "'s record_db \<Rightarrow> role_record codec \<Rightarrow> (string \<Rightarrow> string) \<Rightarrow> 's interference \<Rightarrow> role_record \<Rightarrow> 's
    \<Rightarrow> (access_store_error + unit) \<times> 's" where
  "role_replace db c hex env r s =
     and_then_st (encode_role c r) s (\<lambda>replacement.
     role_replace_rounds db env (role_key hex (rr_project r) (rr_identity_id r)) replacement 0 max_cas_retries s)"

definition odb_role_get ::
  "'s record_db \<Rightarrow> role_record codec \<Rightarrow> (string \<Rightarrow> string) \<Rightarrow> string \<Rightarrow> identity \<Rightarrow> 's
    \<Rightarrow> access_store_error + role option" where
  "odb_role_get db c hex project identity s =
     (case identity_id identity of
        None \<Rightarrow> Inr None
      | Some i \<Rightarrow>
          and_then (map_err as_map_db (rdb_get db role_collection (role_key hex project i) s)) (\<lambda>b.
          case b of None \<Rightarrow> Inr None
          | Some bytes \<Rightarrow> and_then (decode_role c bytes) (\<lambda>r.
              Inr (if rr_active r then Some (rr_role r) else None))))"

definition odb_role_set ::
  "'s record_db \<Rightarrow> role_record codec \<Rightarrow> (string \<Rightarrow> string) \<Rightarrow> 's interference \<Rightarrow> string \<Rightarrow> string \<Rightarrow> role \<Rightarrow> 's
    \<Rightarrow> (access_store_error + unit) \<times> 's" where
  "odb_role_set db c hex env project i role s =
     role_replace db c hex env
       \<lparr>rr_project = project, rr_identity_id = i, rr_role = role, rr_active = True\<rparr> s"

definition odb_role_remove ::
  "'s record_db \<Rightarrow> role_record codec \<Rightarrow> (string \<Rightarrow> string) \<Rightarrow> 's interference \<Rightarrow> string \<Rightarrow> string \<Rightarrow> 's
    \<Rightarrow> (access_store_error + unit) \<times> 's" where
  "odb_role_remove db c hex env project i s =
     and_then_st (map_err as_map_db (rdb_get db role_collection (role_key hex project i) s)) s (\<lambda>found.
     case found of
       None \<Rightarrow> (Inr (), s)
     | Some bytes \<Rightarrow>
         and_then_st (decode_role c bytes) s (\<lambda>r.
         if \<not> rr_active r then (Inr (), s) else role_replace db c hex env (r\<lparr>rr_active := False\<rparr>) s))"

fun decode_roles ::
  "role_record codec \<Rightarrow> (string \<Rightarrow> string) \<Rightarrow> string \<Rightarrow> (string \<times> bytes) list
    \<Rightarrow> access_store_error + (string \<times> role) list" where
  "decode_roles c hex project [] = Inr []"
| "decode_roles c hex project ((k, b) # rest) =
     and_then (decode_role c b) (\<lambda>r.
     if role_key hex (rr_project r) (rr_identity_id r) \<noteq> k
     then Inl (AsBackend (Msg ''role key/content mismatch for {}'' [k]))
     else and_then (decode_roles c hex project rest) (\<lambda>rs.
       Inr (if rr_project r = project \<and> rr_active r then (rr_identity_id r, rr_role r) # rs else rs)))"

definition odb_role_list ::
  "'s record_db \<Rightarrow> role_record codec \<Rightarrow> (string \<Rightarrow> string) \<Rightarrow> string \<Rightarrow> 's
    \<Rightarrow> access_store_error + (string \<times> role) list" where
  "odb_role_list db c hex project s =
     and_then (map_err as_map_db (rdb_list db role_collection s)) (\<lambda>kvs.
     and_then (decode_roles c hex project kvs) (\<lambda>rs. Inr (sort_key fst rs)))"

definition objdb_role_store ::
  "'s record_db \<Rightarrow> role_record codec \<Rightarrow> (string \<Rightarrow> string) \<Rightarrow> 's role_store" where
  "objdb_role_store db c hex = \<lparr>rs_get = odb_role_get db c hex, rs_set = odb_role_set db c hex,
     rs_remove = odb_role_remove db c hex, rs_list_project = odb_role_list db c hex\<rparr>"

section \<open>Projects are versioned\<close>

abbreviation project_view :: "project_meta codec \<Rightarrow> table \<Rightarrow> string \<rightharpoonup> project_meta" where
  "project_view \<equiv> coll_view project_collection"

lemma as_next_etag_Inr [result_simps]: "as_next_etag e = Inr f \<longleftrightarrow> next_etag e = Some f"
  by (simp add: as_next_etag_def ok_or_Inr)

lemma pj_codec_Inr [result_simps]:
  "pj_encode c m = Inr b \<longleftrightarrow> cd_enc c m = Inr b" "pj_decode c b = Inr m \<longleftrightarrow> cd_dec c b = Inr m"
  "encode_role rc r = Inr b \<longleftrightarrow> cd_enc rc r = Inr b" "decode_role rc b = Inr r \<longleftrightarrow> cd_dec rc b = Inr r"
  by (simp_all add: pj_encode_def pj_decode_def encode_role_def decode_role_def map_err_Inr)

context record_db_laws
begin

lemma project_get_view:
  assumes "inv s" and "odb_project_get db c n s = Inr ro"
  shows "ro = project_view c (tbl s) n"
  using assms get_ok [OF assms(1)]
  by (fastforce simp: odb_project_get_def result_simps coll_view_def split: option.splits)

lemma project_replace_Inr:
  assumes ok: "codec_ok c" and inv: "inv s" "inv (env s)"
    and rep: "odb_project_replace db c env e m s = (Inr m', t)"
  shows "(\<exists>d. project_view c (tbl (env s)) (pm_name m) = Some d \<and> pm_etag d = e)
    \<and> next_etag e = Some (pm_etag m') \<and> m' = m\<lparr>pm_etag := pm_etag m'\<rparr>
    \<and> project_view c (tbl t) = (project_view c (tbl (env s)))(pm_name m \<mapsto> m') \<and> inv t"
proof -
  obtain cb cur b where dec: "cd_dec c cb = Inr cur" and et: "pm_etag cur = e" "next_etag e = Some (pm_etag m')"
    and m': "m' = m\<lparr>pm_etag := pm_etag m'\<rparr>" and enc: "cd_enc c m' = Inr b"
    and cas: "rdb_cas db project_collection (pm_name m) cb b (env s) = (Inr True, t)"
    using rep by (auto simp: odb_project_replace_def Let_def result_simps split: if_splits)
  have "cd_dec c b = Inr m'" using ok enc by (rule codec_okD)
  moreover have "tbl (env s) (project_collection, pm_name m) = Some cb"
    and "tbl t = (tbl (env s))((project_collection, pm_name m) \<mapsto> b)"
    using cas_ok [OF inv(2) cas] by auto
  moreover have "inv t"
    using inv_cas [OF inv(2), of project_collection "pm_name m" cb b] cas by simp
  ultimately show ?thesis using dec et m' by (simp add: coll_view_upd) (simp add: coll_view_def)
qed

lemma project_replace_Inl:
  assumes inv: "inv s" "inv (env s)" and rep: "odb_project_replace db c env e m s = (Inl x, t)"
  shows "(project_view c (tbl t) = project_view c (tbl s) \<or> project_view c (tbl t) = project_view c (tbl (env s))) \<and> inv t"
proof (cases "t = s")
  case False
  then obtain cb b res where cas: "rdb_cas db project_collection (pm_name m) cb b (env s) = (res, t)"
    and "res = Inr False \<or> (\<exists>e. res = Inl e)"
    using rep by (auto simp: odb_project_replace_def Let_def result_simps split: if_splits)
  then show ?thesis
    using cas_ok [OF inv(2), of _ _ cb b False] cas_fail [OF inv(2), of _ _ cb b]
      inv_cas [OF inv(2), of project_collection "pm_name m" cb b] by auto
qed (use inv in simp)

end

lemma objdb_project_cas:
  assumes "record_db_laws db tbl ok" and "codec_ok c"
  shows "cas_store pm_name pm_etag (\<lambda>e m. m\<lparr>pm_etag := e\<rparr>) (odb_project_get db c) (odb_project_replace db c)
    (\<lambda>s. project_view c (tbl s)) ok"
  by (intro cas_store.intro)
    (erule (1) record_db_laws.project_get_view [OF assms(1)] record_db_laws.project_replace_Inr [OF assms]
      record_db_laws.project_replace_Inl [OF assms(1)] | simp)+

section \<open>Memberships\<close>

text \<open>\<open>hex::encode\<close> is injective and its output has no slash.\<close>

definition hex_ok :: "(string \<Rightarrow> string) \<Rightarrow> bool" where
  "hex_ok hex \<longleftrightarrow> inj hex \<and> (\<forall>i. CHR ''/'' \<notin> set (hex i))"

lemma role_key_inject:
  assumes "hex_ok hex" and "role_key hex p i = role_key hex q j"
  shows "p = q \<and> i = j"
proof -
  let ?last = "\<lambda>s. rev (takeWhile (\<lambda>x. x \<noteq> CHR ''/'') (rev s))"
  have last: "?last (role_key hex p i) = hex i" for p i
  proof -
    have "takeWhile (\<lambda>x. x \<noteq> CHR ''/'') (rev (hex i) @ CHR ''/'' # rev (''projects/'' @ p @ ''/members'')) = rev (hex i)"
      using assms(1) by (subst takeWhile_append2) (auto simp: hex_ok_def)
    then show ?thesis by (simp add: role_key_def)
  qed
  from last [of p i] last [of q j] assms(2) have "hex i = hex j" by simp
  then have "i = j" using assms(1) by (simp add: hex_ok_def inj_eq)
  then show ?thesis using assms(2) by (simp add: role_key_def)
qed

definition role_view :: "role_record codec \<Rightarrow> (string \<Rightarrow> string) \<Rightarrow> table \<Rightarrow> string \<Rightarrow> string \<rightharpoonup> role" where
  "role_view c hex T p i = (case coll_view role_collection c T (role_key hex p i) of
     Some r \<Rightarrow> if rr_active r then Some (rr_role r) else None | None \<Rightarrow> None)"

lemma role_view_upd:
  assumes "hex_ok hex" and "cd_dec c b = Inr r"
  shows "role_view c hex (T((role_collection, role_key hex p i) \<mapsto> b)) q j =
    (if q = p \<and> j = i then (if rr_active r then Some (rr_role r) else None) else role_view c hex T q j)"
  using role_key_inject [OF assms(1), of p i q j] assms(2) by (auto simp: role_view_def coll_view_upd)

text \<open>Every membership record is stored under its own key.\<close>

definition roles_ok :: "role_record codec \<Rightarrow> (string \<Rightarrow> string) \<Rightarrow> table \<Rightarrow> bool" where
  "roles_ok c hex T \<longleftrightarrow> (\<forall>k b. T (role_collection, k) = Some b \<longrightarrow>
     (\<exists>r. cd_dec c b = Inr r \<and> role_key hex (rr_project r) (rr_identity_id r) = k))"

lemma role_view_Some:
  assumes "hex_ok hex" and "roles_ok c hex T"
  shows "role_view c hex T p i = Some role \<longleftrightarrow>
    (\<exists>k b r. T (role_collection, k) = Some b \<and> cd_dec c b = Inr r \<and> rr_project r = p \<and> rr_identity_id r = i
       \<and> rr_active r \<and> rr_role r = role)"
proof
  assume "role_view c hex T p i = Some role"
  then obtain b r where r: "T (role_collection, role_key hex p i) = Some b" "cd_dec c b = Inr r"
      "rr_active r" "rr_role r = role"
    by (auto simp: role_view_def coll_view_Some split: option.splits if_splits)
  then have "role_key hex (rr_project r) (rr_identity_id r) = role_key hex p i"
    using assms(2) by (fastforce simp: roles_ok_def)
  with r show "\<exists>k b r. T (role_collection, k) = Some b \<and> cd_dec c b = Inr r \<and> rr_project r = p
      \<and> rr_identity_id r = i \<and> rr_active r \<and> rr_role r = role"
    using role_key_inject [OF assms(1)] by blast
next
  assume "\<exists>k b r. T (role_collection, k) = Some b \<and> cd_dec c b = Inr r \<and> rr_project r = p
      \<and> rr_identity_id r = i \<and> rr_active r \<and> rr_role r = role"
  then obtain k b r where r: "T (role_collection, k) = Some b" "cd_dec c b = Inr r" "rr_project r = p"
      "rr_identity_id r = i" "rr_active r" "rr_role r = role" by blast
  then have "k = role_key hex p i" using assms(2) by (fastforce simp: roles_ok_def)
  with r show "role_view c hex T p i = Some role" by (simp add: role_view_def coll_view_def)
qed

definition member_of :: "role_record codec \<Rightarrow> string \<Rightarrow> bytes \<Rightarrow> (string \<times> role) option" where
  "member_of c p b = (case cd_dec c b of
     Inr r \<Rightarrow> if rr_project r = p \<and> rr_active r then Some (rr_identity_id r, rr_role r) else None
   | Inl _ \<Rightarrow> None)"

lemma member_of_Some:
  "member_of c p b = Some (i, role) \<longleftrightarrow> (\<exists>r. cd_dec c b = Inr r \<and> rr_project r = p \<and> rr_identity_id r = i
     \<and> rr_active r \<and> rr_role r = role)"
  by (auto simp: member_of_def split: sum.splits)

definition own_key :: "role_record codec \<Rightarrow> (string \<Rightarrow> string) \<Rightarrow> string \<Rightarrow> bytes \<Rightarrow> bool" where
  "own_key c hex k b \<longleftrightarrow> (\<exists>r. cd_dec c b = Inr r \<and> role_key hex (rr_project r) (rr_identity_id r) = k)"

lemma decode_roles_Inr:
  "decode_roles c hex p kvs = Inr rs \<Longrightarrow>
    rs = List.map_filter (\<lambda>(k, b). member_of c p b) kvs \<and> list_all (\<lambda>(k, b). own_key c hex k b) kvs"
proof (induction c hex p kvs arbitrary: rs rule: decode_roles.induct)
  case (2 c hex p k b rest)
  obtain r rs' where r: "cd_dec c b = Inr r" "role_key hex (rr_project r) (rr_identity_id r) = k"
    and rest: "decode_roles c hex p rest = Inr rs'"
    and rs: "rs = (if rr_project r = p \<and> rr_active r then (rr_identity_id r, rr_role r) # rs' else rs')"
    using "2.prems" by (auto simp: result_simps split: if_splits)
  have "decode_role c b = Inr r" "\<not> role_key hex (rr_project r) (rr_identity_id r) \<noteq> k"
    using r by (simp_all add: result_simps)
  note IH = "2.IH" [OF this rest]
  have "member_of c p b = (if rr_project r = p \<and> rr_active r then Some (rr_identity_id r, rr_role r) else None)"
    "own_key c hex k b" using r by (simp_all add: member_of_def own_key_def)
  then show ?case using IH rs by (simp add: map_filter_simps)
qed (simp add: map_filter_simps)

lemma set_map_filter: "set (List.map_filter f xs) = {y. \<exists>x \<in> set xs. f x = Some y}"
  by (force simp: List.map_filter_def)

lemma member_key:
  assumes "list_all (\<lambda>(k, b). own_key c hex k b) kvs"
    and "(i, role) \<in> set (List.map_filter (\<lambda>(k, b). member_of c p b) kvs)"
  shows "role_key hex p i \<in> fst ` set kvs"
proof -
  obtain k b where kb: "(k, b) \<in> set kvs" "member_of c p b = Some (i, role)"
    using assms(2) by (auto simp: set_map_filter)
  then have "own_key c hex k b" using assms(1) by (auto simp: list_all_iff)
  then have "k = role_key hex p i" using kb(2) by (auto simp: own_key_def member_of_Some)
  with kb(1) show ?thesis by force
qed

lemma distinct_members:
  "distinct (map fst kvs) \<Longrightarrow> list_all (\<lambda>(k, b). own_key c hex k b) kvs \<Longrightarrow>
    distinct (map fst (List.map_filter (\<lambda>(k, b). member_of c p b) kvs))"
proof (induction kvs)
  case (Cons kb kvs)
  obtain k b where kb: "kb = (k, b)" by force
  show ?case
  proof (cases "member_of c p b")
    case (Some x)
    obtain i role where x: "x = (i, role)" by force
    have "own_key c hex k b" using Cons.prems(2) kb by simp
    then have k: "k = role_key hex p i" using Some x by (auto simp: own_key_def member_of_Some)
    have all: "list_all (\<lambda>(k, b). own_key c hex k b) kvs" using Cons.prems(2) by simp
    have "role_key hex p i \<notin> fst ` set kvs" using Cons.prems(1) kb k by simp
    then have "i \<notin> fst ` set (List.map_filter (\<lambda>(k, b). member_of c p b) kvs)"
      using member_key [OF all] by auto
    then show ?thesis using Cons.IH Cons.prems(1) all Some x kb by (simp add: map_filter_simps)
  qed (use Cons kb in \<open>simp add: map_filter_simps\<close>)
qed (simp add: map_filter_simps)

context record_db_laws
begin

lemma role_get_view:
  assumes "inv s" and "odb_role_get db c hex p who s = Inr ro"
  shows "ro = (case identity_id who of None \<Rightarrow> None | Some i \<Rightarrow> role_view c hex (tbl s) p i)"
  using assms(2) get_ok [OF assms(1)]
  by (fastforce simp: odb_role_get_def result_simps role_view_def coll_view_def split: option.splits)

text \<open>A listing returns exactly the active memberships of the project, each once.\<close>

lemma role_list_view:
  assumes "hex_ok hex" and "inv s" and "odb_role_list db c hex p s = Inr xs"
  shows "set xs = {(i, role). role_view c hex (tbl s) p i = Some role}" and "roles_ok c hex (tbl s)"
    and "distinct (map fst xs)"
proof -
  obtain kvs rs where kvs: "rdb_list db role_collection s = Inr kvs" and rs: "decode_roles c hex p kvs = Inr rs"
    and xs: "xs = sort_key fst rs"
    using assms(3) by (auto simp: odb_role_list_def result_simps)
  have ks: "set kvs = {(k, v). tbl s (role_collection, k) = Some v}" "distinct (map fst kvs)"
    using list_ok [OF assms(2) kvs] by simp_all
  have *: "rs = List.map_filter (\<lambda>(k, b). member_of c p b) kvs" "list_all (\<lambda>(k, b). own_key c hex k b) kvs"
    using decode_roles_Inr [OF rs] by blast+
  show ok: "roles_ok c hex (tbl s)" using *(2) ks(1) by (auto simp: roles_ok_def list_all_iff own_key_def)
  have "distinct (map fst rs)" using distinct_members [OF ks(2) *(2)] *(1) by simp
  then show "distinct (map fst xs)" using xs by (simp add: distinct_map)
  have "set xs = {x. \<exists>k b. tbl s (role_collection, k) = Some b \<and> member_of c p b = Some x}"
    using *(1) ks(1) xs by (auto simp: set_map_filter)
  also have "\<dots> = {(i, role). role_view c hex (tbl s) p i = Some role}"
    unfolding role_view_Some [OF assms(1) ok]
  proof (intro set_eqI)
    fix x :: "string \<times> role"
    obtain i role where x: "x = (i, role)" by force
    show "x \<in> {x. \<exists>k b. tbl s (role_collection, k) = Some b \<and> member_of c p b = Some x} \<longleftrightarrow>
        x \<in> {(i, role). \<exists>k b r. tbl s (role_collection, k) = Some b \<and> cd_dec c b = Inr r \<and> rr_project r = p
          \<and> rr_identity_id r = i \<and> rr_active r \<and> rr_role r = role}"
      unfolding x mem_Collect_eq case_prod_conv member_of_Some by blast
  qed
  finally show "set xs = {(i, role). role_view c hex (tbl s) p i = Some role}" .
qed

end

context reliable_record_db
begin

lemma role_replace_rounds_alone:
  assumes "inv s"
  shows "\<exists>t. role_replace_rounds db alone key b i (Suc left) s = (Inr (), t)
    \<and> tbl t = (tbl s)((role_collection, key) \<mapsto> b) \<and> inv t"
proof (cases "tbl s (role_collection, key)")
  case None
  then obtain t where "rdb_create db role_collection key b s = (Inr True, t)"
      "tbl t = (tbl s)((role_collection, key) \<mapsto> b)" "inv t"
    using create_succeeds [OF assms] by blast
  then show ?thesis using None by (simp add: get_eq [OF assms])
next
  case (Some v)
  then obtain t where "rdb_cas db role_collection key v b s = (Inr True, t)"
      "tbl t = (tbl s)((role_collection, key) \<mapsto> b)" "inv t"
    using cas_succeeds [OF assms] by blast
  then show ?thesis using Some by (simp add: get_eq [OF assms])
qed

lemma role_replace_alone:
  assumes "inv s" and "cd_enc c r = Inr b"
  shows "\<exists>t. role_replace db c hex alone r s = (Inr (), t)
    \<and> tbl t = (tbl s)((role_collection, role_key hex (rr_project r) (rr_identity_id r)) \<mapsto> b) \<and> inv t"
proof -
  have "encode_role c r = Inr b" using assms(2) by (simp add: result_simps)
  moreover have "max_cas_retries = Suc 7" by (simp add: max_cas_retries_def)
  ultimately show ?thesis
    using role_replace_rounds_alone [OF assms(1), of "role_key hex (rr_project r) (rr_identity_id r)" b 0 7]
    by (simp add: role_replace_def del: role_replace_rounds.simps)
qed

lemma role_set_view:
  assumes "codec_ok c" "hex_ok hex" "inv s"
    and "cd_enc c \<lparr>rr_project = p, rr_identity_id = i, rr_role = role, rr_active = True\<rparr> = Inr b"
  shows "\<exists>t. odb_role_set db c hex alone p i role s = (Inr (), t) \<and> inv t
    \<and> (\<forall>q j. role_view c hex (tbl t) q j = (if q = p \<and> j = i then Some role else role_view c hex (tbl s) q j))
    \<and> (\<forall>coll k. coll \<noteq> role_collection \<longrightarrow> tbl t (coll, k) = tbl s (coll, k))"
proof -
  obtain t where t: "odb_role_set db c hex alone p i role s = (Inr (), t)" "inv t"
      "tbl t = (tbl s)((role_collection, role_key hex p i) \<mapsto> b)"
    using role_replace_alone [OF assms(3,4), of hex] by (auto simp: odb_role_set_def)
  then show ?thesis
    using role_view_upd [OF assms(2) codec_okD [OF assms(1,4)]] by auto
qed

text \<open>
  A removal deactivates the stored membership; encoding a deactivated record does not fail.
\<close>

lemma role_remove_view:
  assumes "codec_ok c" "hex_ok hex" "inv s" "roles_ok c hex (tbl s)"
    and enc: "\<And>role. \<exists>b. cd_enc c \<lparr>rr_project = p, rr_identity_id = i, rr_role = role, rr_active = False\<rparr> = Inr b"
  shows "\<exists>t. odb_role_remove db c hex alone p i s = (Inr (), t) \<and> inv t
    \<and> (\<forall>q j. role_view c hex (tbl t) q j = (if q = p \<and> j = i then None else role_view c hex (tbl s) q j))"
proof (cases "tbl s (role_collection, role_key hex p i)")
  case None
  then show ?thesis
    using assms(3) by (intro exI [of _ s])
      (simp add: odb_role_remove_def get_eq [OF assms(3)] role_view_def coll_view_absent)
next
  case (Some bytes)
  then obtain r where dec: "cd_dec c bytes = Inr r"
    and key: "role_key hex (rr_project r) (rr_identity_id r) = role_key hex p i"
    using assms(4) unfolding roles_ok_def by blast
  note r = dec role_key_inject [OF assms(2) key, THEN conjunct1] role_key_inject [OF assms(2) key, THEN conjunct2]
  show ?thesis
  proof (cases "rr_active r")
    case True
    let ?r = "r\<lparr>rr_active := False\<rparr>"
    have "?r = \<lparr>rr_project = p, rr_identity_id = i, rr_role = rr_role r, rr_active = False\<rparr>" using r by simp
    then obtain b where b: "cd_enc c ?r = Inr b" using enc [of "rr_role r"] by auto
    obtain t where t: "role_replace db c hex alone ?r s = (Inr (), t)" "inv t"
        "tbl t = (tbl s)((role_collection, role_key hex p i) \<mapsto> b)"
      using role_replace_alone [OF assms(3) b, of hex] r by auto
    have "decode_role c bytes = Inr r" using r by (simp add: result_simps)
    then have "odb_role_remove db c hex alone p i s = (Inr (), t)"
      using t(1) True Some by (simp add: odb_role_remove_def get_eq [OF assms(3)])
    moreover have "role_view c hex (tbl t) q j = (if q = p \<and> j = i then None else role_view c hex (tbl s) q j)" for q j
      using role_view_upd [OF assms(2) codec_okD [OF assms(1) b], of "tbl s" p i q j] t(3) by simp
    ultimately show ?thesis using t(2) by blast
  next
    case False
    have "decode_role c bytes = Inr r" using r by (simp add: result_simps)
    moreover have "role_view c hex (tbl s) p i = None" using Some r False by (simp add: role_view_def coll_view_def)
    ultimately show ?thesis using False Some assms(3)
      by (intro exI [of _ s]) (simp add: odb_role_remove_def get_eq [OF assms(3)])
  qed
qed

end

section \<open>Creation is atomic\<close>

lemma encode_members_Inr:
  "encode_members c hex p ms = Inr bs \<Longrightarrow> (i, role) \<in> set ms \<Longrightarrow>
    \<exists>b. (role_collection, role_key hex p i, b) \<in> set bs
      \<and> cd_enc c \<lparr>rr_project = p, rr_identity_id = i, rr_role = role, rr_active = True\<rparr> = Inr b"
proof (induction ms arbitrary: bs)
  case (Cons m ms)
  obtain j r where m: "m = (j, r)" by force
  obtain b bs' where "cd_enc c \<lparr>rr_project = p, rr_identity_id = j, rr_role = r, rr_active = True\<rparr> = Inr b"
    and rest: "encode_members c hex p ms = Inr bs'" and "bs = (role_collection, role_key hex p j, b) # bs'"
    using Cons.prems(1) m by (auto simp: Let_def result_simps)
  then show ?case using Cons.IH [OF rest] Cons.prems(2) m by auto
qed simp

lemma batch_table_mem:
  assumes "distinct (batch_keys rs)" and "(coll, k, b) \<in> set rs"
  shows "batch_table rs T (coll, k) = Some b"
proof -
  let ?kvs = "map (\<lambda>(c, k, v). ((c, k), v)) rs"
  have "map fst ?kvs = batch_keys rs" by (auto simp: batch_keys_def)
  moreover have "((coll, k), b) \<in> set ?kvs" using assms(2) by force
  ultimately have "map_of ?kvs (coll, k) = Some b" using assms(1) by (simp add: map_of_eq_Some_iff)
  then show ?thesis by (simp add: batch_table_def)
qed

context record_db_laws
begin

lemma create_with_members_Inr:
  assumes "codec_ok c" "codec_ok rc" "inv s"
    and "create_with_members db c rc hex meta members s = (Inr m, t)"
  shows "m = meta\<lparr>pm_etag := ''v1''\<rparr> \<and> tbl s (project_collection, pm_name meta) = None
    \<and> project_view c (tbl t) (pm_name meta) = Some m
    \<and> (\<forall>i role. (i, role) \<in> set members \<longrightarrow> role_view rc hex (tbl t) (pm_name meta) i = Some role)
    \<and> (\<exists>i. role_view rc hex (tbl t) (pm_name meta) i = Some Owner) \<and> inv t"
proof -
  let ?m = "meta\<lparr>pm_etag := ''v1''\<rparr>"
  obtain pb rbs where owner: "\<exists>i. (i, Owner) \<in> set members" and m: "m = ?m" and enc: "cd_enc c ?m = Inr pb"
    and rbs: "encode_members rc hex (pm_name meta) members = Inr rbs"
    and db: "rdb_create_many db ((project_collection, pm_name meta, pb) # rbs) s = (Inr True, t)"
    using assms(4) by (auto simp: create_with_members_def Let_def result_simps list_ex_iff split: if_splits)
  let ?rs = "(project_collection, pm_name meta, pb) # rbs"
  have new: "distinct (batch_keys ?rs)" "\<forall>ck \<in> set (batch_keys ?rs). tbl s ck = None"
    and t: "tbl t = batch_table ?rs (tbl s)"
    using create_many_ok [OF assms(3) db] by auto
  have "project_view c (tbl t) (pm_name meta) = Some m"
    using batch_table_mem [OF new(1), of project_collection "pm_name meta" pb] codec_okD [OF assms(1) enc] t m
    by (simp add: coll_view_def)
  moreover have role: "role_view rc hex (tbl t) (pm_name meta) i = Some role" if mem: "(i, role) \<in> set members" for i role
  proof -
    obtain b where b: "(role_collection, role_key hex (pm_name meta) i, b) \<in> set rbs"
        "cd_enc rc \<lparr>rr_project = pm_name meta, rr_identity_id = i, rr_role = role, rr_active = True\<rparr> = Inr b"
      using encode_members_Inr [OF rbs mem] by blast
    then have "tbl t (role_collection, role_key hex (pm_name meta) i) = Some b"
      using batch_table_mem [OF new(1)] t by simp
    then show ?thesis using codec_okD [OF assms(2) b(2)] by (simp add: role_view_def coll_view_def)
  qed
  moreover have "tbl s (project_collection, pm_name meta) = None" using new(2) by (simp add: batch_keys_def)
  moreover have "inv t" using inv_create_many [OF assms(3), of ?rs] db by simp
  ultimately show ?thesis using owner m by blast
qed

lemma create_with_members_Inl:
  assumes "inv s" and "create_with_members db c rc hex meta members s = (Inl e, t)"
  shows "tbl t = tbl s \<and> inv t"
proof (cases "t = s")
  case False
  then obtain rs res where db: "rdb_create_many db rs s = (res, t)" and "res = Inr False \<or> (\<exists>e. res = Inl e)"
    using assms(2) by (auto simp: create_with_members_def Let_def result_simps split: if_splits)
  then show ?thesis
    using create_many_ok [OF assms(1), of rs False] create_many_fail [OF assms(1), of rs]
      inv_create_many [OF assms(1), of rs] by auto
qed (use assms in simp)

end

end
