(* ===== verification/Repository.thy ===== *)
theory Repository
  imports Access_Store
begin

text \<open>
  Repository resources: the policy configuration of \<open>config.rs\<close>, the protected-bookmark matcher
  of \<open>bookmark.rs\<close>, and the stores and argument checks of \<open>repository.rs\<close>.  The operations
  of \<open>Core\<close> on repositories are in theory \<open>Core\<close>.
\<close>

section \<open>Configuration\<close>

record review_policy =
  rp_required_approvals :: nat
  rp_require_change_record :: bool

record serving_policy =
  sv_source :: bool
  sv_descriptors :: bool
  sv_generated_code :: bool

record repo_config =
  rc_default_bookmark :: string
  rc_compatibility_direction :: compatibility_direction
  rc_protected_bookmarks :: "string list"
  rc_review_policy :: review_policy
  rc_serving_policy :: serving_policy

definition serving_policy_default :: serving_policy where
  "serving_policy_default = \<lparr>sv_source = True, sv_descriptors = True, sv_generated_code = True\<rparr>"

definition repo_config_default :: repo_config where
  "repo_config_default = \<lparr>rc_default_bookmark = ''main'', rc_compatibility_direction = Full,
     rc_protected_bookmarks = [''main''],
     rc_review_policy = \<lparr>rp_required_approvals = 0, rp_require_change_record = False\<rparr>,
     rc_serving_policy = serving_policy_default\<rparr>"

definition compat_rules :: "repo_config \<Rightarrow> compatibility_rules" where
  "compat_rules cfg = \<lparr>cr_direction = rc_compatibility_direction cfg,
     cr_disabled = (rc_compatibility_direction cfg = Disabled)\<rparr>"

text \<open>\<open>RepoConfigStore\<close>: startup configuration by project and repository.\<close>

type_synonym repo_configs = "(string \<times> string, repo_config) btree"

definition config_set :: "string \<Rightarrow> string \<Rightarrow> repo_config \<Rightarrow> repo_configs \<Rightarrow> repo_configs" where
  "config_set project repo cfg m = bt_insert (project, repo) cfg m"

definition config_get :: "string \<Rightarrow> string \<Rightarrow> repo_configs \<Rightarrow> repo_config" where
  "config_get project repo m = (case bt_get m (project, repo) of Some cfg \<Rightarrow> cfg | None \<Rightarrow> repo_config_default)"

definition config_entries :: "repo_configs \<Rightarrow> (string \<times> string \<times> repo_config) list" where
  "config_entries m = sort_key (\<lambda>(p, r, _). (p, r)) (map (\<lambda>((p, r), cfg). (p, r, cfg)) m)"

section \<open>Protected bookmarks\<close>

definition matches_pattern :: "string \<Rightarrow> string \<Rightarrow> bool" where
  "matches_pattern name pattern =
     (if pattern = ''*'' then True
      else case strip_suffix_char (CHR ''*'') pattern of
        Some p \<Rightarrow> starts_with name p
      | None \<Rightarrow> name = pattern)"

definition is_protected :: "string \<Rightarrow> string list \<Rightarrow> bool" where
  "is_protected name patterns = list_ex (matches_pattern name) patterns"

section \<open>Repositories and errors\<close>

record repository =
  re_resource_name :: string
  re_project :: string
  re_name :: string
  re_config :: repo_config
  re_created_by :: string
  re_etag :: string
  re_create_time :: int
  re_update_time :: int
  re_archived :: bool
  re_archive_time :: "int option"

definition repo_resource_name :: "string \<Rightarrow> string \<Rightarrow> string" where
  "repo_resource_name project repo = ''projects/'' @ project @ ''/repos/'' @ repo"

definition repository_new :: "string \<Rightarrow> string \<Rightarrow> repo_config \<Rightarrow> string \<Rightarrow> int \<Rightarrow> repository" where
  "repository_new project name cfg created_by now = \<lparr>
     re_resource_name = ''projects/'' @ project @ ''/repos/'' @ name, re_project = project, re_name = name,
     re_config = cfg, re_created_by = created_by, re_etag = [], re_create_time = now, re_update_time = now,
     re_archived = False, re_archive_time = None\<rparr>"

record create_repository_input =
  ci_project :: string
  ci_name :: string
  ci_config :: repo_config

record repository_update =
  ru_default_bookmark :: "string option"
  ru_compatibility_direction :: "compatibility_direction option"
  ru_protected_bookmarks :: "string list option"
  ru_review_policy :: "review_policy option"
  ru_serving_policy :: "serving_policy option"

definition repository_update_is_empty :: "repository_update \<Rightarrow> bool" where
  "repository_update_is_empty u \<longleftrightarrow> ru_default_bookmark u = None \<and> ru_compatibility_direction u = None
     \<and> ru_protected_bookmarks u = None \<and> ru_review_policy u = None \<and> ru_serving_policy u = None"

datatype repo_store_error =
    RsAlreadyExists string
  | RsNotFound string
  | RsEtagMismatch string string string
  | RsBackend message

datatype repository_error =
    RInvalidArgument message
  | RFailedPrecondition message
  | RStore repo_store_error

record 's repository_store =
  rp_create :: "repository \<Rightarrow> 's \<Rightarrow> (repo_store_error + repository) \<times> 's"
  rp_get :: "string \<Rightarrow> string \<Rightarrow> 's \<Rightarrow> repo_store_error + repository option"
  rp_list :: "string \<Rightarrow> 's \<Rightarrow> repo_store_error + repository list"
  rp_replace :: "('s \<Rightarrow> 's) \<Rightarrow> string \<Rightarrow> repository \<Rightarrow> 's \<Rightarrow> (repo_store_error + repository) \<times> 's"

section \<open>Argument checks\<close>

definition max_required_approvals :: nat where "max_required_approvals = 20"

definition repo_validate_segment :: "string \<Rightarrow> string \<Rightarrow> repository_error + unit" where
  "repo_validate_segment label v =
     (if v = [] \<or> contains_char (CHR ''/'') v \<or> has_control v \<or> length v > 128
      then Inl (RInvalidArgument (Msg ''{} must be a 1-128 character resource path segment without control characters'' [label]))
      else Inr ())"

definition validate_ref_name :: "string \<Rightarrow> string \<Rightarrow> repository_error + unit" where
  "validate_ref_name label v =
     (if trim v = [] \<or> has_control v \<or> length v > 255
      then Inl (RInvalidArgument (Msg ''{} must be a non-empty value of at most 255 characters without control characters'' [label]))
      else Inr ())"

fun validate_patterns :: "string list \<Rightarrow> string list \<Rightarrow> repository_error + unit" where
  "validate_patterns seen [] = Inr ()"
| "validate_patterns seen (p # ps) =
     and_then (validate_ref_name ''protected branch pattern'' p) (\<lambda>_.
     if contains_char (CHR ''*'') p \<and> \<not> ends_with p ''/*''
     then Inl (RInvalidArgument (Msg ''protected branch pattern {} may use '*' only as a trailing slash and star'' [p]))
     else if p \<in> set seen
     then Inl (RInvalidArgument (Msg ''duplicate protected branch pattern {}'' [p]))
     else validate_patterns (p # seen) ps)"

definition validate_config :: "repo_config \<Rightarrow> repository_error + unit" where
  "validate_config cfg =
     and_then (validate_ref_name ''default_branch'' (rc_default_bookmark cfg)) (\<lambda>_.
     if length (rc_protected_bookmarks cfg) > 100
     then Inl (RInvalidArgument (Msg ''protected_branches must contain at most 100 entries'' []))
     else and_then (validate_patterns [] (rc_protected_bookmarks cfg)) (\<lambda>_.
       if rp_required_approvals (rc_review_policy cfg) > max_required_approvals
       then Inl (RInvalidArgument (Msg ''required_approvals must be at most {}'' [show_nat max_required_approvals]))
       else Inr ()))"

definition validate_expected_etag :: "string \<Rightarrow> repository_error + unit" where
  "validate_expected_etag v =
     (if v = [] then Inl (RInvalidArgument (Msg ''etag must not be empty'' [])) else Inr ())"

definition require_etag :: "repository \<Rightarrow> string \<Rightarrow> repo_store_error + unit" where
  "require_etag current expected =
     (if re_etag current \<noteq> expected
      then Inl (RsEtagMismatch (re_resource_name current) expected (re_etag current)) else Inr ())"

definition repo_next_etag :: "string \<Rightarrow> repo_store_error + string" where
  "repo_next_etag e = ok_or (RsBackend (Msg ''invalid stored repository etag: {}'' [e])) (next_etag e)"

definition repo_now :: "string + nat \<Rightarrow> repository_error + int" where
  "repo_now since_epoch =
     and_then (map_err (\<lambda>e. RFailedPrecondition (Msg ''{}'' [e])) since_epoch) (\<lambda>millis.
     if int millis \<le> i64_max then Inr (int millis)
     else Inl (RFailedPrecondition (Msg ''system timestamp exceeds i64 milliseconds'' [])))"

section \<open>The memory store\<close>

type_synonym repo_table = "(string, repository) btree"

definition mem_repo_create :: "repository \<Rightarrow> repo_table \<Rightarrow> (repo_store_error + repository) \<times> repo_table" where
  "mem_repo_create r s =
     (if bt_mem (re_resource_name r) s then (Inl (RsAlreadyExists (re_resource_name r)), s)
      else let r = r\<lparr>re_etag := ''v1''\<rparr> in (Inr r, bt_insert (re_resource_name r) r s))"

definition mem_repo_get :: "string \<Rightarrow> string \<Rightarrow> repo_table \<Rightarrow> repo_store_error + repository option" where
  "mem_repo_get project repo s = Inr (bt_get s (repo_resource_name project repo))"

definition mem_repo_list :: "string \<Rightarrow> repo_table \<Rightarrow> repo_store_error + repository list" where
  "mem_repo_list project s = Inr (sort_key re_name (filter (\<lambda>r. re_project r = project) (map snd s)))"

definition mem_repo_replace ::
  "(repo_table \<Rightarrow> repo_table) \<Rightarrow> string \<Rightarrow> repository \<Rightarrow> repo_table \<Rightarrow> (repo_store_error + repository) \<times> repo_table" where
  "mem_repo_replace env expected r s0 =
     (let s = env s0 in
      and_then_st (ok_or (RsNotFound (re_resource_name r)) (bt_get s (re_resource_name r))) s (\<lambda>current.
      and_then_st (require_etag current expected) s (\<lambda>_.
      and_then_st (repo_next_etag (re_etag current)) s (\<lambda>e.
      let r = r\<lparr>re_etag := e\<rparr> in (Inr r, bt_insert (re_resource_name r) r s)))))"

definition memory_repository_store :: "repo_table repository_store" where
  "memory_repository_store = \<lparr>rp_create = mem_repo_create, rp_get = mem_repo_get, rp_list = mem_repo_list,
     rp_replace = mem_repo_replace\<rparr>"

section \<open>The durable store\<close>

definition repository_collection :: string where "repository_collection = ''schemahub.repositories.v1''"

definition rp_encode :: "repository codec \<Rightarrow> repository \<Rightarrow> repo_store_error + bytes" where
  "rp_encode c r = map_err (\<lambda>e. RsBackend (Msg ''encode repository: {}'' [e])) (cd_enc c r)"

definition rp_decode :: "repository codec \<Rightarrow> bytes \<Rightarrow> repo_store_error + repository" where
  "rp_decode c b = map_err (\<lambda>e. RsBackend (Msg ''decode repository: {}'' [e])) (cd_dec c b)"

definition rp_map_db :: "db_error \<Rightarrow> repo_store_error" where
  "rp_map_db e = RsBackend (Msg ''{}'' [case e of DbNotFound \<Rightarrow> ''object not found''
     | DbBackend m \<Rightarrow> ''database error: '' @ m])"

definition odb_repo_create ::
  "'s record_db \<Rightarrow> repository codec \<Rightarrow> repository \<Rightarrow> 's \<Rightarrow> (repo_store_error + repository) \<times> 's" where
  "odb_repo_create db c r s =
     (let r = r\<lparr>re_etag := ''v1''\<rparr> in
      and_then_st (rp_encode c r) s (\<lambda>bytes.
      case rdb_create db repository_collection (re_resource_name r) bytes s of (res, s) \<Rightarrow>
      and_then_st (map_err rp_map_db res) s (\<lambda>inserted.
      if \<not> inserted then (Inl (RsAlreadyExists (re_resource_name r)), s) else (Inr r, s))))"

definition odb_repo_read ::
  "'s record_db \<Rightarrow> repository codec \<Rightarrow> string \<Rightarrow> 's \<Rightarrow> repo_store_error + repository option" where
  "odb_repo_read db c n s =
     and_then (map_err rp_map_db (rdb_get db repository_collection n s)) (\<lambda>b.
     case b of None \<Rightarrow> Inr None | Some bytes \<Rightarrow> and_then (rp_decode c bytes) (\<lambda>r. Inr (Some r)))"

definition odb_repo_get ::
  "'s record_db \<Rightarrow> repository codec \<Rightarrow> string \<Rightarrow> string \<Rightarrow> 's \<Rightarrow> repo_store_error + repository option" where
  "odb_repo_get db c project repo s = odb_repo_read db c (repo_resource_name project repo) s"

fun decode_repos ::
  "repository codec \<Rightarrow> string \<Rightarrow> (string \<times> bytes) list \<Rightarrow> repo_store_error + repository list" where
  "decode_repos c project [] = Inr []"
| "decode_repos c project ((k, b) # rest) =
     and_then (rp_decode c b) (\<lambda>r.
     if re_resource_name r \<noteq> k
     then Inl (RsBackend (Msg ''repository key/name mismatch: key={}, name={}'' [k, re_resource_name r]))
     else and_then (decode_repos c project rest) (\<lambda>rs.
       Inr (if re_project r = project then r # rs else rs)))"

definition odb_repo_list ::
  "'s record_db \<Rightarrow> repository codec \<Rightarrow> string \<Rightarrow> 's \<Rightarrow> repo_store_error + repository list" where
  "odb_repo_list db c project s =
     and_then (map_err rp_map_db (rdb_list db repository_collection s)) (\<lambda>kvs.
     and_then (decode_repos c project kvs) (\<lambda>rs. Inr (sort_key re_name rs)))"

definition odb_repo_replace ::
  "'s record_db \<Rightarrow> repository codec \<Rightarrow> ('s \<Rightarrow> 's) \<Rightarrow> string \<Rightarrow> repository \<Rightarrow> 's
    \<Rightarrow> (repo_store_error + repository) \<times> 's" where
  "odb_repo_replace db c env expected r s =
     and_then_st (and_then (map_err rp_map_db (rdb_get db repository_collection (re_resource_name r) s))
       (ok_or (RsNotFound (re_resource_name r)))) s (\<lambda>current_bytes.
     and_then_st (rp_decode c current_bytes) s (\<lambda>current.
     and_then_st (require_etag current expected) s (\<lambda>_.
     and_then_st (repo_next_etag (re_etag current)) s (\<lambda>e.
     let r = r\<lparr>re_etag := e\<rparr> in
     and_then_st (rp_encode c r) s (\<lambda>replacement.
     case rdb_cas db repository_collection (re_resource_name r) current_bytes replacement (env s) of (res, s) \<Rightarrow>
     and_then_st (map_err rp_map_db res) s (\<lambda>replaced.
     if replaced then (Inr r, s)
     else and_then_st (and_then (and_then
         (map_err rp_map_db (rdb_get db repository_collection (re_resource_name r) s))
         (ok_or (RsNotFound (re_resource_name r)))) (rp_decode c)) s (\<lambda>latest.
       (Inl (RsEtagMismatch (re_resource_name r) expected (re_etag latest)), s))))))))"

definition objdb_repository_store :: "'s record_db \<Rightarrow> repository codec \<Rightarrow> 's repository_store" where
  "objdb_repository_store db c = \<lparr>rp_create = odb_repo_create db c, rp_get = odb_repo_get db c,
     rp_list = odb_repo_list db c, rp_replace = odb_repo_replace db c\<rparr>"

section \<open>Both stores are versioned\<close>

abbreviation repo_view :: "repository codec \<Rightarrow> table \<Rightarrow> string \<rightharpoonup> repository" where
  "repo_view \<equiv> coll_view repository_collection"

lemma repo_checks_Inr [result_simps]:
  "require_etag r e = Inr u \<longleftrightarrow> re_etag r = e" "repo_next_etag e = Inr f \<longleftrightarrow> next_etag e = Some f"
  "rp_encode c r = Inr b \<longleftrightarrow> cd_enc c r = Inr b" "rp_decode c b = Inr r \<longleftrightarrow> cd_dec c b = Inr r"
  by (simp_all add: require_etag_def repo_next_etag_def rp_encode_def rp_decode_def map_err_Inr ok_or_Inr)

lemma mem_repo_replace_Inr:
  assumes "mem_repo_replace env e r s = (Inr r', t)"
  shows "\<exists>c. bt_get (env s) (re_resource_name r) = Some c \<and> re_etag c = e"
    and "next_etag e = Some (re_etag r')" and "r' = r\<lparr>re_etag := re_etag r'\<rparr>"
    and "t = bt_insert (re_resource_name r) r' (env s)"
  using assms by (auto simp: mem_repo_replace_def Let_def result_simps)

lemma mem_repo_replace_Inl: "mem_repo_replace env e r s = (Inl x, t) \<Longrightarrow> t = env s"
  by (auto simp: mem_repo_replace_def Let_def result_simps)

interpretation mrs: versioned_store re_resource_name re_etag "\<lambda>e r. r\<lparr>re_etag := e\<rparr>"
  "\<lambda>n s. Inr (bt_get s n)" mem_repo_replace bt_get bt_ok mem_repo_create
proof unfold_locales
  fix s env e r r' t
  assume "bt_ok s" "bt_ok (env s)" and *: "mem_repo_replace env e r s = (Inr r', t)"
  then show "(\<exists>c. bt_get (env s) (re_resource_name r) = Some c \<and> re_etag c = e)
      \<and> next_etag e = Some (re_etag r') \<and> r' = r\<lparr>re_etag := re_etag r'\<rparr>
      \<and> bt_get t = (bt_get (env s))(re_resource_name r \<mapsto> r') \<and> bt_ok t"
    using mem_repo_replace_Inr [OF *] by (simp only: bt_get_insert bt_ok_insert simp_thms)
qed (auto simp: mem_repo_create_def bt_mem_iff Let_def dest: mem_repo_replace_Inl split: if_splits)

context record_db_laws
begin

lemma repo_read_view:
  assumes "inv s" and "odb_repo_read db c n s = Inr ro"
  shows "ro = repo_view c (tbl s) n"
  using assms get_ok [OF assms(1)]
  by (fastforce simp: odb_repo_read_def result_simps coll_view_def split: option.splits)

lemma repo_create_Inr:
  assumes "codec_ok c" and "inv s" and "odb_repo_create db c r s = (Inr r', t)"
  shows "repo_view c (tbl s) (re_resource_name r) = None \<and> r' = r\<lparr>re_etag := ''v1''\<rparr>
    \<and> repo_view c (tbl t) = (repo_view c (tbl s))(re_resource_name r \<mapsto> r') \<and> inv t"
proof -
  obtain b where enc: "cd_enc c (r\<lparr>re_etag := ''v1''\<rparr>) = Inr b"
    and db: "rdb_create db repository_collection (re_resource_name r) b s = (Inr True, t)"
    and r': "r' = r\<lparr>re_etag := ''v1''\<rparr>"
    using assms(3) by (auto simp: odb_repo_create_def Let_def result_simps split: if_splits)
  have "cd_dec c b = Inr r'" using codec_okD [OF assms(1) enc] r' by simp
  then show ?thesis
    using create_ok [OF assms(2) db] inv_create [OF assms(2), of repository_collection "re_resource_name r" b] db r'
    by (simp add: coll_view_upd) (simp add: coll_view_def)
qed

lemma repo_create_Inl:
  assumes "inv s" and "odb_repo_create db c r s = (Inl x, t)"
  shows "repo_view c (tbl t) = repo_view c (tbl s) \<and> inv t"
proof (cases "t = s")
  case False
  then obtain b res where "rdb_create db repository_collection (re_resource_name r) b s = (res, t)"
    and "res = Inr False \<or> (\<exists>e. res = Inl e)"
    using assms(2) by (auto simp: odb_repo_create_def Let_def result_simps split: if_splits)
  then show ?thesis
    using create_ok [OF assms(1), of _ _ b False] create_fail [OF assms(1), of _ _ b]
      inv_create [OF assms(1), of repository_collection "re_resource_name r" b] by auto
qed (use assms in simp)

lemma repo_replace_Inr:
  assumes ok: "codec_ok c" and inv: "inv s" "inv (env s)"
    and rep: "odb_repo_replace db c env e r s = (Inr r', t)"
  shows "(\<exists>d. repo_view c (tbl (env s)) (re_resource_name r) = Some d \<and> re_etag d = e)
    \<and> next_etag e = Some (re_etag r') \<and> r' = r\<lparr>re_etag := re_etag r'\<rparr>
    \<and> repo_view c (tbl t) = (repo_view c (tbl (env s)))(re_resource_name r \<mapsto> r') \<and> inv t"
proof -
  obtain cb cur b where dec: "cd_dec c cb = Inr cur" and et: "re_etag cur = e" "next_etag e = Some (re_etag r')"
    and r': "r' = r\<lparr>re_etag := re_etag r'\<rparr>" and enc: "cd_enc c r' = Inr b"
    and cas: "rdb_cas db repository_collection (re_resource_name r) cb b (env s) = (Inr True, t)"
    using rep by (auto simp: odb_repo_replace_def Let_def result_simps split: if_splits)
  have "cd_dec c b = Inr r'" using ok enc by (rule codec_okD)
  moreover have "tbl (env s) (repository_collection, re_resource_name r) = Some cb"
    and "tbl t = (tbl (env s))((repository_collection, re_resource_name r) \<mapsto> b)"
    using cas_ok [OF inv(2) cas] by auto
  moreover have "inv t"
    using inv_cas [OF inv(2), of repository_collection "re_resource_name r" cb b] cas by simp
  ultimately show ?thesis using dec et r' by (simp add: coll_view_upd) (simp add: coll_view_def)
qed

lemma repo_replace_Inl:
  assumes inv: "inv s" "inv (env s)" and rep: "odb_repo_replace db c env e r s = (Inl x, t)"
  shows "(repo_view c (tbl t) = repo_view c (tbl s) \<or> repo_view c (tbl t) = repo_view c (tbl (env s))) \<and> inv t"
proof (cases "t = s")
  case False
  then obtain cb b res where cas: "rdb_cas db repository_collection (re_resource_name r) cb b (env s) = (res, t)"
    and "res = Inr False \<or> (\<exists>e. res = Inl e)"
    using rep by (auto simp: odb_repo_replace_def Let_def result_simps split: if_splits)
  then show ?thesis
    using cas_ok [OF inv(2), of _ _ cb b False] cas_fail [OF inv(2), of _ _ cb b]
      inv_cas [OF inv(2), of repository_collection "re_resource_name r" cb b] by auto
qed (use inv in simp)

end

lemma objdb_repo_versioned:
  assumes "record_db_laws db tbl ok" and "codec_ok c"
  shows "versioned_store re_resource_name re_etag (\<lambda>e r. r\<lparr>re_etag := e\<rparr>) (odb_repo_read db c)
    (odb_repo_replace db c) (\<lambda>s. repo_view c (tbl s)) ok (odb_repo_create db c)"
  by (intro versioned_store.intro cas_store.intro versioned_store_axioms.intro)
    (erule (1) record_db_laws.repo_read_view [OF assms(1)]
      record_db_laws.repo_create_Inr [OF assms] record_db_laws.repo_create_Inl [OF assms(1)]
      record_db_laws.repo_replace_Inr [OF assms] record_db_laws.repo_replace_Inl [OF assms(1)] | simp)+

end
