(* ===== verification/Core_Error.thy ===== *)
theory Core_Error
  imports Repository Change_Ledger
begin

text \<open>
  The errors the orchestration layer surfaces (\<open>error.rs\<close>), with the compilers' errors of
  \<open>schemahub-types\<close> (\<open>errors.rs\<close>), the repository layer's errors (\<open>schemahub-jj\<close>) and the idempotency errors it wraps, and the conversions
  the operator \<open>?\<close> applies to the stores' errors.
\<close>

datatype parse_error = SyntaxError nat string | UnsupportedVersion string | ParseOther string

datatype print_error = PrintMalformedBlob string | PrintOther string

datatype mutation_error =
    MutMalformedBlob string
  | DeclarationNotFound string
  | MutFieldNotFound (mfn_declaration: string) (mfn_field: string)
  | FieldNumberConflict nat
  | FieldNumberReserved nat
  | InvalidOperation message
  | UnsupportedInV1
  | InvalidOperationBytes string

datatype read_error =
    ReadMalformedBlob string
  | ReadNotFound string
  | ReadFieldNotFound string
  | NotATypeReference string
  | AmbiguousTypeReference string

datatype jj_error =
    JObjectDb db_error
  | JObjectNotFound
  | JDeclNotFound string
  | JSchemaNotFound string
  | JBookmarkNotFound string
  | JBookmarkExists string
  | JTagNotFound string
  | JTagExists string
  | JBadRef string
  | JNothingToUndo
  | JNotConflicted string
  | JCorrupt string
  | JOther string

datatype idempotency_error =
    IdInvalidArgument message
  | IdInProgress string
  | IdKeyReuse string
  | IdCapacity
  | IdBackend message

type_synonym violation = "message compatibility_violation"

datatype core_error =
    CInvalidArgument message
  | CAlreadyExists message
  | CFailedPrecondition message
  | CResourceExhausted message
  | CUnknownFormat string
  | CUndetectableFormat string
  | CJj jj_error
  | CAuthn authn_error
  | CAuthz "access_store_error authz_error"
  | CMutation mutation_error
  | CParse parse_error
  | CPrint print_error
  | CRead read_error
  | CChangeLedger ledger_error
  | CRepository repository_error
  | CAccessStore access_store_error
  | CIdempotency idempotency_error
  | CIncompatible "violation list"
  | CLimitExceeded message
  | CEmptyTransaction
  | CMixedTransaction message
  | CTransactionDeadlineExceeded
  | COther message

text \<open>\<open>?\<close> on results of the stores, threading the state.\<close>

definition access_result :: "(access_store_error + 'a) \<times> 's \<Rightarrow> (core_error + 'a) \<times> 's" where
  "access_result x = (case x of (r, s) \<Rightarrow> (map_err CAccessStore r, s))"

definition repo_result :: "(repo_store_error + 'a) \<times> 's \<Rightarrow> (core_error + 'a) \<times> 's" where
  "repo_result x = (case x of (r, s) \<Rightarrow> (map_err (\<lambda>e. CRepository (RStore e)) r, s))"

lemma access_result_iff [result_simps]:
  "access_result x = (Inr r, t) \<longleftrightarrow> x = (Inr r, t)"
  "access_result x = (Inl e, t) \<longleftrightarrow> (\<exists>d. x = (Inl d, t) \<and> e = CAccessStore d)"
  by (cases x; auto simp: access_result_def map_err_Inr map_err_Inl)+

lemma repo_result_iff [result_simps]:
  "repo_result x = (Inr r, t) \<longleftrightarrow> x = (Inr r, t)"
  "repo_result x = (Inl e, t) \<longleftrightarrow> (\<exists>d. x = (Inl d, t) \<and> e = CRepository (RStore d))"
  by (cases x; auto simp: repo_result_def map_err_Inr map_err_Inl)+

end
