(* ===== verification/Projects.thy ===== *)
theory Projects
  imports Core_Error
begin

text \<open>
  Authentication and authorization (\<open>auth.rs\<close>, \<open>auth_impls.rs\<close>) and the operations of \<open>Core\<close> on
  projects and members (\<open>projects.rs\<close>).  A \<open>core\<close> holds what the code's \<open>Core\<close> holds of them:
  the providers and stores as operations over the shared database state \<open>'s\<close>.  Operations that
  check and then write take, besides the interference inside the store, the step \<open>gap\<close>
  other processes make between the check and the write.
\<close>

section \<open>The core's providers\<close>

record 's core =
  co_authn :: "string option \<Rightarrow> authn_error + identity"
  co_authz :: "identity \<Rightarrow> action \<Rightarrow> resource_path \<Rightarrow> 's \<Rightarrow> access_store_error authz_error + unit"
  co_roles :: "'s role_store"
  co_projects :: "'s project_store"
  co_repos :: "'s repository_store"
  co_configs :: repo_configs
  co_now :: "repository_error + int"
  co_list_bookmarks :: "string \<Rightarrow> string \<Rightarrow> 's \<Rightarrow> jj_error + (string \<times> string list) list"
  co_list_tags :: "string \<Rightarrow> string \<Rightarrow> 's \<Rightarrow> jj_error + (string \<times> string) list"

definition core_now :: "'s core \<Rightarrow> core_error + int" where
  "core_now co = map_err CRepository (co_now co)"

section \<open>Authentication and roles\<close>

definition bearer_identify :: "(string \<rightharpoonup> identity) \<Rightarrow> string option \<Rightarrow> authn_error + identity" where
  "bearer_identify tokens token =
     (case token of
        None \<Rightarrow> Inr Anonymous
      | Some t \<Rightarrow> if t = [] then Inr Anonymous
                  else Inr (case tokens t of Some i \<Rightarrow> i | None \<Rightarrow> Anonymous))"

definition noop_identify :: "string option \<Rightarrow> authn_error + identity" where
  "noop_identify token = Inr Anonymous"

definition noop_check :: "identity \<Rightarrow> action \<Rightarrow> resource_path \<Rightarrow> 's \<Rightarrow> access_store_error authz_error + unit" where
  "noop_check caller action resource s = Inr ()"

fun min_role :: "action \<Rightarrow> role" where
  "min_role Read = Reader"
| "min_role Write = Writer"
| "min_role Force = Maintainer"
| "min_role ManageRepo = Maintainer"
| "min_role ManageProject = Owner"

definition role_based_check ::
  "'s role_store \<Rightarrow> 's project_store \<Rightarrow> identity \<Rightarrow> action \<Rightarrow> resource_path \<Rightarrow> 's
    \<Rightarrow> access_store_error authz_error + unit" where
  "role_based_check roles projects caller action resource s =
     and_then (map_err AuthzBackend (pj_get projects (rp_project resource) s)) (\<lambda>project.
     if (case project of Some p \<Rightarrow> pm_archived p | None \<Rightarrow> False)
     then Inl (PermissionDenied (DeniedArchived (rp_project resource)))
     else
       let visibility = (case project of Some p \<Rightarrow> pm_visibility p | None \<Rightarrow> Private) in
       if action = Read \<and> visibility = Public then Inr ()
       else if is_anonymous caller
       then Inl (PermissionDenied (DeniedAnonymous action (rp_project resource)))
       else
         let needed = min_role action in
         and_then (map_err AuthzBackend (rs_get roles (rp_project resource) caller s)) (\<lambda>role.
         case role of
           Some role \<Rightarrow> if role \<ge> needed then Inr ()
             else Inl (PermissionDenied (DeniedRole role action (rp_project resource) needed))
         | None \<Rightarrow> Inl (PermissionDenied (DeniedNoRole (rp_project resource)))))"

definition authorize :: "'s core \<Rightarrow> string option \<Rightarrow> action \<Rightarrow> string \<Rightarrow> string \<Rightarrow> 's \<Rightarrow> core_error + identity" where
  "authorize co token action project repo s =
     and_then (map_err CAuthn (co_authn co token)) (\<lambda>identity.
     and_then (map_err CAuthz (co_authz co identity action (resource_repo project repo) s)) (\<lambda>_.
     Inr identity))"

definition authorize_repo_action ::
  "'s core \<Rightarrow> string option \<Rightarrow> action \<Rightarrow> string \<Rightarrow> string \<Rightarrow> 's \<Rightarrow> core_error + identity" where
  "authorize_repo_action co token action project repo s = authorize co token action project repo s"

definition resolve_identity :: "'s core \<Rightarrow> string option \<Rightarrow> core_error + identity" where
  "resolve_identity co token = map_err CAuthn (co_authn co token)"

section \<open>Helpers\<close>

definition validate_project_name :: "string \<Rightarrow> core_error + unit" where
  "validate_project_name name =
     (if trim name = [] \<or> contains_char (CHR ''/'') name \<or> has_control name \<or> length name > 128
      then Inl (CInvalidArgument (Msg ''project name must be a 1-128 character resource path segment without control characters'' []))
      else Inr ())"

definition validate_project_etag :: "string \<Rightarrow> core_error + unit" where
  "validate_project_etag etag =
     (if etag = [] then Inl (CInvalidArgument (Msg ''project etag must not be empty'' [])) else Inr ())"

definition ensure_project_exists :: "'s core \<Rightarrow> string \<Rightarrow> 's \<Rightarrow> core_error + unit" where
  "ensure_project_exists co project s =
     and_then (map_err CAccessStore (pj_get (co_projects co) project s)) (\<lambda>found.
     and_then (ok_or (CAccessStore (AsNotFound project)) found) (\<lambda>meta.
     if pm_archived meta
     then Inl (CFailedPrecondition (Msg ''project '{}' is archived'' [project])) else Inr ()))"

definition authorize_project_owner :: "'s core \<Rightarrow> string \<Rightarrow> identity \<Rightarrow> 's \<Rightarrow> core_error + unit" where
  "authorize_project_owner co project identity s =
     (case identity_id identity of
        None \<Rightarrow> Inl (CAuthz (PermissionDenied (DeniedAnonymousArchived project)))
      | Some i \<Rightarrow>
          and_then (map_err CAccessStore (rs_get (co_roles co) project identity s)) (\<lambda>role.
          case role of
            Some Owner \<Rightarrow> Inr ()
          | Some r \<Rightarrow> Inl (CAuthz (PermissionDenied (DeniedNotOwnerRole r project)))
          | None \<Rightarrow> Inl (CAuthz (PermissionDenied (DeniedNotOwner i project)))))"

definition authorize_project_read :: "'s core \<Rightarrow> project_meta \<Rightarrow> identity \<Rightarrow> 's \<Rightarrow> core_error + unit" where
  "authorize_project_read co meta identity s =
     (if pm_archived meta then authorize_project_owner co (pm_name meta) identity s
      else map_err CAuthz (co_authz co identity Read (resource_project (pm_name meta)) s))"

definition guard_last_owner ::
  "'s core \<Rightarrow> string \<Rightarrow> string \<Rightarrow> bool \<Rightarrow> role option \<Rightarrow> 's \<Rightarrow> core_error + unit" where
  "guard_last_owner co project candidate removing new_role s =
     and_then (map_err CAccessStore (rs_list_project (co_roles co) project s)) (\<lambda>members.
     let owners = map fst (filter (\<lambda>(_, r). r = Owner) members) in
     if candidate \<notin> set owners then Inr ()
     else let losing_owner = removing \<or> (case new_role of Some r \<Rightarrow> r \<noteq> Owner | None \<Rightarrow> False) in
       if losing_owner \<and> length owners \<le> 1
       then Inl (CAuthz (PermissionDenied (DeniedLastOwner project)))
       else Inr ())"

section \<open>Projects\<close>

record project_update =
  pu_visibility :: "visibility option"

definition project_update_is_empty :: "project_update \<Rightarrow> bool" where
  "project_update_is_empty u \<longleftrightarrow> pu_visibility u = None"

definition create_project ::
  "'s core \<Rightarrow> string \<Rightarrow> visibility \<Rightarrow> string option \<Rightarrow> 's \<Rightarrow> (core_error + project_meta) \<times> 's" where
  "create_project co name vis token s =
     and_then_st (validate_project_name name) s (\<lambda>_.
     and_then_st (map_err CAuthn (co_authn co token)) s (\<lambda>caller.
     if is_anonymous caller then (Inl (CAuthz (PermissionDenied DeniedAnonymousCreate)), s)
     else let creator = (case identity_id caller of Some i \<Rightarrow> i | None \<Rightarrow> []) in
       and_then_st (core_now co) s (\<lambda>now.
       access_result (pj_create_with_owner (co_projects co) (project_meta_new name vis creator now) creator s))))"

definition get_project_with_archived ::
  "'s core \<Rightarrow> string \<Rightarrow> bool \<Rightarrow> string option \<Rightarrow> 's \<Rightarrow> core_error + project_meta option" where
  "get_project_with_archived co name include_archived token s =
     and_then (validate_project_name name) (\<lambda>_.
     and_then (map_err CAccessStore (pj_get (co_projects co) name s)) (\<lambda>found.
     case found of
       None \<Rightarrow> Inr None
     | Some meta \<Rightarrow>
         if pm_archived meta \<and> \<not> include_archived then Inr None
         else and_then (map_err CAuthn (co_authn co token)) (\<lambda>identity.
           and_then (authorize_project_read co meta identity s) (\<lambda>_. Inr (Some meta)))))"

definition get_project :: "'s core \<Rightarrow> string \<Rightarrow> string option \<Rightarrow> 's \<Rightarrow> core_error + project_meta option" where
  "get_project co name token s = get_project_with_archived co name False token s"

fun visible_projects ::
  "'s core \<Rightarrow> bool \<Rightarrow> identity \<Rightarrow> 's \<Rightarrow> project_meta list \<Rightarrow> core_error + project_meta list" where
  "visible_projects co include_archived identity s [] = Inr []"
| "visible_projects co include_archived identity s (meta # rest) =
     (if pm_archived meta \<and> \<not> include_archived then visible_projects co include_archived identity s rest
      else case authorize_project_read co meta identity s of
        Inr _ \<Rightarrow> and_then (visible_projects co include_archived identity s rest) (\<lambda>ms. Inr (meta # ms))
      | Inl (CAuthz (PermissionDenied _)) \<Rightarrow> visible_projects co include_archived identity s rest
      | Inl e \<Rightarrow> Inl e)"

definition list_projects_with_archived ::
  "'s core \<Rightarrow> bool \<Rightarrow> string option \<Rightarrow> 's \<Rightarrow> core_error + project_meta list" where
  "list_projects_with_archived co include_archived token s =
     and_then (map_err CAuthn (co_authn co token)) (\<lambda>identity.
     and_then (map_err CAccessStore (pj_list (co_projects co) s)) (\<lambda>all.
     visible_projects co include_archived identity s all))"

definition list_projects :: "'s core \<Rightarrow> string option \<Rightarrow> 's \<Rightarrow> core_error + project_meta list" where
  "list_projects co token s = list_projects_with_archived co False token s"

definition update_project ::
  "'s core \<Rightarrow> ('s \<Rightarrow> 's) \<Rightarrow> ('s \<Rightarrow> 's) \<Rightarrow> string \<Rightarrow> string \<Rightarrow> project_update \<Rightarrow> string option \<Rightarrow> 's
    \<Rightarrow> (core_error + project_meta) \<times> 's" where
  "update_project co gap env name expected patch token s =
     and_then_st (validate_project_name name) s (\<lambda>_.
     and_then_st (validate_project_etag expected) s (\<lambda>_.
     if project_update_is_empty patch
     then (Inl (CInvalidArgument (Msg ''update mask selects no project fields'' [])), s)
     else and_then_st (map_err CAuthn (co_authn co token)) s (\<lambda>identity.
       and_then_st (map_err CAuthz (co_authz co identity ManageProject (resource_project name) s)) s (\<lambda>_.
       and_then_st (map_err CAccessStore (pj_get (co_projects co) name s)) s (\<lambda>found.
       and_then_st (ok_or (CAccessStore (AsNotFound name)) found) s (\<lambda>meta.
       if pm_archived meta
       then (Inl (CFailedPrecondition (Msg ''an archived project cannot be updated'' [])), s)
       else let meta = if_some (pu_visibility patch) (\<lambda>v m. m\<lparr>pm_visibility := v\<rparr>) meta in
         and_then_st (core_now co) s (\<lambda>now.
         access_result (pj_replace (co_projects co) env expected (meta\<lparr>pm_update_time := now\<rparr>) (gap s)))))))))"

definition archive_project ::
  "'s core \<Rightarrow> ('s \<Rightarrow> 's) \<Rightarrow> ('s \<Rightarrow> 's) \<Rightarrow> string \<Rightarrow> string \<Rightarrow> bool \<Rightarrow> string option \<Rightarrow> 's
    \<Rightarrow> (core_error + project_meta) \<times> 's" where
  "archive_project co gap env name expected force token s =
     and_then_st (validate_project_name name) s (\<lambda>_.
     and_then_st (validate_project_etag expected) s (\<lambda>_.
     and_then_st (map_err CAccessStore (pj_get (co_projects co) name s)) s (\<lambda>found.
     and_then_st (ok_or (CAccessStore (AsNotFound name)) found) s (\<lambda>meta.
     and_then_st (map_err CAuthn (co_authn co token)) s (\<lambda>identity.
     and_then_st (authorize_project_owner co name identity s) s (\<lambda>_.
     if pm_archived meta then
       (if pm_etag meta \<noteq> expected
        then (Inl (CAccessStore (AsEtagMismatch name expected (pm_etag meta))), s)
        else (Inr meta, s))
     else and_then_st (if \<not> force
         then and_then (map_err (\<lambda>e. CRepository (RStore e)) (rp_list (co_repos co) name s)) (\<lambda>rs. Inr (rs \<noteq> []))
         else Inr False) s (\<lambda>blocked.
       if blocked
       then (Inl (CFailedPrecondition (Msg ''project has repository records; set force=true to archive while retaining them'' [])), s)
       else and_then_st (core_now co) s (\<lambda>now.
         access_result (pj_replace (co_projects co) env expected
           (meta\<lparr>pm_archived := True, pm_archive_time := Some now, pm_update_time := now\<rparr>) (gap s))))))))))"

section \<open>Members\<close>

definition add_member ::
  "'s core \<Rightarrow> 's interference \<Rightarrow> string \<Rightarrow> string \<Rightarrow> role \<Rightarrow> string option \<Rightarrow> 's \<Rightarrow> (core_error + unit) \<times> 's" where
  "add_member co env project i role token s =
     and_then_st (ensure_project_exists co project s) s (\<lambda>_.
     and_then_st (authorize co token ManageProject project [] s) s (\<lambda>_.
     access_result (rs_set (co_roles co) env project i role s)))"

definition remove_member ::
  "'s core \<Rightarrow> ('s \<Rightarrow> 's) \<Rightarrow> 's interference \<Rightarrow> string \<Rightarrow> string \<Rightarrow> string option \<Rightarrow> 's
    \<Rightarrow> (core_error + unit) \<times> 's" where
  "remove_member co gap env project i token s =
     and_then_st (ensure_project_exists co project s) s (\<lambda>_.
     and_then_st (authorize co token ManageProject project [] s) s (\<lambda>_.
     and_then_st (guard_last_owner co project i True None s) s (\<lambda>_.
     access_result (rs_remove (co_roles co) env project i (gap s)))))"

definition update_member_role ::
  "'s core \<Rightarrow> ('s \<Rightarrow> 's) \<Rightarrow> 's interference \<Rightarrow> string \<Rightarrow> string \<Rightarrow> role \<Rightarrow> string option \<Rightarrow> 's
    \<Rightarrow> (core_error + unit) \<times> 's" where
  "update_member_role co gap env project i new_role token s =
     and_then_st (ensure_project_exists co project s) s (\<lambda>_.
     and_then_st (authorize co token ManageProject project [] s) s (\<lambda>_.
     and_then_st (guard_last_owner co project i False (Some new_role) s) s (\<lambda>_.
     access_result (rs_set (co_roles co) env project i new_role (gap s)))))"

definition list_members ::
  "'s core \<Rightarrow> string \<Rightarrow> string option \<Rightarrow> 's \<Rightarrow> core_error + (string \<times> role) list" where
  "list_members co project token s =
     and_then (ensure_project_exists co project s) (\<lambda>_.
     and_then (map_err CAuthn (co_authn co token)) (\<lambda>identity.
     and_then (map_err CAuthz (co_authz co identity Read (resource_project project) s)) (\<lambda>_.
     map_err CAccessStore (rs_list_project (co_roles co) project s))))"

end
