(* ===== verification/Repositories.thy ===== *)
theory Repositories
  imports Projects
begin

text \<open>
  The operations of \<open>Core\<close> on registered repositories (\<open>repository.rs\<close>, \<open>impl Core\<close>), the
  lifecycle of a registered repository as a step relation, and the locale in which every
  operation is shown to take only its steps, whichever store is behind it.
\<close>

section \<open>Operations\<close>

abbreviation repo_check :: "repository_error + 'a \<Rightarrow> core_error + 'a" where
  "repo_check \<equiv> map_err CRepository"

abbreviation repo_read :: "repo_store_error + 'a \<Rightarrow> core_error + 'a" where
  "repo_read \<equiv> map_err (\<lambda>e. CRepository (RStore e))"

definition create_repository ::
  "'s core \<Rightarrow> create_repository_input \<Rightarrow> string option \<Rightarrow> 's \<Rightarrow> (core_error + repository) \<times> 's" where
  "create_repository co input token s =
     and_then_st (repo_check (repo_validate_segment ''project'' (ci_project input))) s (\<lambda>_.
     and_then_st (repo_check (repo_validate_segment ''repo'' (ci_name input))) s (\<lambda>_.
     and_then_st (repo_check (validate_config (ci_config input))) s (\<lambda>_.
     and_then_st (ensure_project_exists co (ci_project input) s) s (\<lambda>_.
     and_then_st (authorize_repo_action co token ManageRepo (ci_project input) (ci_name input) s) s (\<lambda>identity.
     and_then_st (core_now co) s (\<lambda>now.
     repo_result (rp_create (co_repos co)
       (repository_new (ci_project input) (ci_name input) (ci_config input)
         (case identity_id identity of Some i \<Rightarrow> i | None \<Rightarrow> ''anonymous'') now) s)))))))"

definition get_repository ::
  "'s core \<Rightarrow> string \<Rightarrow> string \<Rightarrow> bool \<Rightarrow> string option \<Rightarrow> 's \<Rightarrow> core_error + repository option" where
  "get_repository co project repo include_archived token s =
     and_then (repo_check (repo_validate_segment ''project'' project)) (\<lambda>_.
     and_then (repo_check (repo_validate_segment ''repo'' repo)) (\<lambda>_.
     and_then (authorize_repo_action co token Read project repo s) (\<lambda>_.
     and_then (repo_read (rp_get (co_repos co) project repo s)) (\<lambda>found.
     Inr (case found of Some r \<Rightarrow> if include_archived \<or> \<not> re_archived r then Some r else None | None \<Rightarrow> None)))))"

definition list_repositories ::
  "'s core \<Rightarrow> string \<Rightarrow> bool \<Rightarrow> string option \<Rightarrow> 's \<Rightarrow> core_error + repository list" where
  "list_repositories co project include_archived token s =
     and_then (repo_check (repo_validate_segment ''project'' project)) (\<lambda>_.
     and_then (ensure_project_exists co project s) (\<lambda>_.
     and_then (authorize_repo_action co token Read project [] s) (\<lambda>_.
     and_then (repo_read (rp_list (co_repos co) project s)) (\<lambda>rs.
     Inr (filter (\<lambda>r. include_archived \<or> \<not> re_archived r) rs)))))"

definition patch_config :: "repository_update \<Rightarrow> repo_config \<Rightarrow> repo_config" where
  "patch_config patch cfg =
     (let cfg = if_some (ru_default_bookmark patch) (\<lambda>v c. c\<lparr>rc_default_bookmark := v\<rparr>) cfg;
          cfg = if_some (ru_compatibility_direction patch) (\<lambda>v c. c\<lparr>rc_compatibility_direction := v\<rparr>) cfg;
          cfg = if_some (ru_protected_bookmarks patch) (\<lambda>v c. c\<lparr>rc_protected_bookmarks := v\<rparr>) cfg;
          cfg = if_some (ru_review_policy patch) (\<lambda>v c. c\<lparr>rc_review_policy := v\<rparr>) cfg
      in if_some (ru_serving_policy patch) (\<lambda>v c. c\<lparr>rc_serving_policy := v\<rparr>) cfg)"

definition update_repository ::
  "'s core \<Rightarrow> ('s \<Rightarrow> 's) \<Rightarrow> ('s \<Rightarrow> 's) \<Rightarrow> string \<Rightarrow> string \<Rightarrow> string \<Rightarrow> repository_update \<Rightarrow> string option \<Rightarrow> 's
    \<Rightarrow> (core_error + repository) \<times> 's" where
  "update_repository co gap env project repo expected patch token s =
     and_then_st (repo_check (repo_validate_segment ''project'' project)) s (\<lambda>_.
     and_then_st (repo_check (repo_validate_segment ''repo'' repo)) s (\<lambda>_.
     and_then_st (repo_check (validate_expected_etag expected)) s (\<lambda>_.
     if repository_update_is_empty patch
     then (Inl (CRepository (RInvalidArgument (Msg ''update mask selects no repository fields'' []))), s)
     else and_then_st (authorize_repo_action co token ManageRepo project repo s) s (\<lambda>_.
       and_then_st (repo_read (rp_get (co_repos co) project repo s)) s (\<lambda>found.
       and_then_st (ok_or (CRepository (RStore (RsNotFound (repo_resource_name project repo)))) found) s (\<lambda>r.
       if re_archived r
       then (Inl (CRepository (RFailedPrecondition (Msg ''an archived repository cannot be updated'' []))), s)
       else let r = r\<lparr>re_config := patch_config patch (re_config r)\<rparr> in
         and_then_st (repo_check (validate_config (re_config r))) s (\<lambda>_.
         and_then_st (core_now co) s (\<lambda>now.
         repo_result (rp_replace (co_repos co) env expected (r\<lparr>re_update_time := now\<rparr>) (gap s))))))))))"

definition repository_has_refs :: "'s core \<Rightarrow> string \<Rightarrow> string \<Rightarrow> 's \<Rightarrow> core_error + bool" where
  "repository_has_refs co project repo s =
     and_then (map_err CJj (co_list_bookmarks co project repo s)) (\<lambda>bookmarks.
     if list_ex (\<lambda>(_, targets). targets \<noteq> []) bookmarks then Inr True
     else and_then (map_err CJj (co_list_tags co project repo s)) (\<lambda>tags. Inr (tags \<noteq> [])))"

definition archive_repository ::
  "'s core \<Rightarrow> ('s \<Rightarrow> 's) \<Rightarrow> ('s \<Rightarrow> 's) \<Rightarrow> string \<Rightarrow> string \<Rightarrow> string \<Rightarrow> bool \<Rightarrow> string option \<Rightarrow> 's
    \<Rightarrow> (core_error + repository) \<times> 's" where
  "archive_repository co gap env project repo expected force token s =
     and_then_st (repo_check (repo_validate_segment ''project'' project)) s (\<lambda>_.
     and_then_st (repo_check (repo_validate_segment ''repo'' repo)) s (\<lambda>_.
     and_then_st (repo_check (validate_expected_etag expected)) s (\<lambda>_.
     and_then_st (authorize_repo_action co token ManageRepo project repo s) s (\<lambda>_.
     and_then_st (repo_read (rp_get (co_repos co) project repo s)) s (\<lambda>found.
     and_then_st (ok_or (CRepository (RStore (RsNotFound (repo_resource_name project repo)))) found) s (\<lambda>r.
     if re_archived r then
       (if re_etag r \<noteq> expected
        then (Inl (CRepository (RStore (RsEtagMismatch (re_resource_name r) expected (re_etag r)))), s)
        else (Inr r, s))
     else and_then_st (if force then Inr False else repository_has_refs co project repo s) s (\<lambda>blocked.
       if blocked
       then (Inl (CRepository (RFailedPrecondition (Msg ''repository has schema refs; set force=true to archive while retaining history'' []))), s)
       else and_then_st (core_now co) s (\<lambda>now.
         repo_result (rp_replace (co_repos co) env expected
           (r\<lparr>re_archived := True, re_archive_time := Some now, re_update_time := now\<rparr>) (gap s))))))))))"

definition effective_repo_config :: "'s core \<Rightarrow> string \<Rightarrow> string \<Rightarrow> 's \<Rightarrow> core_error + repo_config" where
  "effective_repo_config co project repo s =
     and_then (repo_read (rp_get (co_repos co) project repo s)) (\<lambda>found.
     case found of
       Some r \<Rightarrow> if re_archived r
         then Inl (CRepository (RFailedPrecondition (Msg ''repository {}/{} is archived'' [project, repo])))
         else Inr (re_config r)
     | None \<Rightarrow> Inr (config_get project repo (co_configs co)))"

definition repository_default_bookmark ::
  "'s core \<Rightarrow> string \<Rightarrow> string \<Rightarrow> action \<Rightarrow> string option \<Rightarrow> 's \<Rightarrow> core_error + string" where
  "repository_default_bookmark co project repo action token s =
     and_then (repo_check (repo_validate_segment ''project'' project)) (\<lambda>_.
     and_then (repo_check (repo_validate_segment ''repo'' repo)) (\<lambda>_.
     and_then (authorize_repo_action co token action project repo s) (\<lambda>_.
     and_then (effective_repo_config co project repo s) (\<lambda>cfg. Inr (rc_default_bookmark cfg)))))"

definition ensure_direct_write_allowed :: "'s core \<Rightarrow> string \<Rightarrow> string \<Rightarrow> 's \<Rightarrow> core_error + unit" where
  "ensure_direct_write_allowed co project repo s =
     and_then (effective_repo_config co project repo s) (\<lambda>cfg.
     if rp_require_change_record (rc_review_policy cfg)
     then Inl (CRepository (RFailedPrecondition (Msg ''repository policy requires publication through a ChangeRecord'' [])))
     else Inr ())"

section \<open>Lifecycle\<close>

text \<open>
  A registered repository is updated with a valid configuration any number of times and then
  archived for good.
\<close>

inductive repo_change :: "repository \<Rightarrow> repository \<Rightarrow> bool" where
  rc_updated: "\<not> re_archived c \<Longrightarrow> validate_config cfg = Inr () \<Longrightarrow>
    repo_change c (c\<lparr>re_config := cfg, re_update_time := now, re_etag := e\<rparr>)"
| rc_archived: "\<not> re_archived c \<Longrightarrow>
    repo_change c (c\<lparr>re_archived := True, re_archive_time := Some now, re_update_time := now, re_etag := e\<rparr>)"

inductive_cases repo_changeE: "repo_change c d"

definition repo_fresh :: "repository \<Rightarrow> bool" where
  "repo_fresh r \<longleftrightarrow> re_resource_name r = repo_resource_name (re_project r) (re_name r)
     \<and> repo_validate_segment ''project'' (re_project r) = Inr () \<and> repo_validate_segment ''repo'' (re_name r) = Inr ()
     \<and> validate_config (re_config r) = Inr () \<and> \<not> re_archived r \<and> re_archive_time r = None"

abbreviation repo_steps :: "(string \<rightharpoonup> repository) \<Rightarrow> (string \<rightharpoonup> repository) \<Rightarrow> bool" where
  "repo_steps \<equiv> (versioned_step re_resource_name re_etag repo_fresh repo_change)\<^sup>*\<^sup>*"

definition repo_ok :: "repository \<Rightarrow> bool" where
  "repo_ok r \<longleftrightarrow> re_resource_name r = repo_resource_name (re_project r) (re_name r)
     \<and> repo_validate_segment ''project'' (re_project r) = Inr () \<and> repo_validate_segment ''repo'' (re_name r) = Inr ()
     \<and> validate_config (re_config r) = Inr () \<and> (re_archived r \<longleftrightarrow> re_archive_time r \<noteq> None)"

lemma repo_fresh_ok: "repo_fresh r \<Longrightarrow> repo_ok r"
  by (simp add: repo_fresh_def repo_ok_def)

lemma repo_change_ok: "repo_ok c \<Longrightarrow> repo_change c d \<Longrightarrow> repo_ok d"
  by (erule repo_changeE) (auto simp: repo_ok_def)

lemma repo_change_archived: "re_archived c \<Longrightarrow> \<not> repo_change c d"
  by (auto elim: repo_changeE)

definition registry_ok :: "(string \<rightharpoonup> repository) \<Rightarrow> bool" where
  "registry_ok m \<longleftrightarrow> (\<forall>n r. m n = Some r \<longrightarrow> re_resource_name r = n \<and> repo_ok r)"

lemma repo_steps_ok: "repo_steps m m' \<Longrightarrow> registry_ok m \<Longrightarrow> registry_ok m'"
  unfolding registry_ok_def
  using versioned_steps_invariant [of re_resource_name re_etag repo_fresh repo_change m m' repo_ok]
    versioned_steps_keyed [of re_resource_name re_etag repo_fresh repo_change m m'] repo_fresh_ok repo_change_ok
  by blast

lemma repo_steps_archived:
  "repo_steps m m' \<Longrightarrow> m n = Some r \<Longrightarrow> re_archived r \<Longrightarrow> m' n = Some r"
  using versioned_steps_frozen [of re_resource_name re_etag repo_fresh repo_change m m' r n] repo_change_archived by blast

section \<open>Every operation takes only these steps\<close>

datatype repo_call =
    CallCreateRepository create_repository_input
  | CallUpdateRepository string string string repository_update
  | CallArchiveRepository string string string bool

fun repo_exec :: "'s core \<Rightarrow> ('s \<Rightarrow> 's) \<Rightarrow> ('s \<Rightarrow> 's) \<Rightarrow> string option \<Rightarrow> repo_call \<Rightarrow> 's \<Rightarrow> (core_error + repository) \<times> 's" where
  "repo_exec co gap env token (CallCreateRepository input) s = create_repository co input token s"
| "repo_exec co gap env token (CallUpdateRepository project repo e patch) s = update_repository co gap env project repo e patch token s"
| "repo_exec co gap env token (CallArchiveRepository project repo e force) s = archive_repository co gap env project repo e force token s"

text \<open>
  The ETag a call names is below the wrap-around, and is not from the future unless
  nobody else wrote the repository while the call ran.
\<close>

fun repo_call_ok :: "(string \<rightharpoonup> repository) \<Rightarrow> (string \<rightharpoonup> repository) \<Rightarrow> repo_call \<Rightarrow> bool" where
  "repo_call_ok m m' (CallCreateRepository input) = True"
| "repo_call_ok m m' (CallUpdateRepository project repo e patch) =
     (below_wrap e \<and> (\<forall>c. m (repo_resource_name project repo) = Some c \<longrightarrow>
        issued_by e (re_etag c) \<or> m' (repo_resource_name project repo) = Some c))"
| "repo_call_ok m m' (CallArchiveRepository project repo e force) =
     (below_wrap e \<and> (\<forall>c. m (repo_resource_name project repo) = Some c \<longrightarrow>
        issued_by e (re_etag c) \<or> m' (repo_resource_name project repo) = Some c))"

lemma repo_result_state: "repo_result m = (x, t) \<Longrightarrow> \<exists>y. m = (y, t) \<and> x = repo_read y"
  by (cases m) (simp add: repo_result_def)

lemma create_repository_progress:
  assumes "create_repository co input token s = (x, t)" "progressed x s t"
  shows "\<exists>r y. repo_fresh r \<and> rp_create (co_repos co) r s = (y, t) \<and> x = repo_read y"
  using assms unfolding create_repository_def
  by (auto dest!: and_then_st_progress repo_result_state simp: map_err_Inr)
    (force simp: repo_fresh_def repository_new_def repo_resource_name_def)

lemma update_repository_progress:
  assumes "update_repository co gap env project repo e patch token s = (x, t)" "progressed x s t"
  shows "\<exists>c cfg now y. rp_get (co_repos co) project repo s = Inr (Some c) \<and> \<not> re_archived c \<and> validate_config cfg = Inr ()
    \<and> rp_replace (co_repos co) env e (c\<lparr>re_config := cfg, re_update_time := now\<rparr>) (gap s) = (y, t) \<and> x = repo_read y"
  using assms unfolding update_repository_def
  by (auto dest!: and_then_st_progress repo_result_state simp: map_err_Inr ok_or_Inr Let_def split: if_splits) blast

lemma archive_repository_progress:
  assumes "archive_repository co gap env project repo e force token s = (x, t)" "progressed x s t"
  shows "\<exists>c. rp_get (co_repos co) project repo s = Inr (Some c) \<and>
    (re_archived c \<and> t = s \<and> x = Inr c \<or> (\<exists>now y. \<not> re_archived c \<and> x = repo_read y
        \<and> rp_replace (co_repos co) env e (c\<lparr>re_archived := True, re_archive_time := Some now, re_update_time := now\<rparr>) (gap s) = (y, t)))"
  using assms unfolding archive_repository_def
  by (auto dest!: and_then_st_progress repo_result_state simp: map_err_Inr ok_or_Inr split: if_splits) blast+

locale repository_registry = versioned_store re_resource_name re_etag "\<lambda>e r. r\<lparr>re_etag := e\<rparr>" get replace view inv create
  for get :: "string \<Rightarrow> 's \<Rightarrow> repo_store_error + repository option" and replace and view and inv and create +
  fixes rs :: "'s repository_store"
  assumes rs_get: "rp_get rs project repo = get (repo_resource_name project repo)"
    and rs_replace: "rp_replace rs = replace"
    and rs_create: "rp_create rs = create"
begin

lemma replace_takes_step:
  assumes inv: "inv s" "inv (gap s)" "inv (env (gap s))"
    and env: "repo_steps (view s) (view (gap s))" "repo_steps (view (gap s)) (view (env (gap s)))"
    and read: "view s (re_resource_name r) = Some c" and below: "below_wrap e"
    and issued: "issued_by e (re_etag c) \<or> view (env (gap s)) (re_resource_name r) = Some c"
    and P: "\<And>e. repo_change c (r\<lparr>re_etag := e\<rparr>)" and run: "replace env e r (gap s) = (x, t)"
  shows "repo_steps (view s) (view t) \<and> inv t \<and> (\<forall>r'. x = Inr r' \<longrightarrow> view t (re_resource_name r') = Some r')"
proof -
  have steps: "repo_steps (view s) (view (env (gap s)))" using env by (rule rtranclp_trans)
  show ?thesis
  proof (cases x)
    case (Inl y)
    then show ?thesis using replace_Inl [of "gap s" env e r y t] inv run env steps by auto
  next
    case (Inr r')
    have acc: "replace env e r (gap s) = (Inr r', t)" using run Inr by simp
    obtain d where d: "view (env (gap s)) (re_resource_name r) = Some d" "re_etag d = e"
      and r': "r' = r\<lparr>re_etag := re_etag r'\<rparr>" "next_etag e = Some (re_etag r')"
      and t: "view t = (view (env (gap s)))(re_resource_name r \<mapsto> r')" "inv t"
      using replace_Inr [of "gap s" env e r r' t] inv acc by auto
    have "newer re_etag c d" using versioned_steps_newer [OF steps read] d(1) by auto
    then have "d = c" using issued d by (auto simp: newer_def issued_by_def)
    moreover have name: "re_resource_name r' = re_resource_name r" by (subst r'(1)) simp
    moreover have "repo_change c r'" using P r'(1) by metis
    ultimately have "versioned_step re_resource_name re_etag repo_fresh repo_change (view (env (gap s))) (view t)"
      using vs_replaced [of "view (env (gap s))" re_resource_name r' c repo_change re_etag repo_fresh] d r'(2) below t(1) by simp
    then show ?thesis using steps name t Inr by (auto intro: rtranclp.rtrancl_into_rtrancl)
  qed
qed

theorem exec_takes_steps:
  assumes inv: "inv s" "inv (gap s)" "inv (env (gap s))"
    and env: "repo_steps (view s) (view (gap s))" "repo_steps (view (gap s)) (view (env (gap s)))" and co: "co_repos co = rs"
    and ok: "registry_ok (view s)" and call: "repo_call_ok (view s) (view (env (gap s))) call"
    and run: "repo_exec co gap env token call s = (x, t)"
  shows "repo_steps (view s) (view t) \<and> inv t \<and> (\<forall>r. x = Inr r \<longrightarrow> view t (re_resource_name r) = Some r)"
proof (cases "progressed x s t")
  case False
  then show ?thesis using inv(1) by (cases x) (auto simp: progressed_def)
next
  case moved: True
  show ?thesis
  proof (cases call)
    case (CallCreateRepository input)
    then obtain r y where r: "repo_fresh r" and create: "create r s = (y, t)" and x: "x = repo_read y"
      using create_repository_progress [of co input token s x t] run moved rs_create co by auto
    show ?thesis
    proof (cases y)
      case (Inl e)
      then show ?thesis using create_Inl [OF inv(1)] create x by (auto simp: map_err_def)
    next
      case (Inr r')
      have c: "view s (re_resource_name r) = None" "r' = r\<lparr>re_etag := ''v1''\<rparr>" "view t = (view s)(re_resource_name r \<mapsto> r')" "inv t"
        using create_Inr [OF inv(1)] create Inr by auto
      have "versioned_step re_resource_name re_etag repo_fresh repo_change (view s) ((view s)(re_resource_name r' \<mapsto> r'))"
        by (rule vs_created) (use r c in \<open>simp_all add: repo_fresh_def\<close>)
      then show ?thesis using c x Inr by (auto simp: map_err_def)
    qed
  next
    case (CallUpdateRepository project repo e patch)
    then obtain c cfg now y where read: "rp_get rs project repo s = Inr (Some c)" and c: "\<not> re_archived c" "validate_config cfg = Inr ()"
      and rep: "replace env e (c\<lparr>re_config := cfg, re_update_time := now\<rparr>) (gap s) = (y, t)" and x: "x = repo_read y"
      using update_repository_progress [of co gap env project repo e patch token s x t] run moved rs_replace co by auto
    have view: "view s (repo_resource_name project repo) = Some c" using get_view [OF inv(1)] read rs_get by metis
    then have name: "repo_resource_name project repo = re_resource_name c" using ok by (simp add: registry_ok_def)
    have "repo_steps (view s) (view t) \<and> inv t \<and> (\<forall>r'. y = Inr r' \<longrightarrow> view t (re_resource_name r') = Some r')"
      by (rule replace_takes_step [where env = env and gap = gap and s = s and c = c, OF inv env _ _ _ _ rep])
        (use view call CallUpdateRepository name c in \<open>auto intro: rc_updated\<close>)
    then show ?thesis using x by (cases y) (auto simp: map_err_def)
  next
    case (CallArchiveRepository project repo e force)
    then obtain c where read: "rp_get rs project repo s = Inr (Some c)"
      and step: "t = s \<and> x = Inr c \<or> (\<exists>now y. \<not> re_archived c \<and> x = repo_read y
        \<and> replace env e (c\<lparr>re_archived := True, re_archive_time := Some now, re_update_time := now\<rparr>) (gap s) = (y, t))"
      using archive_repository_progress [of co gap env project repo e force token s x t] run moved rs_replace co by auto
    have view: "view s (repo_resource_name project repo) = Some c" using get_view [OF inv(1)] read rs_get by metis
    then have name: "repo_resource_name project repo = re_resource_name c" using ok by (simp add: registry_ok_def)
    from step show ?thesis
    proof
      assume "\<exists>now y. \<not> re_archived c \<and> x = repo_read y
        \<and> replace env e (c\<lparr>re_archived := True, re_archive_time := Some now, re_update_time := now\<rparr>) (gap s) = (y, t)"
      then obtain now y where c: "\<not> re_archived c" and x: "x = repo_read y"
        and rep: "replace env e (c\<lparr>re_archived := True, re_archive_time := Some now, re_update_time := now\<rparr>) (gap s) = (y, t)" by blast
      have "repo_steps (view s) (view t) \<and> inv t \<and> (\<forall>r'. y = Inr r' \<longrightarrow> view t (re_resource_name r') = Some r')"
        by (rule replace_takes_step [where env = env and gap = gap and s = s and c = c, OF inv env _ _ _ _ rep])
          (use view call CallArchiveRepository name c in \<open>auto intro: rc_archived\<close>)
      then show ?thesis using x by (cases y) (auto simp: map_err_def)
    qed (use view name inv in auto)
  qed
qed

end

end
