(* ===== verification/Access_Properties.thy ===== *)
theory Access_Properties
  imports Projects
begin

text \<open>
  What access control guarantees: the role policy decides exactly by archive state,
  visibility and role; projects are created together with their Owner; member management
  by one caller at a time never removes the last Owner; and where the code falls short of
  that promise.
\<close>

section \<open>Membership writes\<close>

context reliable_record_db
begin

lemma role_replace_cases:
  assumes "inv s" and "role_replace db c hex alone r s = (x, t)"
  shows "t = s \<or> (\<exists>b. cd_enc c r = Inr b \<and> x = Inr () \<and> inv t
    \<and> tbl t = (tbl s)((role_collection, role_key hex (rr_project r) (rr_identity_id r)) \<mapsto> b))"
proof (cases "cd_enc c r")
  case (Inl e)
  then show ?thesis using assms(2) by (simp add: role_replace_def encode_role_def)
next
  case (Inr b)
  then show ?thesis using role_replace_alone [OF assms(1) Inr, of hex] assms(2) by auto
qed

lemma role_set_cases:
  assumes "codec_ok c" "hex_ok hex" "inv s" and "odb_role_set db c hex alone p i role s = (x, t)"
  shows "inv t \<and> (t = s \<or> (\<forall>q j. role_view c hex (tbl t) q j =
    (if q = p \<and> j = i then Some role else role_view c hex (tbl s) q j)))"
proof (cases "t = s")
  case False
  let ?r = "\<lparr>rr_project = p, rr_identity_id = i, rr_role = role, rr_active = True\<rparr>"
  obtain b where b: "cd_enc c ?r = Inr b" "inv t" "tbl t = (tbl s)((role_collection, role_key hex p i) \<mapsto> b)"
    using role_replace_cases [OF assms(3), of c hex ?r x t] assms(4) False by (auto simp: odb_role_set_def)
  then show ?thesis using role_view_upd [OF assms(2) codec_okD [OF assms(1) b(1)]] by simp
qed (use assms(3) in simp)

lemma role_remove_cases:
  assumes "codec_ok c" "hex_ok hex" "inv s" "roles_ok c hex (tbl s)"
    and "odb_role_remove db c hex alone p i s = (x, t)"
  shows "inv t \<and> (t = s \<or> (\<forall>q j. role_view c hex (tbl t) q j =
    (if q = p \<and> j = i then None else role_view c hex (tbl s) q j)))"
proof (cases "t = s")
  case False
  then obtain bytes r where found: "tbl s (role_collection, role_key hex p i) = Some bytes" "cd_dec c bytes = Inr r"
    and rep: "role_replace db c hex alone (r\<lparr>rr_active := False\<rparr>) s = (x, t)"
    using assms(5) by (auto simp: odb_role_remove_def get_eq [OF assms(3)] and_then_st_def decode_role_def
        map_err_def split: option.splits sum.splits if_splits)
  then have key: "role_key hex (rr_project r) (rr_identity_id r) = role_key hex p i"
    using assms(4) unfolding roles_ok_def by force
  let ?r = "r\<lparr>rr_active := False\<rparr>"
  obtain b where b: "cd_enc c ?r = Inr b" "inv t" "tbl t = (tbl s)((role_collection, role_key hex p i) \<mapsto> b)"
    using role_replace_cases [OF assms(3) rep] False key by auto
  then show ?thesis using role_view_upd [OF assms(2) codec_okD [OF assms(1) b(1)]] by simp
qed (use assms(3) in simp)

end

section \<open>Owners\<close>

definition has_owner :: "role_record codec \<Rightarrow> (string \<Rightarrow> string) \<Rightarrow> string \<Rightarrow> table \<Rightarrow> bool" where
  "has_owner rc hex p T \<longleftrightarrow> (\<exists>i. role_view rc hex T p i = Some Owner)"

lemma objdb_role_store_sel [simp]:
  "rs_get (objdb_role_store db c hex) = odb_role_get db c hex"
  "rs_set (objdb_role_store db c hex) = odb_role_set db c hex"
  "rs_remove (objdb_role_store db c hex) = odb_role_remove db c hex"
  "rs_list_project (objdb_role_store db c hex) = odb_role_list db c hex"
  by (simp_all add: objdb_role_store_def)

lemma objdb_project_store_sel [simp]:
  "pj_get (objdb_project_store db c rc hex) = odb_project_get db c"
  "pj_create_with_owner (objdb_project_store db c rc hex) = create_with_owner db c rc hex"
  "pj_set (objdb_project_store db c rc hex) = odb_project_set db c"
  "pj_replace (objdb_project_store db c rc hex) = odb_project_replace db c"
  "pj_list (objdb_project_store db c rc hex) = odb_project_list db c"
  by (simp_all add: objdb_project_store_def)

text \<open>
  A passed guard means that some Owner other than the candidate exists, or that the
  candidate does not lose an ownership.
\<close>

lemma guard_last_owner_Inr:
  assumes "hex_ok hex" "inner_ok d" and roles: "co_roles co = objdb_role_store memory_db rc hex"
    and guard: "guard_last_owner co p i removing new_role d = Inr ()" and "has_owner rc hex p (record_table d)"
  shows "roles_ok rc hex (record_table d)
    \<and> ((\<exists>j. j \<noteq> i \<and> role_view rc hex (record_table d) p j = Some Owner) \<or> \<not> removing \<and> (\<forall>r. new_role = Some r \<longrightarrow> r = Owner))"
proof -
  obtain ms where ms: "odb_role_list memory_db rc hex p d = Inr ms"
    and g: "(let owners = map fst (filter (\<lambda>(_, r). r = Owner) ms) in
      i \<notin> set owners \<or> \<not> ((removing \<or> (case new_role of Some r \<Rightarrow> r \<noteq> Owner | None \<Rightarrow> False)) \<and> length owners \<le> 1))"
    using guard by (auto simp: guard_last_owner_def roles result_simps Let_def split: if_splits)
  note mv = mdb.role_list_view [OF assms(1,2) ms]
  let ?owners = "map fst (filter (\<lambda>(_, r). r = Owner) ms)"
  have dist: "distinct ?owners" using mv(3) by (rule distinct_map_filter)
  have owners: "set ?owners = {j. role_view rc hex (record_table d) p j = Some Owner}" using mv(1) by force
  have "\<exists>j. j \<noteq> i \<and> role_view rc hex (record_table d) p j = Some Owner" if "i \<notin> set ?owners \<or> \<not> length ?owners \<le> 1"
  proof (cases "i \<in> set ?owners")
    case False
    then show ?thesis using assms(5) owners unfolding has_owner_def by (metis mem_Collect_eq)
  next
    case True
    then have "card (set ?owners) > 1" using that distinct_card [OF dist] by linarith
    then have "set ?owners - {i} \<noteq> {}" by (metis Diff_eq_empty_iff card_mono finite.emptyI finite.insertI
          is_singletonI is_singleton_altdef leD)
    then show ?thesis using owners by blast
  qed
  then show ?thesis using g mv(2) by (auto simp: Let_def split: option.splits)
qed

section \<open>A sample project\<close>

definition hex_digit :: "nat \<Rightarrow> char" where
  "hex_digit n = ''0123456789abcdef'' ! n"

fun hex_encode :: "string \<Rightarrow> string" where
  "hex_encode [] = []"
| "hex_encode (c # cs) = hex_digit (of_char c div 16) # hex_digit (of_char c mod 16) # hex_encode cs"

lemma hex_digit_inj: "a < 16 \<Longrightarrow> b < 16 \<Longrightarrow> hex_digit a = hex_digit b \<Longrightarrow> a = b"
proof -
  have "distinct ''0123456789abcdef''" by simp
  then show "a < 16 \<Longrightarrow> b < 16 \<Longrightarrow> hex_digit a = hex_digit b \<Longrightarrow> a = b"
    unfolding hex_digit_def by (subst (asm) nth_eq_iff_index_eq) simp_all
qed

lemma hex_digit_slash: "a < 16 \<Longrightarrow> hex_digit a \<noteq> CHR ''/''"
proof -
  assume "a < 16"
  then have "hex_digit a \<in> set ''0123456789abcdef''" unfolding hex_digit_def by (intro nth_mem) simp
  then show ?thesis by auto
qed

lemma of_char_split: "(of_char c :: nat) div 16 < 16" "(of_char c :: nat) = of_char c div 16 * 16 + of_char c mod 16"
  using nat_of_char_less_256 [of c] by (presburger, simp)

lemma hex_encode_ok: "hex_ok hex_encode"
proof -
  have "hex_encode a = hex_encode b \<Longrightarrow> a = b" for a b
  proof (induction a arbitrary: b)
    case Nil
    then show ?case by (cases b) simp_all
  next
    case (Cons x xs)
    then obtain y ys where b: "b = y # ys" by (cases b) simp_all
    have "(of_char x :: nat) div 16 = of_char y div 16" "(of_char x :: nat) mod 16 = of_char y mod 16"
      using Cons.prems b by (auto intro!: hex_digit_inj of_char_split(1))
    then have "(of_char x :: nat) = of_char y" using of_char_split(2) [of x] of_char_split(2) [of y] by presburger
    then show ?case using Cons b by simp
  qed
  moreover have "CHR ''/'' \<notin> set (hex_encode i)" for i
    by (induction i) (simp_all add: not_sym [OF hex_digit_slash] of_char_split(1))
  ultimately show ?thesis by (auto simp: hex_ok_def inj_def)
qed

definition member :: "string \<Rightarrow> role \<Rightarrow> bool \<Rightarrow> role_record" where
  "member i role active = \<lparr>rr_project = ''p'', rr_identity_id = i, rr_role = role, rr_active = active\<rparr>"

definition sample_roles :: "role_record codec" where
  "sample_roles = table_codec [(member ''ann'' Owner True, [1]), (member ''ann'' Writer True, [2]), (member ''ann'' Owner False, [3]),
     (member ''bob'' Owner True, [4]), (member ''bob'' Reader True, [5]), (member ''bob'' Owner False, [6])]"

lemma sample_roles_ok: "codec_ok sample_roles"
  unfolding sample_roles_def by (rule codec_ok_table) simp

definition sample_project :: project_meta where
  "sample_project = (project_meta_new ''p'' Private ''ann'' 7)\<lparr>pm_etag := ''v1''\<rparr>"

definition sample_archived :: project_meta where
  "sample_archived = sample_project\<lparr>pm_archived := True, pm_archive_time := Some 7, pm_update_time := 7, pm_etag := ''v2''\<rparr>"

definition sample_public :: project_meta where
  "sample_public = sample_project\<lparr>pm_visibility := Public\<rparr>"

definition sample_projects :: "project_meta codec" where
  "sample_projects = table_codec [(sample_project, [8]), (sample_archived, [9]), (sample_public, [10])]"

lemma sample_projects_ok: "codec_ok sample_projects"
  unfolding sample_projects_def by (rule codec_ok_table) simp

definition sample_core :: "inner core" where
  "sample_core = (let roles = objdb_role_store memory_db sample_roles hex_encode;
       projects = objdb_project_store memory_db sample_projects sample_roles hex_encode in
     \<lparr>co_authn = bearer_identify [''a'' \<mapsto> User ''ann'' None, ''b'' \<mapsto> User ''bob'' None],
      co_authz = role_based_check roles projects, co_roles = roles, co_projects = projects,
      co_repos = objdb_repository_store memory_db (table_codec []), co_configs = [], co_now = Inr 7,
      co_list_bookmarks = (\<lambda>_ _ _. Inr []), co_list_tags = (\<lambda>_ _ _. Inr [])\<rparr>)"

lemma sample_core_sel:
  "co_roles sample_core = objdb_role_store memory_db sample_roles hex_encode"
  "co_projects sample_core = objdb_project_store memory_db sample_projects sample_roles hex_encode"
  "co_authz sample_core = role_based_check (objdb_role_store memory_db sample_roles hex_encode)
     (objdb_project_store memory_db sample_projects sample_roles hex_encode)"
  by (simp_all add: sample_core_def Let_def)

definition sample_members :: "(string \<times> bytes) list \<Rightarrow> inner" where
  "sample_members ms = empty_db\<lparr>db_records :=
     sort_key fst (map (\<lambda>(i, b). ((role_collection, role_key hex_encode ''p'' i), b)) ms)
     @ [((project_collection, ''p''), [8])]\<rparr>"

section \<open>The role policy\<close>

text \<open>
  C12: \<open>RoleBasedAuthz::check\<close> over the object-database stores decides exactly as the policy
  reads.  Whenever the project and the caller's membership can be read, the request is
  allowed if and only if the project is not archived and either it is a read of a public
  project or the caller is a named identity whose active role is at least the minimum role
  of the action; a missing project is private and nobody has a role in it unless a
  membership record says so.
\<close>

theorem role_policy_decides:
  assumes "inner_ok d"
    and "odb_project_get memory_db pc (rp_project res) d = Inr found"
    and "odb_role_get memory_db rc hex (rp_project res) who d = Inr ro"
  shows "role_based_check (objdb_role_store memory_db rc hex) (objdb_project_store memory_db pc rc hex) who act res d = Inr ()
    \<longleftrightarrow> (\<forall>m. project_view pc (record_table d) (rp_project res) = Some m \<longrightarrow> \<not> pm_archived m)
      \<and> (act = Read \<and> (\<exists>m. project_view pc (record_table d) (rp_project res) = Some m \<and> pm_visibility m = Public)
         \<or> (\<exists>i role. identity_id who = Some i \<and> role_view rc hex (record_table d) (rp_project res) i = Some role
              \<and> min_role act \<le> role))"
proof -
  have "project_view pc (record_table d) (rp_project res) = found"
    using mdb.project_get_view [OF assms(1,2)] by simp
  moreover have "(case identity_id who of None \<Rightarrow> None | Some i \<Rightarrow> role_view rc hex (record_table d) (rp_project res) i) = ro"
    using mdb.role_get_view [OF assms(1,3)] by (rule sym)
  ultimately show ?thesis using assms(2,3)
    by (cases found; cases "identity_id who"; cases ro) (auto simp: role_based_check_def map_err_def Let_def is_anonymous_iff split: if_splits)
qed

theorem role_policy_decides_witness:
  "role_based_check (objdb_role_store memory_db sample_roles hex_encode)
     (objdb_project_store memory_db sample_projects sample_roles hex_encode) (User ''bob'' None) Read
     (resource_project ''p'') (sample_members [(''ann'', [1]), (''bob'', [5])]) = Inr ()"
proof -
  let ?d = "sample_members [(''ann'', [1]), (''bob'', [5])]"
  have ok: "inner_ok ?d" by code_simp
  have project: "odb_project_get memory_db sample_projects (rp_project (resource_project ''p'')) ?d = Inr (Some sample_project)"
    by code_simp
  have role: "odb_role_get memory_db sample_roles hex_encode (rp_project (resource_project ''p'')) (User ''bob'' None) ?d = Inr (Some Reader)"
    by code_simp
  have "project_view sample_projects (record_table ?d) (rp_project (resource_project ''p'')) = Some sample_project"
    and "role_view sample_roles hex_encode (record_table ?d) (rp_project (resource_project ''p'')) ''bob'' = Some Reader"
    by code_simp+
  then show ?thesis
    unfolding role_policy_decides [OF ok project role] by (simp add: sample_project_def project_meta_new_def)
qed

text \<open>
  C14: Creating a project is all or nothing.  When \<open>create_project\<close> succeeds, no project of that
  name was stored before, and now the returned metadata is stored with ETag \<open>v1\<close> and the
  authenticated caller holds the Owner role in it; when it fails, not a single record has
  changed.
\<close>

theorem create_project_atomic:
  assumes "inner_ok d" "codec_ok pc" "codec_ok rc"
    and "co_projects co = objdb_project_store memory_db pc rc hex"
    and "create_project co name vis token d = (r, d')"
  shows "case r of
      Inl e \<Rightarrow> record_table d' = record_table d
    | Inr m \<Rightarrow> record_table d (project_collection, name) = None
        \<and> project_view pc (record_table d') name = Some m \<and> pm_name m = name \<and> pm_visibility m = vis \<and> pm_etag m = ''v1''
        \<and> \<not> pm_archived m
        \<and> (\<exists>who i. co_authn co token = Inr who \<and> identity_id who = Some i \<and> pm_creator m = i
             \<and> role_view rc hex (record_table d') name i = Some Owner)"
proof (cases r)
  case (Inl e)
  have "d' = d \<or> (\<exists>meta i e'. create_with_owner memory_db pc rc hex meta i d = (Inl e', d'))"
    using assms(4,5) Inl
    by (auto simp: create_project_def Let_def result_simps split: if_splits)
  then show ?thesis
    using mdb.create_with_members_Inl [OF assms(1)] Inl by (auto simp: create_with_owner_def)
next
  case (Inr m)
  obtain who i now where who: "co_authn co token = Inr who" "identity_id who = Some i"
    and c: "create_with_members memory_db pc rc hex (project_meta_new name vis i now) [(i, Owner)] d = (Inr m, d')"
    using assms(4,5) Inr
    by (auto simp: create_project_def Let_def result_simps is_anonymous_iff create_with_owner_def split: if_splits)
  show ?thesis
    using mdb.create_with_members_Inr [OF assms(2,3,1) c] who Inr by (auto simp: project_meta_new_def)
qed

theorem create_project_atomic_witness:
  "project_view sample_projects (record_table (snd (create_project sample_core ''p'' Private (Some ''a'') empty_db))) ''p''
     = Some sample_project
   \<and> role_view sample_roles hex_encode (record_table (snd (create_project sample_core ''p'' Private (Some ''a'') empty_db))) ''p'' ''ann''
     = Some Owner"
proof -
  have run: "create_project sample_core ''p'' Private (Some ''a'') empty_db = (Inr sample_project, sample_members [(''ann'', [1])])"
    by code_simp
  have "co_authn sample_core (Some ''a'') = Inr (User ''ann'' None)" by code_simp
  moreover have "inner_ok empty_db" by code_simp
  ultimately show ?thesis
    using create_project_atomic [OF _ sample_projects_ok sample_roles_ok sample_core_sel(2) run] by (auto simp: run)
qed

section \<open>The last Owner\<close>

lemma access_result_state: "access_result m = (x, t) \<Longrightarrow> \<exists>y. m = (y, t)"
  by (cases m) (simp add: access_result_def)

lemma has_owner_other:
  "j \<noteq> i \<Longrightarrow> role_view rc hex T p j = Some Owner \<Longrightarrow>
    T' = T \<or> (\<forall>q k. role_view rc hex T' q k = (if q = p \<and> k = i then x else role_view rc hex T q k)) \<Longrightarrow> has_owner rc hex p T'"
  unfolding has_owner_def by metis

text \<open>
  C13: Member management by one caller at a time never orphans a project.  If a project has an
  Owner, it still has one after \<open>remove_member\<close> or \<open>update_member_role\<close>, whoever calls it, whatever
  the identity and role, and whether the call succeeds or fails, as long as no other process
  writes between the check and the write.
\<close>

theorem owner_survives:
  assumes "hex_ok hex" "codec_ok rc" "inner_ok d" and "co_roles co = objdb_role_store memory_db rc hex"
    and "has_owner rc hex p (record_table d)"
    and "remove_member co (\<lambda>s. s) alone p i token d = (x, d')
       \<or> update_member_role co (\<lambda>s. s) alone p i role token d = (x, d')"
  shows "has_owner rc hex p (record_table d')"
proof (cases "d' = d")
  case False
  from assms(6) show ?thesis
  proof
    assume "remove_member co (\<lambda>s. s) alone p i token d = (x, d')"
    with False obtain y where guard: "guard_last_owner co p i True None d = Inr ()"
      and run: "odb_role_remove memory_db rc hex alone p i d = (y, d')"
      by (auto simp: remove_member_def assms(4) dest!: and_then_st_progress [OF _ progressedI] access_result_state)
    obtain j where j: "j \<noteq> i" "role_view rc hex (record_table d) p j = Some Owner" and ok: "roles_ok rc hex (record_table d)"
      using guard_last_owner_Inr [OF assms(1,3,4) guard assms(5)] by auto
    show ?thesis
      using has_owner_other [OF j] mdb.role_remove_cases [OF assms(2,1,3) ok run] False by blast
  next
    assume "update_member_role co (\<lambda>s. s) alone p i role token d = (x, d')"
    with False obtain y where guard: "guard_last_owner co p i False (Some role) d = Inr ()"
      and run: "odb_role_set memory_db rc hex alone p i role d = (y, d')"
      by (auto simp: update_member_role_def assms(4) dest!: and_then_st_progress [OF _ progressedI] access_result_state)
    note set = mdb.role_set_cases [OF assms(2,1,3) run]
    show ?thesis
    proof (cases "role = Owner")
      case True
      then show ?thesis using set False by (auto simp: has_owner_def)
    next
      case other: False
      obtain j where j: "j \<noteq> i" "role_view rc hex (record_table d) p j = Some Owner"
        using guard_last_owner_Inr [OF assms(1,3,4) guard assms(5)] other by auto
      show ?thesis using has_owner_other [OF j] set False by blast
    qed
  qed
qed (use assms(5) in simp)

theorem owner_survives_witness:
  "has_owner sample_roles hex_encode ''p'' (record_table (snd (remove_member sample_core (\<lambda>s. s) alone ''p'' ''ann'' (Some ''b'')
     (sample_members [(''ann'', [1]), (''bob'', [4])]))))"
proof -
  let ?d = "sample_members [(''ann'', [1]), (''bob'', [4])]"
  have run: "remove_member sample_core (\<lambda>s. s) alone ''p'' ''ann'' (Some ''b'') ?d
      = (Inr (), sample_members [(''ann'', [3]), (''bob'', [4])])"
    by code_simp
  have ok: "inner_ok ?d" by code_simp
  have "role_view sample_roles hex_encode (record_table ?d) ''p'' ''ann'' = Some Owner" by code_simp
  then have owner: "has_owner sample_roles hex_encode ''p'' (record_table ?d)" by (auto simp: has_owner_def)
  show ?thesis
    using owner_survives [OF hex_encode_ok sample_roles_ok ok sample_core_sel(1) owner disjI1 [OF run]] run by simp
qed



section \<open>Archiving\<close>

lemma authorize_project_owner_Inr:
  "authorize_project_owner co p who s = Inr () \<longleftrightarrow>
    (\<exists>i. identity_id who = Some i) \<and> rs_get (co_roles co) p who s = Inr (Some Owner)"
  by (cases "identity_id who"; cases "rs_get (co_roles co) p who s")
    (auto simp: authorize_project_owner_def map_err_def split: option.splits role.splits)




section \<open>Listing\<close>

lemma decode_projects_Inr:
  "decode_projects c kvs = Inr ms \<Longrightarrow>
    map pm_name ms = map fst kvs \<and> list_all2 (\<lambda>(k, b) m. cd_dec c b = Inr m) kvs ms"
proof (induction kvs arbitrary: ms)
  case (Cons kv kvs)
  obtain k b where kv: "kv = (k, b)" by force
  obtain m rest where "cd_dec c b = Inr m" "pm_name m = k" "decode_projects c kvs = Inr rest" "ms = m # rest"
    using Cons.prems kv by (auto simp: result_simps split: if_splits)
  then show ?case using Cons.IH kv by simp
qed simp

context record_db_laws
begin

lemma project_list_view:
  assumes "inv s" and "odb_project_list db c s = Inr ms"
  shows "set ms = {m. project_view c (tbl s) (pm_name m) = Some m}" and "sorted (map pm_name ms)" "distinct (map pm_name ms)"
proof -
  obtain kvs xs where kvs: "rdb_list db project_collection s = Inr kvs" and xs: "decode_projects c kvs = Inr xs"
    and ms: "ms = sort_key pm_name xs"
    using assms(2) by (auto simp: odb_project_list_def result_simps)
  have ks: "set kvs = {(k, v). tbl s (project_collection, k) = Some v}" "distinct (map fst kvs)"
    using list_ok [OF assms(1) kvs] by simp_all
  note dec = decode_projects_Inr [OF xs]
  show "sorted (map pm_name ms)" using ms by simp
  have "distinct (map pm_name xs)" using dec ks(2) by simp
  then show "distinct (map pm_name ms)" using ms by (simp add: distinct_map)
  have "set xs = {m. project_view c (tbl s) (pm_name m) = Some m}"
  proof (intro set_eqI iffI)
    fix m assume "m \<in> set xs"
    then obtain i where i: "i < length xs" "xs ! i = m" by (auto simp: in_set_conv_nth)
    have len: "length kvs = length xs" using dec by (metis length_map)
    have "fst (kvs ! i) = pm_name m" using dec i len by (metis nth_map)
    moreover have "cd_dec c (snd (kvs ! i)) = Inr m"
      using dec i len by (auto simp: list_all2_conv_all_nth case_prod_unfold)
    moreover have "kvs ! i \<in> set kvs" using i len by simp
    ultimately have "tbl s (project_collection, pm_name m) = Some (snd (kvs ! i))"
      using ks(1) by (cases "kvs ! i") simp
    then show "m \<in> {m. project_view c (tbl s) (pm_name m) = Some m}"
      using \<open>cd_dec c (snd (kvs ! i)) = Inr m\<close> by (simp add: coll_view_def)
  next
    fix m assume "m \<in> {m. project_view c (tbl s) (pm_name m) = Some m}"
    then obtain b where b: "tbl s (project_collection, pm_name m) = Some b" "cd_dec c b = Inr m"
      by (auto simp: coll_view_Some)
    then have "(pm_name m, b) \<in> set kvs" using ks(1) by simp
    then obtain i where i: "i < length kvs" "kvs ! i = (pm_name m, b)" unfolding in_set_conv_nth by blast
    have "length kvs = length xs" using dec by (metis length_map)
    then have "xs ! i = m" "i < length xs" using dec i b(2) by (auto simp: list_all2_conv_all_nth)
    then show "m \<in> set xs" by force
  qed
  then show "set ms = {m. project_view c (tbl s) (pm_name m) = Some m}" using ms by simp
qed

end

lemma visible_projects_Inr:
  "visible_projects co False who s xs = Inr ms \<Longrightarrow>
    ms = filter (\<lambda>m. \<not> pm_archived m \<and> authorize_project_read co m who s = Inr ()) xs"
proof (induction xs arbitrary: ms)
  case (Cons m xs)
  show ?case
  proof (cases "pm_archived m")
    case False
    then show ?thesis using Cons
      by (cases "authorize_project_read co m who s") (auto simp: result_simps split: core_error.splits authz_error.splits)
  qed (use Cons in simp)
qed simp

text \<open>
  C16: Listing projects shows each caller exactly what the caller may read: the result holds, sorted by
  name and without repetition, precisely the stored projects that are not archived and that the role policy lets the
  caller read.
\<close>

theorem list_projects_exact:
  assumes "inner_ok d" and "co_projects co = objdb_project_store memory_db pc rc hex"
    and "co_authz co = role_based_check (objdb_role_store memory_db rc hex) (objdb_project_store memory_db pc rc hex)"
    and "co_authn co token = Inr who" and "list_projects co token d = Inr ms"
  shows "set ms = {m. project_view pc (record_table d) (pm_name m) = Some m \<and> \<not> pm_archived m
      \<and> role_based_check (objdb_role_store memory_db rc hex) (objdb_project_store memory_db pc rc hex) who Read
          (resource_project (pm_name m)) d = Inr ()}
    \<and> sorted (map pm_name ms) \<and> distinct (map pm_name ms)"
proof -
  obtain all where all: "odb_project_list memory_db pc d = Inr all" and vis: "visible_projects co False who d all = Inr ms"
    using assms(2,4,5) by (auto simp: list_projects_def list_projects_with_archived_def result_simps)
  note view = mdb.project_list_view [OF assms(1) all]
  have ms: "ms = filter (\<lambda>m. \<not> pm_archived m \<and> authorize_project_read co m who d = Inr ()) all"
    using visible_projects_Inr [OF vis] .
  have "\<not> pm_archived m \<Longrightarrow> authorize_project_read co m who d = Inr () \<longleftrightarrow>
      role_based_check (objdb_role_store memory_db rc hex) (objdb_project_store memory_db pc rc hex) who Read
          (resource_project (pm_name m)) d = Inr ()" for m
    by (simp add: authorize_project_read_def assms(3) result_simps)
  then have "set ms = {m. project_view pc (record_table d) (pm_name m) = Some m \<and> \<not> pm_archived m
      \<and> role_based_check (objdb_role_store memory_db rc hex) (objdb_project_store memory_db pc rc hex) who Read
          (resource_project (pm_name m)) d = Inr ()}"
    unfolding ms set_filter view(1) by blast
  then show ?thesis using view(2,3) ms by (simp add: sorted_filter distinct_map_filter)
qed

theorem list_projects_exact_witness:
  "list_projects sample_core (Some ''a'') (sample_members [(''ann'', [1])]) = Inr [sample_project]
   \<and> role_based_check (objdb_role_store memory_db sample_roles hex_encode)
       (objdb_project_store memory_db sample_projects sample_roles hex_encode) (User ''ann'' None) Read
       (resource_project ''p'') (sample_members [(''ann'', [1])]) = Inr ()"
proof -
  have run: "list_projects sample_core (Some ''a'') (sample_members [(''ann'', [1])]) = Inr [sample_project]" by code_simp
  have ok: "inner_ok (sample_members [(''ann'', [1])])" by code_simp
  have who: "co_authn sample_core (Some ''a'') = Inr (User ''ann'' None)" by code_simp
  have "sample_project \<in> set [sample_project]" by simp
  then have "role_based_check (objdb_role_store memory_db sample_roles hex_encode)
       (objdb_project_store memory_db sample_projects sample_roles hex_encode) (User ''ann'' None) Read
       (resource_project (pm_name sample_project)) (sample_members [(''ann'', [1])]) = Inr ()"
    using list_projects_exact [OF ok sample_core_sel(2,3) who run] by blast
  moreover have "pm_name sample_project = ''p''" by code_simp
  ultimately show ?thesis using run by simp
qed

end
