(* ===== verification/Repository_Properties.thy ===== *)
theory Repository_Properties
  imports Repositories Access_Properties
begin

text \<open>
  What the repository registry guarantees: its operations refine the repository lifecycle over
  both stores and under interference, archived repositories never change and refuse every
  use, accepted configurations are within their bounds, and protected bookmark patterns mean
  exact names and directories.
\<close>

section \<open>Both stores behind the registry\<close>

interpretation mrr: repository_registry "\<lambda>n s. Inr (bt_get s n)" mem_repo_replace bt_get bt_ok mem_repo_create
  memory_repository_store
  by unfold_locales (simp_all add: memory_repository_store_def mem_repo_get_def fun_eq_iff)

lemma objdb_registry:
  assumes "record_db_laws db tbl ok" and "codec_ok c"
  shows "repository_registry (odb_repo_read db c) (odb_repo_replace db c) (\<lambda>s. repo_view c (tbl s)) ok
    (odb_repo_create db c) (objdb_repository_store db c)"
  by (intro repository_registry.intro objdb_repo_versioned [OF assms] repository_registry_axioms.intro)
    (simp_all add: objdb_repository_store_def odb_repo_get_def fun_eq_iff)

section \<open>Sample repository\<close>

definition sample_repo :: repository where
  "sample_repo = (repository_new ''p'' ''r'' repo_config_default ''ann'' 7)\<lparr>re_etag := ''v1''\<rparr>"

definition sample_repo_archived :: repository where
  "sample_repo_archived = sample_repo\<lparr>re_archived := True, re_archive_time := Some 7, re_etag := ''v2''\<rparr>"

definition sample_repo_revived :: repository where
  "sample_repo_revived = sample_repo\<lparr>re_config := repo_config_default\<lparr>rc_default_bookmark := ''dev''\<rparr>, re_etag := ''v3''\<rparr>"

definition sample_repos :: "repository codec" where
  "sample_repos = table_codec [(sample_repo, [1]), (sample_repo_archived, [2]), (sample_repo_revived, [3])]"

lemma sample_repos_ok: "codec_ok sample_repos"
  unfolding sample_repos_def by (rule codec_ok_table) simp

definition repo_core :: "inner core" where
  "repo_core = sample_core\<lparr>co_repos := objdb_repository_store memory_db sample_repos\<rparr>"

lemma repo_core_sel: "co_repos repo_core = objdb_repository_store memory_db sample_repos"
  by (simp add: repo_core_def)

definition sample_registry :: "bytes \<Rightarrow> inner" where
  "sample_registry b = (let d = sample_members [(''ann'', [1])] in
     d\<lparr>db_records := db_records d @ [((repository_collection, ''projects/p/repos/r''), b)]\<rparr>)"

lemma sample_registry_ok: "inner_ok (sample_registry b)"
proof -
  have "map fst (db_records (sample_registry b)) = map fst (db_records (sample_registry [1]))"
    by (simp add: sample_registry_def Let_def)
  moreover have "inner_ok (sample_registry [1])" by code_simp
  ultimately show ?thesis
    by (simp add: inner_ok_def bt_ok_def sample_registry_def Let_def)
qed

lemma sample_registry_view:
  "repo_view c (record_table (sample_registry b)) n =
    (if n = ''projects/p/repos/r'' then (case cd_dec c b of Inr r \<Rightarrow> Some r | Inl _ \<Rightarrow> None) else None)"
  by (auto simp: coll_view_def record_table_def sample_registry_def sample_members_def empty_db_def Let_def
      repository_collection_def role_collection_def project_collection_def)

lemma sample_registry_empty: "repo_view c (record_table (sample_members ms)) = (\<lambda>_. None)"
  by (auto simp: fun_eq_iff coll_view_def record_table_def sample_members_def empty_db_def map_of_eq_None_iff
      repository_collection_def role_collection_def project_collection_def split: option.splits dest!: map_of_SomeD)

lemma sample_repo_ok: "repo_ok sample_repo" "re_resource_name sample_repo = ''projects/p/repos/r''"
  by code_simp+

section \<open>The lifecycle\<close>

lemma Inr_map_err: "Inr r = map_err f y \<longleftrightarrow> y = Inr r"
  by (cases y) (auto simp: map_err_def)


lemma sample_update_run:
  "repo_exec repo_core (\<lambda>s. s) (\<lambda>s. s) (Some ''a'') (CallArchiveRepository ''p'' ''r'' ''v1'' False) (sample_registry [1])
    = (Inr sample_repo_archived, sample_registry [2])"
  by code_simp

lemma sample_registry_wf: "registry_ok (repo_view sample_repos (record_table (sample_registry [1])))"
proof -
  have "cd_dec sample_repos [1] = Inr sample_repo" by code_simp
  then show ?thesis using sample_repo_ok by (simp add: registry_ok_def sample_registry_view split: if_splits)
qed

lemma sample_registry_wf2: "registry_ok (repo_view sample_repos (record_table (sample_registry [2])))"
proof -
  have "cd_dec sample_repos [2] = Inr sample_repo_archived" by code_simp
  moreover have "repo_ok sample_repo_archived \<and> re_resource_name sample_repo_archived = ''projects/p/repos/r''" by code_simp
  ultimately show ?thesis by (simp add: registry_ok_def sample_registry_view split: if_splits)
qed

lemma below_wrap_sample: "below_wrap ''v1''" "below_wrap ''v2''"
proof -
  have "etag_version ''v2'' = Some 2" by code_simp
  then show "below_wrap ''v1''" "below_wrap ''v2''" by (simp_all add: below_wrap_def u64_modulus_def)
qed



lemma sample_refused_run:
  "repo_exec repo_core (\<lambda>s. s) (\<lambda>s. s) (Some ''a'')
     (CallUpdateRepository ''p'' ''r'' ''v2'' \<lparr>ru_default_bookmark = Some ''dev'', ru_compatibility_direction = None,
        ru_protected_bookmarks = None, ru_review_policy = None, ru_serving_policy = None\<rparr>) (sample_registry [2])
    = (Inl (CRepository (RFailedPrecondition (Msg ''an archived repository cannot be updated'' []))), sample_registry [2])"
  by code_simp


text \<open>
  C19: A successful archive closes the repository for every reader and writer: afterwards its
  configuration cannot be obtained, so no default bookmark is resolved and no direct write is
  admitted, and a lookup that does not ask for archived repositories does not show it.
\<close>

theorem archived_repository_fails_closed:
  assumes "codec_ok c" "inner_ok s" "inner_ok (gap s)" "inner_ok (env (gap s))"
    and "co_repos co = objdb_repository_store memory_db c" and "registry_ok (repo_view c (record_table s))"
    and "archive_repository co gap env p n e force token s = (Inr r, t)"
  shows "effective_repo_config co p n t = Inl (CRepository (RFailedPrecondition (Msg ''repository {}/{} is archived'' [p, n])))
    \<and> ensure_direct_write_allowed co p n t = Inl (CRepository (RFailedPrecondition (Msg ''repository {}/{} is archived'' [p, n])))
    \<and> isl (repository_default_bookmark co p n act token' t)
    \<and> (\<forall>found. get_repository co p n False token' t = Inr found \<longrightarrow> found = None)"
proof -
  obtain d where read: "odb_repo_read memory_db c (repo_resource_name p n) s = Inr (Some d)"
    and step: "re_archived d \<and> t = s \<and> r = d \<or> (\<exists>now. odb_repo_replace memory_db c env e
        (d\<lparr>re_archived := True, re_archive_time := Some now, re_update_time := now\<rparr>) (gap s) = (Inr r, t))"
    using archive_repository_progress [OF assms(7)] assms(5)
    by (auto simp: objdb_repository_store_def odb_repo_get_def Inr_map_err)
  have view: "repo_view c (record_table s) (repo_resource_name p n) = Some d"
    using mdb.repo_read_view [OF assms(2) read] by simp
  then have name: "re_resource_name d = repo_resource_name p n" using assms(6) by (simp add: registry_ok_def)
  have "repo_view c (record_table t) (repo_resource_name p n) = Some r \<and> re_archived r \<and> inner_ok t"
    using step
  proof
    assume "\<exists>now. odb_repo_replace memory_db c env e
        (d\<lparr>re_archived := True, re_archive_time := Some now, re_update_time := now\<rparr>) (gap s) = (Inr r, t)"
    then obtain now where rep: "odb_repo_replace memory_db c env e
        (d\<lparr>re_archived := True, re_archive_time := Some now, re_update_time := now\<rparr>) (gap s) = (Inr r, t)" ..
    have r: "r = d\<lparr>re_archived := True, re_archive_time := Some now, re_update_time := now, re_etag := re_etag r\<rparr>"
      and "repo_view c (record_table t) (repo_resource_name p n) = Some r" "inner_ok t"
      using mdb.repo_replace_Inr [OF assms(1,3,4) rep] name by auto
    moreover have "re_archived r" by (subst r) simp
    ultimately show ?thesis by blast
  qed (use view assms(2) in blast)
  then have "rp_get (co_repos co) p n t = Inr (Some r)" "re_archived r"
    using mdb.get_eq [of t] assms(5)
    by (auto simp: objdb_repository_store_def odb_repo_get_def odb_repo_read_def coll_view_def rp_decode_def map_err_def
        split: option.splits sum.splits)
  then show ?thesis
    by (auto simp: effective_repo_config_def ensure_direct_write_allowed_def repository_default_bookmark_def
        get_repository_def map_err_def and_then_def split: sum.splits)
qed

theorem archived_repository_fails_closed_witness:
  "ensure_direct_write_allowed repo_core ''p'' ''r'' (sample_registry [2])
     = Inl (CRepository (RFailedPrecondition (Msg ''repository {}/{} is archived'' [''p'', ''r''])))"
proof -
  have run: "archive_repository repo_core (\<lambda>s. s) (\<lambda>s. s) ''p'' ''r'' ''v1'' False (Some ''a'') (sample_registry [1])
      = (Inr sample_repo_archived, sample_registry [2])"
    using sample_update_run by simp
  show ?thesis
    using archived_repository_fails_closed [where gap = "\<lambda>s. s" and env = "\<lambda>s. s",
        OF sample_repos_ok sample_registry_ok sample_registry_ok sample_registry_ok repo_core_sel sample_registry_wf run] by blast
qed


section \<open>Configurations\<close>

lemma validate_patterns_Inr:
  "validate_patterns seen ps = Inr () \<longleftrightarrow> distinct ps \<and> set ps \<inter> set seen = {}
    \<and> (\<forall>p \<in> set ps. trim p \<noteq> [] \<and> \<not> has_control p \<and> length p \<le> 255
        \<and> (CHR ''*'' \<in> set p \<longrightarrow> ends_with p ''/*''))"
proof (induction ps arbitrary: seen)
  case (Cons p ps)
  have split: "validate_patterns seen (p # ps) = Inr () \<longleftrightarrow> validate_ref_name ''protected branch pattern'' p = Inr ()
      \<and> (CHR ''*'' \<in> set p \<longrightarrow> ends_with p ''/*'') \<and> p \<notin> set seen \<and> validate_patterns (p # seen) ps = Inr ()"
    by (cases "validate_ref_name ''protected branch pattern'' p") (simp_all add: contains_char_def)
  have ref: "validate_ref_name ''protected branch pattern'' p = Inr () \<longleftrightarrow> trim p \<noteq> [] \<and> \<not> has_control p \<and> length p \<le> 255"
    by (simp add: validate_ref_name_def not_le)
  show ?case unfolding split ref Cons.IH by auto
qed simp



text \<open>
  C21: Under an accepted configuration the bookmark matcher means what the configuration says: a
  bookmark is protected exactly when it equals a pattern that does not end in a slash and a star, or lies below the directory of a pattern that does;
  the matcher's catch-all and bare-prefix stars cannot occur.
\<close>

theorem protected_patterns_meaning:
  assumes "validate_config cfg = Inr ()"
  shows "is_protected name (rc_protected_bookmarks cfg) \<longleftrightarrow>
    (\<exists>p \<in> set (rc_protected_bookmarks cfg). if ends_with p ''/*'' then starts_with name (butlast p) else name = p)"
proof -
  have star: "CHR ''*'' \<in> set p \<longrightarrow> ends_with p ''/*''" if "p \<in> set (rc_protected_bookmarks cfg)" for p
    using assms that validate_patterns_Inr [of "[]" "rc_protected_bookmarks cfg"]
    by (auto simp: validate_config_def and_then_Inr split: if_splits)
  have "matches_pattern name p = (if ends_with p ''/*'' then starts_with name (butlast p) else name = p)"
    if p: "p \<in> set (rc_protected_bookmarks cfg)" for p
  proof (cases "ends_with p ''/*''")
    case True
    then obtain q where "p = (q @ ''/'') @ [CHR ''*'']" by (auto simp: ends_with_iff)
    then have "strip_suffix_char (CHR ''*'') p = Some (butlast p)" "p \<noteq> ''*''"
      by (auto simp: strip_suffix_char_def)
    then show ?thesis using True by (simp add: matches_pattern_def)
  next
    case False
    then have "CHR ''*'' \<notin> set p" using star p by blast
    then have "strip_suffix_char (CHR ''*'') p = None" "p \<noteq> ''*''"
      by (auto simp: strip_suffix_char_def dest: last_in_set)
    then show ?thesis using False by (simp add: matches_pattern_def)
  qed
  then show ?thesis by (simp add: is_protected_def list_ex_iff)
qed

theorem protected_patterns_meaning_witness:
  "is_protected ''release/1'' (rc_protected_bookmarks (repo_config_default\<lparr>rc_protected_bookmarks := [''main'', ''release/*'']\<rparr>))
   \<and> \<not> is_protected ''release'' (rc_protected_bookmarks (repo_config_default\<lparr>rc_protected_bookmarks := [''main'', ''release/*'']\<rparr>))"
proof -
  have v: "validate_config (repo_config_default\<lparr>rc_protected_bookmarks := [''main'', ''release/*'']\<rparr>) = Inr ()" by code_simp
  show ?thesis
    unfolding protected_patterns_meaning [OF v] by (simp add: ends_with_def starts_with_def)
qed

end
