(* ===== verification/Effects.thy ===== *)
theory Effects
  imports Object_Db
begin

text \<open>
  Procedures that read the clock, draw random identifiers and make several database calls, while
  other processes run between any two of these.  A \<open>world\<close> is the shared state together with
  the number of effects performed so far; the \<open>surroundings\<close> say what the clock shows,
  which identifier is drawn and what other processes have done by the time of each effect.  The
  combinators are those of a program over any state that ends with an error or a value.
\<close>

type_synonym 's world = "'s \<times> nat"

type_synonym ('w, 'e, 'a) prog = "'w \<Rightarrow> ('e + 'a) \<times> 'w"

type_synonym ('s, 'e, 'a) io = "('s world, 'e, 'a) prog"

record 's surroundings =
  su_clock :: "nat \<Rightarrow> string + nat"
  su_uuid :: "nat \<Rightarrow> string"
  su_others :: "nat \<Rightarrow> 's \<Rightarrow> 's"

definition io_return :: "'a \<Rightarrow> ('w, 'e, 'a) prog" where
  "io_return x w = (Inr x, w)"

definition io_fail :: "'e \<Rightarrow> ('w, 'e, 'a) prog" where
  "io_fail e w = (Inl e, w)"

definition io_of :: "'e + 'a \<Rightarrow> ('w, 'e, 'a) prog" where
  "io_of r w = (r, w)"

definition io_bind :: "('w, 'e, 'a) prog \<Rightarrow> ('a \<Rightarrow> ('w, 'e, 'b) prog) \<Rightarrow> ('w, 'e, 'b) prog" where
  "io_bind m k w = (case m w of (Inl e, w') \<Rightarrow> (Inl e, w') | (Inr x, w') \<Rightarrow> k x w')"

definition io_map_err :: "('e \<Rightarrow> 'f) \<Rightarrow> ('w, 'e, 'a) prog \<Rightarrow> ('w, 'f, 'a) prog" where
  "io_map_err f m w = (case m w of (r, w') \<Rightarrow> (map_err f r, w'))"

text \<open>\<open>Drop\<close>: run \<open>m\<close>, then \<open>f\<close> whatever the outcome of \<open>m\<close>, and keep that outcome.\<close>

definition io_finally :: "('w, 'e, 'a) prog \<Rightarrow> ('w, 'e, 'b) prog \<Rightarrow> ('w, 'e, 'a) prog" where
  "io_finally m f w = (case m w of (r, w') \<Rightarrow> (r, snd (f w')))"

definition io_clock :: "'s surroundings \<Rightarrow> (string + nat \<Rightarrow> 'e + int) \<Rightarrow> ('s, 'e, int) io" where
  "io_clock su f w = (f (su_clock su (snd w)), (fst w, Suc (snd w)))"

definition io_uuid :: "'s surroundings \<Rightarrow> ('s, 'e, string) io" where
  "io_uuid su w = (Inr (su_uuid su (snd w)), (fst w, Suc (snd w)))"

definition io_call :: "'s surroundings \<Rightarrow> ('s \<Rightarrow> ('e + 'a) \<times> 's) \<Rightarrow> ('s, 'e, 'a) io" where
  "io_call su f w = (case f (su_others su (snd w) (fst w)) of (r, s) \<Rightarrow> (r, (s, Suc (snd w))))"

definition io_read :: "'s surroundings \<Rightarrow> ('s \<Rightarrow> 'e + 'a) \<Rightarrow> ('s, 'e, 'a) io" where
  "io_read su f = io_call su (\<lambda>s. (f s, s))"

text \<open>A call of the database, with its errors converted.\<close>

definition db_call :: "'s surroundings \<Rightarrow> (db_error \<Rightarrow> 'e) \<Rightarrow> ('s \<Rightarrow> (db_error + 'a) \<times> 's) \<Rightarrow> ('s, 'e, 'a) io" where
  "db_call su conv f = io_call su (\<lambda>s. case f s of (r, t) \<Rightarrow> (map_err conv r, t))"

definition db_read :: "'s surroundings \<Rightarrow> (db_error \<Rightarrow> 'e) \<Rightarrow> ('s \<Rightarrow> db_error + 'a) \<Rightarrow> ('s, 'e, 'a) io" where
  "db_read su conv f = db_call su conv (\<lambda>s. (f s, s))"

section \<open>Running procedures\<close>

lemma io_run [result_simps]:
  "io_return x w = (r, w') \<longleftrightarrow> r = Inr x \<and> w' = w" "io_fail e w = (r, w') \<longleftrightarrow> r = Inl e \<and> w' = w"
  "io_of q w = (r, w') \<longleftrightarrow> q = r \<and> w' = w"
  by (auto simp: io_return_def io_fail_def io_of_def)

lemma io_if [result_simps]:
  "(if b then m else n) w = (r, w') \<longleftrightarrow> b \<and> m w = (r, w') \<or> \<not> b \<and> n w = (r, w')"
  by simp

lemma io_bind_run:
  "m w = (Inl e, w') \<Longrightarrow> io_bind m k w = (Inl e, w')"
  "m w = (Inr x, w') \<Longrightarrow> io_bind m k w = k x w'"
  by (simp_all add: io_bind_def)

lemma io_bind_simps [simp]:
  "io_bind (io_return x) k = k x" "io_bind (io_fail e) k = io_fail e"
  "io_bind (io_of (Inr x)) k = k x" "io_bind (io_of (Inl e)) k = io_fail e"
  by (simp_all add: io_bind_def fun_eq_iff io_return_def io_fail_def io_of_def)

lemma io_bind_Inr [result_simps]:
  "io_bind m k w = (Inr y, w') \<longleftrightarrow> (\<exists>x v. m w = (Inr x, v) \<and> k x v = (Inr y, w'))"
  by (auto simp: io_bind_def split: prod.splits sum.splits)

lemma io_bind_Inl [result_simps]:
  "io_bind m k w = (Inl e, w') \<longleftrightarrow> m w = (Inl e, w') \<or> (\<exists>x v. m w = (Inr x, v) \<and> k x v = (Inl e, w'))"
  by (auto simp: io_bind_def split: prod.splits sum.splits)

lemma io_map_err_iff [result_simps]:
  "io_map_err f m w = (Inr y, w') \<longleftrightarrow> m w = (Inr y, w')"
  "io_map_err f m w = (Inl e, w') \<longleftrightarrow> (\<exists>d. m w = (Inl d, w') \<and> e = f d)"
  by (auto simp: io_map_err_def map_err_Inr map_err_Inl split: prod.splits)

lemma io_bind_cong [fundef_cong]:
  "m w = m' w' \<Longrightarrow> w = w' \<Longrightarrow> (\<And>x v. m' w' = (Inr x, v) \<Longrightarrow> k x v = k' x v) \<Longrightarrow> io_bind m k w = io_bind m' k' w'"
  by (auto simp: io_bind_def split: prod.splits sum.splits)

section \<open>Rely and guarantee\<close>

text \<open>
  \<open>guarantees R ok m\<close>: from a state satisfying \<open>ok\<close> the procedure ends in a state satisfying
  \<open>ok\<close> that is related to the first by \<open>R\<close>, whatever its outcome.  \<open>R\<close> is meant to
  be reflexive and transitive.
\<close>

named_theorems io_intros \<open>introduction rules for guarantees\<close>

definition guarantees :: "('s \<Rightarrow> 's \<Rightarrow> bool) \<Rightarrow> ('s \<Rightarrow> bool) \<Rightarrow> ('s, 'e, 'a) io \<Rightarrow> bool" where
  "guarantees R ok m \<longleftrightarrow> (\<forall>w x w'. ok (fst w) \<longrightarrow> m w = (x, w') \<longrightarrow> ok (fst w') \<and> R (fst w) (fst w'))"

lemma guaranteesI:
  assumes "\<And>w x w'. ok (fst w) \<Longrightarrow> m w = (x, w') \<Longrightarrow> ok (fst w') \<and> R (fst w) (fst w')"
  shows "guarantees R ok m"
  unfolding guarantees_def using assms by blast

lemma guaranteesD:
  assumes "guarantees R ok m" and "ok (fst w)" and "m w = (x, w')"
  shows "ok (fst w')" and "R (fst w) (fst w')"
  using assms unfolding guarantees_def by blast+

locale io_relation =
  fixes R :: "'s \<Rightarrow> 's \<Rightarrow> bool"
    and ok :: "'s \<Rightarrow> bool"
    and su :: "'s surroundings"
  assumes refl_R: "R s s"
    and trans_R: "R s t \<Longrightarrow> R t u \<Longrightarrow> R s u"
    and others_ok: "ok s \<Longrightarrow> ok (su_others su n s) \<and> R s (su_others su n s)"
begin

lemma guarantees_pure [io_intros]:
  "guarantees R ok (io_return x)" "guarantees R ok (io_fail e)" "guarantees R ok (io_of r)"
  "guarantees R ok (io_clock su f)" "guarantees R ok (io_uuid su)"
  by (rule guaranteesI; force simp: io_clock_def io_uuid_def io_run refl_R)+

lemma guarantees_bind [io_intros]:
  assumes "guarantees R ok m" and "\<And>x w w'. m w = (Inr x, w') \<Longrightarrow> guarantees R ok (k x)"
  shows "guarantees R ok (io_bind m k)"
proof (rule guaranteesI)
  fix w y w'
  assume ok: "ok (fst w)" and run: "io_bind m k w = (y, w')"
  obtain x v where m: "m w = (x, v)" by (meson surj_pair)
  note v = guaranteesD [OF assms(1) ok m]
  show "ok (fst w') \<and> R (fst w) (fst w')"
  proof (cases x)
    case (Inl e)
    then show ?thesis using run m v by (simp add: io_bind_def)
  next
    case (Inr a)
    then have "k a v = (y, w')" using run m by (simp add: io_bind_def)
    from guaranteesD [OF assms(2) v(1) this] show ?thesis using m Inr v(2) trans_R by blast
  qed
qed

lemma guarantees_map_err [io_intros]:
  assumes "guarantees R ok m"
  shows "guarantees R ok (io_map_err f m)"
proof (rule guaranteesI)
  fix w y w'
  assume ok: "ok (fst w)" and run: "io_map_err f m w = (y, w')"
  obtain x v where m: "m w = (x, v)" by (meson surj_pair)
  from guaranteesD [OF assms ok m] show "ok (fst w') \<and> R (fst w) (fst w')"
    using run m by (simp add: io_map_err_def)
qed

lemma guarantees_finally [io_intros]:
  assumes "guarantees R ok m" "guarantees R ok f"
  shows "guarantees R ok (io_finally m f)"
proof (rule guaranteesI)
  fix w y w'
  assume ok: "ok (fst w)" and run: "io_finally m f w = (y, w')"
  obtain x v where m: "m w = (x, v)" by (meson surj_pair)
  obtain z u where f: "f v = (z, u)" by (meson surj_pair)
  note v = guaranteesD [OF assms(1) ok m]
  from guaranteesD [OF assms(2) v(1) f] show "ok (fst w') \<and> R (fst w) (fst w')"
    using run m f v(2) trans_R by (auto simp: io_finally_def)
qed

lemma guarantees_call:
  assumes "\<And>s x t. ok s \<Longrightarrow> f s = (x, t) \<Longrightarrow> ok t \<and> R s t"
  shows "guarantees R ok (io_call su f)"
proof (rule guaranteesI)
  fix w y w'
  assume ok: "ok (fst w)" and run: "io_call su f w = (y, w')"
  let ?s = "su_others su (snd w) (fst w)"
  obtain x t where f: "f ?s = (x, t)" by (meson surj_pair)
  have s: "ok ?s" "R (fst w) ?s" using others_ok [OF ok] by auto
  from assms [OF s(1) f] show "ok (fst w') \<and> R (fst w) (fst w')"
    using run f s(2) trans_R by (auto simp: io_call_def)
qed

lemma guarantees_read [io_intros]: "guarantees R ok (io_read su f)" "guarantees R ok (db_read su conv g)"
  unfolding io_read_def db_read_def db_call_def by (rule guarantees_call; auto simp: refl_R)+

lemma guarantees_db_call:
  assumes "\<And>s x t. ok s \<Longrightarrow> f s = (x, t) \<Longrightarrow> ok t \<and> R s t"
  shows "guarantees R ok (db_call su conv f)"
  unfolding db_call_def
proof (rule guarantees_call)
  fix s x t
  assume "ok s" and "(case f s of (r, t) \<Rightarrow> (map_err conv r, t)) = (x, t)"
  then show "ok t \<and> R s t" using assms [of s "fst (f s)" t] by (cases "f s") auto
qed

end

end
