(* ===== verification/Idempotency.thy ===== *)
theory Idempotency
  imports Effects Codec Projects "HOL-Library.Option_ord"
begin

text \<open>
  Durable receipts for retried writes (\<open>mutation/idempotency.rs\<close>): the receipt store
  \<open>IdempotencyStore\<close> with its claims, completions, aborts, expiry and bounded capacity, over any
  record database.  SHA-256 with hexadecimal encoding and \<open>serde_json\<close> are parameters.
\<close>

section \<open>Receipts\<close>

record mutation_response =
  mr_commit_id :: string
  mr_change_id :: string
  mr_conflicted_decls :: "string list"

record idempotency_record =
  ir_version :: nat
  ir_record_key :: string
  ir_scope :: string
  ir_fingerprint :: string
  ir_attempt_id :: string
  ir_lease_expires_at :: int
  ir_create_time :: int
  ir_update_time :: int
  ir_completion_time :: "int option"
  ir_response :: "mutation_response option"

record idempotency_attempt =
  ia_record_key :: string
  ia_attempt_id :: string
  ia_fingerprint :: string

datatype acquisition_result =
    AqDisabled
  | AqComplete mutation_response
  | AqAcquired idempotency_attempt
  | AqObserved idempotency_attempt

datatype observation =
    ObDisabled
  | ObMissing
  | ObComplete mutation_response
  | ObPending (ob_attempt: idempotency_attempt) (ob_lease_live: bool)

record capacity_lock =
  cl_owner :: string
  cl_expires_at :: int

record 's idempotency_store =
  is_db :: "'s record_db"
  is_codec :: "idempotency_record codec"
  is_lock_codec :: "capacity_lock codec"
  is_sha256 :: "string \<Rightarrow> string"
  is_max_entries :: nat
  is_ttl_ms :: int
  is_lease_ms :: int

definition id_collection :: string where "id_collection = ''schemahub.idempotency.v1''"
definition lock_collection :: string where "lock_collection = ''schemahub.idempotency.locks.v1''"
definition capacity_lock_key :: string where "capacity_lock_key = ''capacity''"
definition record_attribute :: string where "record_attribute = ''schemahub.idempotency_record''"
definition attempt_attribute :: string where "attempt_attribute = ''schemahub.idempotency_attempt''"
definition id_max_cas_retries :: nat where "id_max_cas_retries = 8"
definition default_max_entries :: nat where "default_max_entries = 1024"
definition default_ttl_ms :: int where "default_ttl_ms = 24 * 60 * 60 * 1000"
definition default_lease_ms :: int where "default_lease_ms = 30000"
definition pending_retention_ms :: int where "pending_retention_ms = 7 * 24 * 60 * 60 * 1000"

definition attempt_attributes :: "idempotency_attempt \<Rightarrow> (string, string) btree" where
  "attempt_attributes a = bt_insert attempt_attribute (ia_attempt_id a) (bt_insert record_attribute (ia_record_key a) [])"

definition attempt_of :: "idempotency_record \<Rightarrow> idempotency_attempt" where
  "attempt_of r = \<lparr>ia_record_key = ir_record_key r, ia_attempt_id = ir_attempt_id r, ia_fingerprint = ir_fingerprint r\<rparr>"

section \<open>Helpers\<close>

definition id_backend :: "string \<Rightarrow> string list \<Rightarrow> idempotency_error" where
  "id_backend template args = IdBackend (Msg template args)"

definition id_validate_input :: "string \<Rightarrow> string \<Rightarrow> string \<Rightarrow> idempotency_error + unit" where
  "id_validate_input scp key fingerprint =
     (if scp = [] \<or> length scp > 512 \<or> has_control scp
      then Inl (IdInvalidArgument (Msg ''scope must be 1-512 characters without control characters'' []))
      else if key = [] \<or> length key > 512 \<or> has_control key
      then Inl (IdInvalidArgument (Msg ''key must be 1-512 characters without control characters'' []))
      else if \<not> starts_with fingerprint ''sha256:'' \<or> length fingerprint \<noteq> 71
      then Inl (IdInvalidArgument (Msg ''fingerprint must be a sha256 digest'' []))
      else Inr ())"

definition validate_existing :: "idempotency_record \<Rightarrow> string \<Rightarrow> string \<Rightarrow> string \<Rightarrow> idempotency_error + unit" where
  "validate_existing r key scp fingerprint =
     (if ir_version r \<noteq> 1 \<or> ir_record_key r \<noteq> key \<or> ir_scope r \<noteq> scp
      then Inl (id_backend ''idempotency record {} has inconsistent identity'' [key])
      else if ir_fingerprint r \<noteq> fingerprint then Inl (IdKeyReuse key)
      else Inr ())"

definition is_expired :: "idempotency_record \<Rightarrow> int \<Rightarrow> int \<Rightarrow> idempotency_error + bool" where
  "is_expired r now ttl =
     (case (ir_response r, ir_completion_time r) of
        (Some _, Some completed) \<Rightarrow> Inr (i64_saturating_sub now completed \<ge> ttl)
      | (None, None) \<Rightarrow> Inr (i64_saturating_sub now (ir_create_time r) \<ge> pending_retention_ms)
      | _ \<Rightarrow> Inl (id_backend ''idempotency record {} has inconsistent completion state'' [ir_record_key r]))"

definition nul :: char where "nul = CHR 0x00"

definition id_record_key :: "(string \<Rightarrow> string) \<Rightarrow> string \<Rightarrow> string \<Rightarrow> string" where
  "id_record_key sha256 scp key =
     sha256 (''schemahub-idempotency-key-v1'' @ [nul] @ scp @ [nul] @ key)"

definition id_encode :: "idempotency_record codec \<Rightarrow> idempotency_record \<Rightarrow> idempotency_error + bytes" where
  "id_encode c r = map_err (\<lambda>e. id_backend ''encode record: {}'' [e]) (cd_enc c r)"

definition id_decode :: "idempotency_record codec \<Rightarrow> bytes \<Rightarrow> idempotency_error + idempotency_record" where
  "id_decode c b = map_err (\<lambda>e. id_backend ''decode record: {}'' [e]) (cd_dec c b)"

definition id_now :: "string + nat \<Rightarrow> idempotency_error + int" where
  "id_now since_epoch =
     and_then (map_err (\<lambda>e. id_backend ''{}'' [e]) since_epoch) (\<lambda>millis.
     if int millis \<le> i64_max then Inr (int millis) else Inl (id_backend ''system timestamp exceeds i64'' []))"

definition id_map_db :: "db_error \<Rightarrow> idempotency_error" where
  "id_map_db e = id_backend ''{}'' [case e of DbNotFound \<Rightarrow> ''object not found'' | DbBackend m \<Rightarrow> ''database error: '' @ m]"

abbreviation id_get :: "'s surroundings \<Rightarrow> 's idempotency_store \<Rightarrow> string \<Rightarrow> string \<Rightarrow> ('s, idempotency_error, bytes option) io" where
  "id_get su st coll k \<equiv> db_read su id_map_db (rdb_get (is_db st) coll k)"

abbreviation id_create :: "'s surroundings \<Rightarrow> 's idempotency_store \<Rightarrow> string \<Rightarrow> string \<Rightarrow> bytes \<Rightarrow> ('s, idempotency_error, bool) io" where
  "id_create su st coll k v \<equiv> db_call su id_map_db (rdb_create (is_db st) coll k v)"

abbreviation id_cas :: "'s surroundings \<Rightarrow> 's idempotency_store \<Rightarrow> string \<Rightarrow> string \<Rightarrow> bytes \<Rightarrow> bytes \<Rightarrow> ('s, idempotency_error, bool) io" where
  "id_cas su st coll k v w \<equiv> db_call su id_map_db (rdb_cas (is_db st) coll k v w)"

abbreviation id_cad :: "'s surroundings \<Rightarrow> 's idempotency_store \<Rightarrow> string \<Rightarrow> string \<Rightarrow> bytes \<Rightarrow> ('s, idempotency_error, bool) io" where
  "id_cad su st coll k v \<equiv> db_call su id_map_db (rdb_cad (is_db st) coll k v)"

section \<open>The capacity guard\<close>

text \<open>Dropping the guard deletes the lock if it is still the guard's own, ignoring errors.\<close>

definition drop_guard :: "'s surroundings \<Rightarrow> 's idempotency_store \<Rightarrow> bytes \<Rightarrow> ('s, idempotency_error, bool) io" where
  "drop_guard su st lock = id_cad su st lock_collection capacity_lock_key lock"

fun guard_rounds :: "'s surroundings \<Rightarrow> 's idempotency_store \<Rightarrow> nat \<Rightarrow> ('s, idempotency_error, bytes) io" where
  "guard_rounds su st 0 = io_fail (IdInProgress ''capacity reservation'')"
| "guard_rounds su st (Suc left) =
     io_bind (io_clock su id_now) (\<lambda>now.
     io_bind (io_uuid su) (\<lambda>owner.
     io_bind (io_of (ok_or (id_backend ''lock timestamp overflow'' []) (i64_checked_add now default_lease_ms))) (\<lambda>expires.
     io_bind (io_of (map_err (\<lambda>e. id_backend ''encode capacity lock: {}'' [e])
         (cd_enc (is_lock_codec st) \<lparr>cl_owner = owner, cl_expires_at = expires\<rparr>))) (\<lambda>replacement.
     io_bind (id_get su st lock_collection capacity_lock_key) (\<lambda>current.
     case current of
       None \<Rightarrow>
         io_bind (id_create su st lock_collection capacity_lock_key replacement) (\<lambda>created.
         if created then io_return replacement else guard_rounds su st left)
     | Some current \<Rightarrow>
         io_bind (io_of (map_err (\<lambda>e. id_backend ''decode capacity lock: {}'' [e]) (cd_dec (is_lock_codec st) current))) (\<lambda>existing.
         if cl_expires_at existing \<le> now
         then io_bind (id_cas su st lock_collection capacity_lock_key current replacement) (\<lambda>swapped.
           if swapped then io_return replacement else guard_rounds su st left)
         else guard_rounds su st left))))))"

definition acquire_capacity_guard :: "'s surroundings \<Rightarrow> 's idempotency_store \<Rightarrow> ('s, idempotency_error, bytes) io" where
  "acquire_capacity_guard su st = guard_rounds su st id_max_cas_retries"

section \<open>Pruning\<close>

type_synonym kept_record = "string \<times> bytes \<times> idempotency_record"

fun prune_expired ::
  "'s surroundings \<Rightarrow> 's idempotency_store \<Rightarrow> int \<Rightarrow> (string \<times> bytes) list \<Rightarrow> nat
    \<Rightarrow> ('s, idempotency_error, kept_record list \<times> nat) io" where
  "prune_expired su st now [] deleted = io_return ([], deleted)"
| "prune_expired su st now ((key, b) # rest) deleted =
     io_bind (io_of (id_decode (is_codec st) b)) (\<lambda>r.
     io_bind (io_of (is_expired r now (is_ttl_ms st))) (\<lambda>expired.
     if expired
     then io_bind (id_cad su st id_collection key b) (\<lambda>gone.
       prune_expired su st now rest (if gone then deleted + 1 else deleted))
     else io_bind (prune_expired su st now rest deleted) (\<lambda>(kept, d). io_return ((key, b, r) # kept, d))))"

fun prune_excess ::
  "'s surroundings \<Rightarrow> 's idempotency_store \<Rightarrow> kept_record list \<Rightarrow> nat \<Rightarrow> nat
    \<Rightarrow> ('s, idempotency_error, nat \<times> nat) io" where
  "prune_excess su st [] excess deleted = io_return (excess, deleted)"
| "prune_excess su st ((key, b, r) # rest) excess deleted =
     (if excess = 0 then io_return (excess, deleted)
      else io_bind (id_cad su st id_collection key b) (\<lambda>gone.
        if gone then prune_excess su st rest (excess - 1) (deleted + 1)
        else prune_excess su st rest excess deleted))"

definition prune_with_reserve ::
  "'s surroundings \<Rightarrow> 's idempotency_store \<Rightarrow> nat \<Rightarrow> ('s, idempotency_error, nat) io" where
  "prune_with_reserve su st reserve =
     io_bind (io_clock su id_now) (\<lambda>now.
     io_bind (db_read su id_map_db (rdb_list (is_db st) id_collection)) (\<lambda>listed.
     io_bind (prune_expired su st now listed 0) (\<lambda>(records, deleted).
     let target = is_max_entries st - reserve in
     if length records > target
     then
       let completed = sort_key (\<lambda>(key, b, r). (ir_completion_time r, key))
             (filter (\<lambda>(key, b, r). ir_response r \<noteq> None) records) in
       io_bind (prune_excess su st completed (length records - target) deleted) (\<lambda>(excess, deleted).
       if excess > 0 then io_fail IdCapacity else io_return deleted)
     else io_return deleted)))"

definition prune :: "'s surroundings \<Rightarrow> 's idempotency_store \<Rightarrow> ('s, idempotency_error, nat) io" where
  "prune su st = prune_with_reserve su st 0"

section \<open>Claiming, observing, completing and aborting a receipt\<close>

definition new_receipt :: "string \<Rightarrow> string \<Rightarrow> string \<Rightarrow> string \<Rightarrow> int \<Rightarrow> int \<Rightarrow> idempotency_record" where
  "new_receipt key scp fingerprint uuid lease now = \<lparr>ir_version = 1, ir_record_key = key, ir_scope = scp,
     ir_fingerprint = fingerprint, ir_attempt_id = uuid, ir_lease_expires_at = lease, ir_create_time = now,
     ir_update_time = now, ir_completion_time = None, ir_response = None\<rparr>"

definition completed_receipt :: "mutation_response \<Rightarrow> int \<Rightarrow> idempotency_record \<Rightarrow> idempotency_record" where
  "completed_receipt response now r = r\<lparr>ir_response := Some response, ir_completion_time := Some now,
     ir_update_time := now, ir_lease_expires_at := 0\<rparr>"

text \<open>One round of \<open>acquire\<close> when no receipt is stored, under the capacity guard.\<close>

definition acquire_absent ::
  "'s surroundings \<Rightarrow> 's idempotency_store \<Rightarrow> string \<Rightarrow> string \<Rightarrow> string \<Rightarrow> int
    \<Rightarrow> ('s, idempotency_error, acquisition_result option) io" where
  "acquire_absent su st key scp fingerprint now =
     io_bind (acquire_capacity_guard su st) (\<lambda>lock.
     io_finally
       (io_bind (id_get su st id_collection key) (\<lambda>again.
        if again \<noteq> None then io_return None
        else io_bind (prune_with_reserve su st 1) (\<lambda>_.
          io_bind (io_uuid su) (\<lambda>uuid.
          io_bind (io_of (ok_or (id_backend ''lease timestamp overflow'' []) (i64_checked_add now (is_lease_ms st)))) (\<lambda>lease.
          let r = new_receipt key scp fingerprint uuid lease now in
          io_bind (io_of (id_encode (is_codec st) r)) (\<lambda>b.
          io_bind (id_create su st id_collection key b) (\<lambda>created.
          io_return (if created then Some (AqAcquired (attempt_of r)) else None))))))))
       (drop_guard su st lock))"

definition acquire_present ::
  "'s surroundings \<Rightarrow> 's idempotency_store \<Rightarrow> string \<Rightarrow> string \<Rightarrow> string \<Rightarrow> int \<Rightarrow> bytes
    \<Rightarrow> ('s, idempotency_error, acquisition_result option) io" where
  "acquire_present su st key scp fingerprint now current =
     io_bind (io_of (id_decode (is_codec st) current)) (\<lambda>r.
     io_bind (io_of (validate_existing r key scp fingerprint)) (\<lambda>_.
     case ir_response r of
       Some response \<Rightarrow>
         io_bind (io_of (is_expired r now (is_ttl_ms st))) (\<lambda>expired.
         if expired then io_bind (id_cad su st id_collection key current) (\<lambda>_. io_return None)
         else io_return (Some (AqComplete response)))
     | None \<Rightarrow>
         if ir_lease_expires_at r > now then io_return (Some (AqObserved (attempt_of r)))
         else io_bind (io_of (ok_or (id_backend ''lease timestamp overflow'' []) (i64_checked_add now (is_lease_ms st)))) (\<lambda>lease.
           let r = r\<lparr>ir_lease_expires_at := lease, ir_update_time := now\<rparr> in
           io_bind (io_of (id_encode (is_codec st) r)) (\<lambda>replacement.
           io_bind (id_cas su st id_collection key current replacement) (\<lambda>swapped.
           io_return (if swapped then Some (AqAcquired (attempt_of r)) else None))))))"

fun id_acquire_rounds ::
  "'s surroundings \<Rightarrow> 's idempotency_store \<Rightarrow> string \<Rightarrow> string \<Rightarrow> string \<Rightarrow> nat
    \<Rightarrow> ('s, idempotency_error, acquisition_result) io" where
  "id_acquire_rounds su st key scp fingerprint 0 = io_fail (IdInProgress key)"
| "id_acquire_rounds su st key scp fingerprint (Suc left) =
     io_bind (io_clock su id_now) (\<lambda>now.
     io_bind (id_get su st id_collection key) (\<lambda>current.
     io_bind (case current of
         None \<Rightarrow> acquire_absent su st key scp fingerprint now
       | Some bytes \<Rightarrow> acquire_present su st key scp fingerprint now bytes) (\<lambda>outcome.
     case outcome of Some a \<Rightarrow> io_return a | None \<Rightarrow> id_acquire_rounds su st key scp fingerprint left)))"

definition id_acquire ::
  "'s surroundings \<Rightarrow> 's idempotency_store \<Rightarrow> string \<Rightarrow> string \<Rightarrow> string
    \<Rightarrow> ('s, idempotency_error, acquisition_result) io" where
  "id_acquire su st scp client_key fingerprint =
     io_bind (io_of (id_validate_input scp client_key fingerprint)) (\<lambda>_.
     if is_max_entries st = 0 then io_return AqDisabled
     else id_acquire_rounds su st (id_record_key (is_sha256 st) scp client_key) scp fingerprint id_max_cas_retries)"

fun observe_rounds ::
  "'s surroundings \<Rightarrow> 's idempotency_store \<Rightarrow> string \<Rightarrow> string \<Rightarrow> string \<Rightarrow> nat
    \<Rightarrow> ('s, idempotency_error, observation) io" where
  "observe_rounds su st key scp fingerprint 0 = io_fail (IdInProgress key)"
| "observe_rounds su st key scp fingerprint (Suc left) =
     io_bind (id_get su st id_collection key) (\<lambda>current.
     case current of
       None \<Rightarrow> io_return ObMissing
     | Some b \<Rightarrow>
         io_bind (io_of (id_decode (is_codec st) b)) (\<lambda>r.
         io_bind (io_of (validate_existing r key scp fingerprint)) (\<lambda>_.
         io_bind (io_clock su id_now) (\<lambda>now.
         case ir_response r of
           Some response \<Rightarrow>
             io_bind (io_of (is_expired r now (is_ttl_ms st))) (\<lambda>expired.
             if expired
             then io_bind (id_cad su st id_collection key b) (\<lambda>gone.
               if gone then io_return ObMissing else observe_rounds su st key scp fingerprint left)
             else io_return (ObComplete response))
         | None \<Rightarrow> io_return (ObPending (attempt_of r) (ir_lease_expires_at r > now))))))"

definition id_observe ::
  "'s surroundings \<Rightarrow> 's idempotency_store \<Rightarrow> string \<Rightarrow> string \<Rightarrow> string
    \<Rightarrow> ('s, idempotency_error, observation) io" where
  "id_observe su st scp client_key fingerprint =
     io_bind (io_of (id_validate_input scp client_key fingerprint)) (\<lambda>_.
     if is_max_entries st = 0 then io_return ObDisabled
     else observe_rounds su st (id_record_key (is_sha256 st) scp client_key) scp fingerprint id_max_cas_retries)"

fun id_complete_rounds ::
  "'s surroundings \<Rightarrow> 's idempotency_store \<Rightarrow> idempotency_attempt \<Rightarrow> mutation_response \<Rightarrow> nat
    \<Rightarrow> ('s, idempotency_error, mutation_response) io" where
  "id_complete_rounds su st a response 0 = io_fail (IdInProgress (ia_record_key a))"
| "id_complete_rounds su st a response (Suc left) =
     io_bind (id_get su st id_collection (ia_record_key a)) (\<lambda>found.
     io_bind (io_of (ok_or (id_backend ''idempotency record {} disappeared before completion'' [ia_record_key a]) found)) (\<lambda>current.
     io_bind (io_of (id_decode (is_codec st) current)) (\<lambda>r.
     if ir_attempt_id r \<noteq> ia_attempt_id a \<or> ir_fingerprint r \<noteq> ia_fingerprint a
     then io_fail (IdKeyReuse (ia_record_key a))
     else case ir_response r of
       Some stored \<Rightarrow>
         if stored = response then io_return stored
         else io_fail (id_backend ''idempotency record {} has a different completion receipt'' [ia_record_key a])
     | None \<Rightarrow>
         io_bind (io_clock su id_now) (\<lambda>now.
         let r = completed_receipt response now r in
         io_bind (io_of (id_encode (is_codec st) r)) (\<lambda>replacement.
         io_bind (id_cas su st id_collection (ia_record_key a) current replacement) (\<lambda>swapped.
         if swapped then io_bind (prune su st) (\<lambda>_. io_return response)
         else id_complete_rounds su st a response left))))))"

definition id_complete ::
  "'s surroundings \<Rightarrow> 's idempotency_store \<Rightarrow> idempotency_attempt \<Rightarrow> mutation_response
    \<Rightarrow> ('s, idempotency_error, mutation_response) io" where
  "id_complete su st a response = id_complete_rounds su st a response id_max_cas_retries"

fun abort_rounds ::
  "'s surroundings \<Rightarrow> 's idempotency_store \<Rightarrow> idempotency_attempt \<Rightarrow> nat \<Rightarrow> ('s, idempotency_error, unit) io" where
  "abort_rounds su st a 0 = io_fail (IdInProgress (ia_record_key a))"
| "abort_rounds su st a (Suc left) =
     io_bind (id_get su st id_collection (ia_record_key a)) (\<lambda>found.
     case found of
       None \<Rightarrow> io_return ()
     | Some current \<Rightarrow>
         io_bind (io_of (id_decode (is_codec st) current)) (\<lambda>r.
         if ir_attempt_id r \<noteq> ia_attempt_id a \<or> ir_fingerprint r \<noteq> ia_fingerprint a
         then io_fail (IdKeyReuse (ia_record_key a))
         else if ir_response r \<noteq> None
         then io_fail (id_backend ''cannot abort completed idempotency record {}'' [ia_record_key a])
         else io_bind (id_cad su st id_collection (ia_record_key a) current) (\<lambda>gone.
           if gone then io_return () else abort_rounds su st a left)))"

definition id_abort ::
  "'s surroundings \<Rightarrow> 's idempotency_store \<Rightarrow> idempotency_attempt \<Rightarrow> ('s, idempotency_error, unit) io" where
  "id_abort su st a = abort_rounds su st a id_max_cas_retries"

end
