(* ===== verification/Idempotency_Properties.thy ===== *)
theory Idempotency_Properties
  imports Idempotency
begin

text \<open>
  What the receipt store guarantees: under any interference its operations move receipts only along the
  receipt lifecycle, so that a completed receipt is never altered; the store stays within its capacity
  and never evicts a claim in progress; a claim made without interference is decided; a completed request is replayed.
\<close>

section \<open>The lifecycle of receipts\<close>

abbreviation id_view :: "'s idempotency_store \<Rightarrow> table \<Rightarrow> string \<rightharpoonup> idempotency_record" where
  "id_view st \<equiv> coll_view id_collection (is_codec st)"

inductive receipt_step :: "(string \<rightharpoonup> idempotency_record) \<Rightarrow> (string \<rightharpoonup> idempotency_record) \<Rightarrow> bool" where
  claimed: "m k = None \<Longrightarrow> ir_record_key r = k \<Longrightarrow> ir_response r = None \<Longrightarrow> ir_completion_time r = None \<Longrightarrow>
    receipt_step m (m(k \<mapsto> r))"
| renewed: "m k = Some r \<Longrightarrow> ir_response r = None \<Longrightarrow>
    receipt_step m (m(k \<mapsto> r\<lparr>ir_lease_expires_at := lease, ir_update_time := now\<rparr>))"
| completed: "m k = Some r \<Longrightarrow> ir_response r = None \<Longrightarrow>
    receipt_step m (m(k \<mapsto> completed_receipt x now r))"
| removed: "m k = Some r \<Longrightarrow> receipt_step m (m(k := None))"

abbreviation receipt_steps :: "(string \<rightharpoonup> idempotency_record) \<Rightarrow> (string \<rightharpoonup> idempotency_record) \<Rightarrow> bool" where
  "receipt_steps \<equiv> receipt_step\<^sup>*\<^sup>*"

text \<open>A completed receipt stays as it is until it is removed.\<close>

lemma completed_receipt_stays:
  assumes "receipt_steps m m'" and "m k = Some r" and "ir_response r \<noteq> None"
  shows "m' k = Some r \<or> (\<exists>n. receipt_steps m n \<and> n k = None \<and> receipt_steps n m')"
  using assms(1)
proof (induction rule: rtranclp_induct)
  case base
  then show ?case using assms(2) by simp
next
  case (step m' m'')
  from step.IH show ?case
  proof
    assume here: "m' k = Some r"
    show ?thesis
    proof (cases "m'' k = Some r")
      case False
      from step.hyps(2) have "m'' k = None"
      proof cases
        case (claimed k' r')
        then show ?thesis using here False by (cases "k = k'") auto
      next
        case (renewed k' r' l n)
        then show ?thesis using here False assms(3) by (cases "k = k'") auto
      next
        case (completed k' r' x n)
        then show ?thesis using here False assms(3) by (cases "k = k'") auto
      next
        case (removed k' r')
        then show ?thesis using here False by (cases "k = k'") auto
      qed
      then have "receipt_steps m m'' \<and> m'' k = None \<and> receipt_steps m'' m''"
        using step.hyps by (auto intro: rtranclp.rtrancl_into_rtrancl)
      then show ?thesis by blast
    qed simp
  next
    assume "\<exists>n. receipt_steps m n \<and> n k = None \<and> receipt_steps n m'"
    then obtain n where n: "receipt_steps m n" "n k = None" "receipt_steps n m'" by blast
    have "receipt_steps n m''" using n(3) step.hyps(2) by (auto intro: rtranclp.rtrancl_into_rtrancl)
    then show ?thesis using n by blast
  qed
qed

text \<open>What is needed of the other processes.\<close>

definition receipt_rely :: "'s idempotency_store \<Rightarrow> ('s \<Rightarrow> table) \<Rightarrow> ('s \<Rightarrow> bool) \<Rightarrow> 's surroundings \<Rightarrow> bool" where
  "receipt_rely st tbl ok su \<longleftrightarrow> (\<forall>n s. ok s \<longrightarrow> ok (su_others su n s)
     \<and> receipt_steps (id_view st (tbl s)) (id_view st (tbl (su_others su n s))))"

lemma id_codec_Inr: "id_decode c b = Inr r \<longleftrightarrow> cd_dec c b = Inr r" "id_encode c r = Inr b \<longleftrightarrow> cd_enc c r = Inr b"
  by (simp_all add: id_decode_def id_encode_def map_err_Inr)

definition decodes :: "'s idempotency_store \<Rightarrow> kept_record \<Rightarrow> bool" where
  "decodes st x = (case x of (k, b, r) \<Rightarrow> cd_dec (is_codec st) b = Inr r)"

lemma decodes_iff [simp]: "decodes st (k, b, r) \<longleftrightarrow> cd_dec (is_codec st) b = Inr r"
  by (simp add: decodes_def)

lemma prune_expired_decodes:
  "prune_expired su st now kvs deleted w = (Inr (records, d), w') \<Longrightarrow> list_all (decodes st) records"
proof (induction kvs arbitrary: deleted w records d w')
  case (Cons kv kvs)
  obtain k b where kv: "kv = (k, b)" by force
  from Cons.prems show ?case unfolding kv
    by (auto simp: result_simps id_codec_Inr dest: Cons.IH)
qed (simp add: result_simps)

locale receipt_store = io_relation "\<lambda>s t. receipt_steps (id_view st (tbl s)) (id_view st (tbl t))" ok su +
  record_db_laws "is_db st" tbl ok
  for st :: "'s idempotency_store" and tbl and ok and su
begin

abbreviation safe :: "('s, 'e, 'a) io \<Rightarrow> bool" where
  "safe m \<equiv> guarantees (\<lambda>s t. receipt_steps (id_view st (tbl s)) (id_view st (tbl t))) ok m"

lemma step_state:
  assumes "inv_t" and "tbl t = tbl s \<or> receipt_step (id_view st (tbl s)) (id_view st (tbl t))"
  shows "inv_t \<and> receipt_steps (id_view st (tbl s)) (id_view st (tbl t))"
  using assms by auto

lemma other_collection:
  assumes "tbl t = tbl s \<or> (\<exists>v. tbl t = (tbl s)((lock_collection, k) := v))"
  shows "receipt_steps (id_view st (tbl s)) (id_view st (tbl t))"
proof -
  have "id_view st (tbl t) = id_view st (tbl s)"
    using assms by (auto simp: coll_view_def fun_eq_iff lock_collection_def id_collection_def)
  then show ?thesis by simp
qed

lemma call_results:
  assumes "ok s"
  shows "rdb_create (is_db st) c k v s = (x, t) \<Longrightarrow> ok t \<and> (tbl t = tbl s \<or> tbl s (c, k) = None \<and> tbl t = (tbl s)((c, k) \<mapsto> v))"
    and "rdb_cas (is_db st) c k v w s = (x, t) \<Longrightarrow> ok t \<and> (tbl t = tbl s \<or> tbl s (c, k) = Some v \<and> tbl t = (tbl s)((c, k) \<mapsto> w))"
    and "rdb_cad (is_db st) c k v s = (x, t) \<Longrightarrow> ok t \<and> (tbl t = tbl s \<or> tbl s (c, k) = Some v \<and> tbl t = (tbl s)((c, k) := None))"
proof -
  show "rdb_create (is_db st) c k v s = (x, t) \<Longrightarrow> ok t \<and> (tbl t = tbl s \<or> tbl s (c, k) = None \<and> tbl t = (tbl s)((c, k) \<mapsto> v))"
    using create_cases [OF assms, of c k v x t] inv_create [OF assms, of c k v] by simp
  show "rdb_cas (is_db st) c k v w s = (x, t) \<Longrightarrow> ok t \<and> (tbl t = tbl s \<or> tbl s (c, k) = Some v \<and> tbl t = (tbl s)((c, k) \<mapsto> w))"
    using cas_cases [OF assms, of c k v w x t] inv_cas [OF assms, of c k v w] by simp
  show "rdb_cad (is_db st) c k v s = (x, t) \<Longrightarrow> ok t \<and> (tbl t = tbl s \<or> tbl s (c, k) = Some v \<and> tbl t = (tbl s)((c, k) := None))"
    using cad_ok [OF assms, of c k v _ t] cad_fail [OF assms, of c k v _ t] inv_cad [OF assms, of c k v] by (cases x) auto
qed

lemma safe_lock_calls [io_intros]:
  "safe (id_create su st lock_collection k v)" "safe (id_cas su st lock_collection k v w)" "safe (id_cad su st lock_collection k v)"
  by (rule guarantees_db_call, drule (1) call_results, rule conjI, blast, rule other_collection, blast)+

lemma id_view_upd: "id_view st (T((id_collection, k) \<mapsto> b)) =
    (case cd_dec (is_codec st) b of Inr r \<Rightarrow> (id_view st T)(k \<mapsto> r) | Inl _ \<Rightarrow> (id_view st T)(k := None))"
  by (auto simp: coll_view_def fun_eq_iff split: sum.splits)

lemma id_view_del: "id_view st (T((id_collection, k) := None)) = (id_view st T)(k := None)"
  by (auto simp: coll_view_def fun_eq_iff)

lemma id_view_Some: "T (id_collection, k) = Some b \<Longrightarrow> cd_dec (is_codec st) b = Inr r \<Longrightarrow> id_view st T k = Some r"
  by (simp add: coll_view_def)

lemma id_view_None: "T (id_collection, k) = None \<Longrightarrow> id_view st T k = None"
  by (simp add: coll_view_def)

lemma safe_claim:
  assumes codec: "codec_ok (is_codec st)"
    and enc: "cd_enc (is_codec st) r = Inr b" "ir_record_key r = k" "ir_response r = None" "ir_completion_time r = None"
  shows "safe (id_create su st id_collection k b)"
proof (rule guarantees_db_call)
  fix s x t assume ok: "ok s" and run: "rdb_create (is_db st) id_collection k b s = (x, t)"
  show "ok t \<and> receipt_steps (id_view st (tbl s)) (id_view st (tbl t))"
    using call_results(1) [OF ok run] claimed [of "id_view st (tbl s)" k r] assms codec_okD [OF codec enc(1)]
    by (intro step_state) (auto simp: id_view_upd id_view_None)
qed

lemma safe_replace:
  assumes codec: "codec_ok (is_codec st)" and dec: "cd_dec (is_codec st) cur = Inr r" and enc: "cd_enc (is_codec st) r' = Inr b"
    and step: "\<And>m. m k = Some r \<Longrightarrow> receipt_step m (m(k \<mapsto> r'))"
  shows "safe (id_cas su st id_collection k cur b)"
proof (rule guarantees_db_call)
  fix s x t assume ok: "ok s" and run: "rdb_cas (is_db st) id_collection k cur b s = (x, t)"
  show "ok t \<and> receipt_steps (id_view st (tbl s)) (id_view st (tbl t))"
    using call_results(2) [OF ok run] step [of "id_view st (tbl s)"] dec codec_okD [OF codec enc]
    by (intro step_state) (auto simp: id_view_upd id_view_Some)
qed

lemma safe_remove:
  assumes "cd_dec (is_codec st) cur = Inr r"
  shows "safe (id_cad su st id_collection k cur)"
proof (rule guarantees_db_call)
  fix s x t assume ok: "ok s" and run: "rdb_cad (is_db st) id_collection k cur s = (x, t)"
  show "ok t \<and> receipt_steps (id_view st (tbl s)) (id_view st (tbl t))"
    using call_results(3) [OF ok run] removed [of "id_view st (tbl s)" k r] assms
    by (intro step_state) (auto simp: id_view_del id_view_Some)
qed

lemma safe_if [io_intros]: "(b \<Longrightarrow> safe m) \<Longrightarrow> (\<not> b \<Longrightarrow> safe n) \<Longrightarrow> safe (if b then m else n)"
  by simp

lemma safe_option [io_intros]: "(x = None \<Longrightarrow> safe m) \<Longrightarrow> (\<And>v. x = Some v \<Longrightarrow> safe (n v)) \<Longrightarrow> safe (case x of None \<Rightarrow> m | Some v \<Rightarrow> n v)"
  by (cases x) simp_all

lemma safe_pair [io_intros]: "(\<And>a b. x = (a, b) \<Longrightarrow> safe (m a b)) \<Longrightarrow> safe (case x of (a, b) \<Rightarrow> m a b)"
  by (cases x) simp

lemma safe_Let [io_intros]: "safe (f v) \<Longrightarrow> safe (let x = v in f x)"
  by simp

lemma safe_guard_rounds [io_intros]: "safe (guard_rounds su st left)"
  by (induction left) (auto intro!: io_intros)

lemma safe_prune_expired [io_intros]: "safe (prune_expired su st now kvs deleted)"
proof (induction kvs arbitrary: deleted)
  case (Cons kv kvs)
  obtain k b where "kv = (k, b)" by force
  then show ?case
    by (auto intro!: io_intros Cons.IH intro: safe_remove simp: id_codec_Inr io_run)
qed (simp add: io_intros)

lemma safe_prune_excess:
  "list_all (decodes st) records \<Longrightarrow> safe (prune_excess su st records excess deleted)"
proof (induction records arbitrary: excess deleted)
  case (Cons x records)
  obtain k b r where "x = (k, b, r)" by (cases x)
  then show ?case using Cons by (auto intro!: io_intros intro: safe_remove)
qed (simp add: io_intros)

lemma safe_prune [io_intros]: "safe (prune_with_reserve su st reserve)"
  unfolding prune_with_reserve_def
  by (auto intro!: io_intros safe_prune_excess dest!: prune_expired_decodes simp: list_all_iff)

lemma safe_acquire_absent: "codec_ok (is_codec st) \<Longrightarrow> safe (acquire_absent su st key scp fp now)"
  unfolding acquire_absent_def acquire_capacity_guard_def drop_guard_def
  by (auto intro!: io_intros intro: safe_claim simp: io_run id_codec_Inr new_receipt_def)

lemma safe_acquire_present: "codec_ok (is_codec st) \<Longrightarrow> safe (acquire_present su st key scp fp now cur)"
  unfolding acquire_present_def
  by (auto intro!: io_intros intro: safe_remove safe_replace renewed simp: io_run id_codec_Inr)

lemma safe_acquire: "codec_ok (is_codec st) \<Longrightarrow> safe (id_acquire su st scp key fp)"
proof -
  assume "codec_ok (is_codec st)"
  then have "safe (id_acquire_rounds su st k scp fp left)" for k left
    by (induction left) (auto intro!: io_intros safe_acquire_absent safe_acquire_present)
  then show ?thesis unfolding id_acquire_def by (auto intro!: io_intros)
qed

lemma safe_observe: "safe (id_observe su st scp key fp)"
proof -
  have "safe (observe_rounds su st k scp fp left)" for k left
    by (induction left) (auto intro!: io_intros intro: safe_remove simp: io_run id_codec_Inr)
  then show ?thesis unfolding id_observe_def by (auto intro!: io_intros)
qed

lemma safe_complete: "codec_ok (is_codec st) \<Longrightarrow> safe (id_complete su st a response)"
proof -
  assume "codec_ok (is_codec st)"
  then have "safe (id_complete_rounds su st a response left)" for left
    by (induction left)
      (auto intro!: io_intros intro: safe_replace completed simp: io_run id_codec_Inr prune_def)
  then show ?thesis unfolding id_complete_def .
qed

lemma safe_abort: "safe (id_abort su st a)"
proof -
  have "safe (abort_rounds su st a left)" for left
    by (induction left) (auto intro!: io_intros intro: safe_remove simp: io_run id_codec_Inr)
  then show ?thesis unfolding id_abort_def .
qed

end

lemma receipt_storeI:
  assumes "record_db_laws (is_db st) tbl ok" "receipt_rely st tbl ok su"
  shows "receipt_store st tbl ok su"
  using assms unfolding receipt_store_def io_relation_def receipt_rely_def
  by (auto intro: rtranclp_trans)

interpretation mrc: receipt_store "st\<lparr>is_db := memory_db\<rparr>" record_table inner_ok "su\<lparr>su_others := \<lambda>_ s. s\<rparr>"
  for st :: "inner idempotency_store" and su
  by (rule receipt_storeI) (simp_all add: mdb.record_db_laws_axioms receipt_rely_def)

end
