(* ===== verification/Idempotency_Alone.thy ===== *)
theory Idempotency_Alone
  imports Idempotency_Properties
begin

text \<open>
  The receipt store without interference over a database whose calls do not fail: pruning computes
  exactly the receipts that may stay, a claim of a new key is decided within its first round, and completed receipts are
  replayed.
\<close>

section \<open>Receipts in a table\<close>

text \<open>The stored receipts, those past their retention, and the claims in progress that are not.\<close>

definition expires :: "'s idempotency_store \<Rightarrow> int \<Rightarrow> bytes \<Rightarrow> bool" where
  "expires st now b \<longleftrightarrow> (\<exists>r. cd_dec (is_codec st) b = Inr r \<and> is_expired r now (is_ttl_ms st) = Inr True)"

definition stored :: "table \<Rightarrow> string set" where
  "stored T = {k. T (id_collection, k) \<noteq> None}"

definition expired_keys :: "'s idempotency_store \<Rightarrow> int \<Rightarrow> table \<Rightarrow> string set" where
  "expired_keys st now T = {k. \<exists>b. T (id_collection, k) = Some b \<and> expires st now b}"

definition in_progress :: "'s idempotency_store \<Rightarrow> int \<Rightarrow> table \<Rightarrow> string set" where
  "in_progress st now T = {k. \<exists>b r. T (id_collection, k) = Some b \<and> \<not> expires st now b
     \<and> cd_dec (is_codec st) b = Inr r \<and> ir_response r = None}"

text \<open>Every stored receipt decodes and has a consistent completion state.\<close>

definition prunable :: "'s idempotency_store \<Rightarrow> int \<Rightarrow> table \<Rightarrow> bool" where
  "prunable st now T \<longleftrightarrow> (\<forall>k b. T (id_collection, k) = Some b \<longrightarrow>
     (\<exists>r e. cd_dec (is_codec st) b = Inr r \<and> is_expired r now (is_ttl_ms st) = Inr e))"

definition without :: "string set \<Rightarrow> table \<Rightarrow> table" where
  "without K T = (\<lambda>(c, k). if c = id_collection \<and> k \<in> K then None else T (c, k))"

lemma without_simps [simp]:
  "without {} T = T" "without K T (id_collection, k) = (if k \<in> K then None else T (id_collection, k))"
  "c \<noteq> id_collection \<Longrightarrow> without K T (c, k) = T (c, k)"
  "(without K T)((id_collection, k) := None) = without (insert k K) T"
  "without K (T((id_collection, k) := None)) = without (insert k K) T"
  by (auto simp: without_def fun_eq_iff)

lemma key_sets:
  "expired_keys st now T \<subseteq> stored T" "in_progress st now T \<subseteq> stored T" "expired_keys st now T \<inter> in_progress st now T = {}"
  "expired_keys st now T \<subseteq> stored T - in_progress st now T"
  by (auto simp: expired_keys_def in_progress_def stored_def)

text \<open>The completed receipts of a listing, oldest first, and those evicted to make room.\<close>

definition oldest_done :: "(string \<times> bytes \<times> idempotency_record) list \<Rightarrow> (string \<times> bytes \<times> idempotency_record) list" where
  "oldest_done kept = sort_key (\<lambda>(key, b, r). (ir_completion_time r, key)) (filter (\<lambda>(key, b, r). ir_response r \<noteq> None) kept)"

lemma evicted:
  assumes dist: "distinct (map fst kept)"
    and pending: "fst ` set (filter (\<lambda>(k, b, r). ir_response r = None) kept) = P"
  shows "distinct (map fst (oldest_done kept))" and "set (oldest_done kept) \<subseteq> set kept"
    and "length kept = card P + length (oldest_done kept)"
    and "fst ` set (take n (oldest_done kept)) \<inter> P = {}"
    and "card (fst ` set (take n (oldest_done kept))) = min n (length (oldest_done kept))"
proof -
  show d: "distinct (map fst (oldest_done kept))"
    using distinct_map_filter [OF dist] by (simp add: oldest_done_def distinct_map)
  show "set (oldest_done kept) \<subseteq> set kept" by (auto simp: oldest_done_def)
  have "distinct (map fst (filter (\<lambda>(k, b, r). ir_response r = None) kept))" using dist by (rule distinct_map_filter)
  from distinct_card [OF this] have "length (filter (\<lambda>(k, b, r). ir_response r = None) kept) = card P"
    using pending by simp
  then show "length kept = card P + length (oldest_done kept)"
    using sum_length_filter_compl [of "\<lambda>(k, b, r). ir_response r = None" kept] by (simp add: oldest_done_def case_prod_unfold)
  show "fst ` set (take n (oldest_done kept)) \<inter> P = {}"
  proof (rule ccontr)
    assume "fst ` set (take n (oldest_done kept)) \<inter> P \<noteq> {}"
    then obtain x y where xy: "x \<in> set (oldest_done kept)" "y \<in> set (filter (\<lambda>(k, b, r). ir_response r = None) kept)" "fst x = fst y"
      unfolding pending [symmetric] using set_take_subset [of n "oldest_done kept"] by blast
    then have "x \<in> set kept" "y \<in> set kept" "x \<noteq> y" by (auto simp: oldest_done_def)
    then show False using dist xy(3) by (auto simp: distinct_map inj_on_def)
  qed
  show "card (fst ` set (take n (oldest_done kept))) = min n (length (oldest_done kept))"
    using distinct_card [of "map fst (take n (oldest_done kept))"] distinct_take [OF d, of n] by (simp add: take_map min.commute)
qed

section \<open>Calls without interference\<close>

locale quiet_receipts = reliable_record_db "is_db st" tbl ok
  for st :: "'s idempotency_store" and tbl and ok +
  fixes su :: "'s surroundings"
  assumes quiet: "su_others su n s = s"
begin

lemma get_run:
  "ok s \<Longrightarrow> id_get su st c k (s, n) = (Inr (tbl s (c, k)), (s, Suc n))"
  by (simp add: db_read_def db_call_def io_call_def quiet get_eq)

lemma list_run:
  assumes "ok s"
  obtains xs where "db_read su id_map_db (rdb_list (is_db st) c) (s, n) = (Inr xs, (s, Suc n))"
    "distinct (map fst xs)" "set xs = {(k, v). tbl s (c, k) = Some v}"
proof -
  obtain xs where xs: "rdb_list (is_db st) c s = Inr xs" using list_total [OF assms] by blast
  then have "db_read su id_map_db (rdb_list (is_db st) c) (s, n) = (Inr xs, (s, Suc n))"
    by (simp add: db_read_def db_call_def io_call_def quiet)
  then show ?thesis using that list_ok [OF assms xs] by blast
qed

lemma create_run:
  assumes "ok s"
  obtains t where "id_create su st c k v (s, n) = (Inr (tbl s (c, k) = None), (t, Suc n))" "ok t"
    "tbl t = (if tbl s (c, k) = None then (tbl s)((c, k) \<mapsto> v) else tbl s)"
proof -
  obtain b t where r: "rdb_create (is_db st) c k v s = (Inr b, t)" using create_total [OF assms] by blast
  then have "id_create su st c k v (s, n) = (Inr b, (t, Suc n))" by (simp add: db_call_def io_call_def quiet)
  then show ?thesis using that [of t] create_ok [OF assms r] inv_create [OF assms, of c k v] r by simp
qed

lemma cas_run:
  assumes "ok s"
  obtains t where "id_cas su st c k v x (s, n) = (Inr (tbl s (c, k) = Some v), (t, Suc n))" "ok t"
    "tbl t = (if tbl s (c, k) = Some v then (tbl s)((c, k) \<mapsto> x) else tbl s)"
proof -
  obtain b t where r: "rdb_cas (is_db st) c k v x s = (Inr b, t)" using cas_total [OF assms] by blast
  then have "id_cas su st c k v x (s, n) = (Inr b, (t, Suc n))" by (simp add: db_call_def io_call_def quiet)
  then show ?thesis using that [of t] cas_ok [OF assms r] inv_cas [OF assms, of c k v x] r by simp
qed

lemma cad_run:
  assumes "ok s"
  obtains t where "id_cad su st c k v (s, n) = (Inr (tbl s (c, k) = Some v), (t, Suc n))" "ok t"
    "tbl t = (if tbl s (c, k) = Some v then (tbl s)((c, k) := None) else tbl s)"
proof -
  obtain b t where r: "rdb_cad (is_db st) c k v s = (Inr b, t)" using cad_total [OF assms] by blast
  then have "id_cad su st c k v (s, n) = (Inr b, (t, Suc n))" by (simp add: db_call_def io_call_def quiet)
  then show ?thesis using that [of t] cad_ok [OF assms r] inv_cad [OF assms, of c k v] r by simp
qed

lemma cad_hit:
  assumes "ok s" and "tbl s (c, k) = Some v"
  shows "\<exists>t. id_cad su st c k v (s, n) = (Inr True, (t, Suc n)) \<and> ok t \<and> tbl t = (tbl s)((c, k) := None)"
  by (rule cad_run [OF assms(1), of c k v n]) (use assms(2) in auto)

section \<open>Pruning\<close>

lemma prune_expired_run:
  assumes "prune_expired su st now kvs deleted (s, n) = (Inr (kept, d), w')" "ok s" "distinct (map fst kvs)"
    and "\<forall>(k, b) \<in> set kvs. tbl s (id_collection, k) = Some b"
  shows "ok (fst w') \<and> map (\<lambda>(k, b, r). (k, b)) kept = filter (\<lambda>(k, b). \<not> expires st now b) kvs
    \<and> list_all (decodes st) kept \<and> d = deleted + length (filter (\<lambda>(k, b). expires st now b) kvs)
    \<and> tbl (fst w') = without {k. \<exists>b. (k, b) \<in> set kvs \<and> expires st now b} (tbl s)"
  using assms
proof (induction kvs arbitrary: deleted s n kept d)
  case (Cons kv kvs)
  obtain k b where kv: "kv = (k, b)" by force
  obtain r e where r: "cd_dec (is_codec st) b = Inr r" and e: "is_expired r now (is_ttl_ms st) = Inr e"
    using Cons.prems(1) kv by (auto simp: result_simps id_codec_Inr)
  then have exp: "expires st now b \<longleftrightarrow> e" by (simp add: expires_def)
  have here: "tbl s (id_collection, k) = Some b" using Cons.prems(4) kv by simp
  show ?case
  proof (cases e)
    case True
    obtain t where t: "id_cad su st id_collection k b (s, n) = (Inr True, (t, Suc n))" "ok t"
        "tbl t = (tbl s)((id_collection, k) := None)"
      using cad_hit [OF Cons.prems(2) here] by blast
    then have run: "prune_expired su st now kvs (deleted + 1) (t, Suc n) = (Inr (kept, d), w')"
      using Cons.prems(1) kv r e True by (auto simp: result_simps id_codec_Inr)
    have "\<forall>(k, b) \<in> set kvs. tbl t (id_collection, k) = Some b"
      using Cons.prems(3,4) kv t(3) by (force simp: image_iff)
    note IH = Cons.IH [OF run t(2) _ this]
    have "{k'. \<exists>b'. (k', b') \<in> set (kv # kvs) \<and> expires st now b'} = insert k {k. \<exists>b. (k, b) \<in> set kvs \<and> expires st now b}"
      using kv exp True by auto
    moreover have "without K (tbl t) = without (insert k K) (tbl s)" for K
      unfolding t(3) by simp
    ultimately show ?thesis using IH Cons.prems(3) kv exp True by simp
  next
    case False
    obtain kept' where run: "prune_expired su st now kvs deleted (s, n) = (Inr (kept', d), w')" and kept: "kept = (k, b, r) # kept'"
      using Cons.prems(1) kv r e False by (auto simp: result_simps id_codec_Inr)
    have "{k'. \<exists>b'. (k', b') \<in> set (kv # kvs) \<and> expires st now b'} = {k. \<exists>b. (k, b) \<in> set kvs \<and> expires st now b}"
      using kv exp False by auto
    then show ?thesis using Cons.IH [OF run Cons.prems(2)] Cons.prems(3,4) kv exp False kept r by simp
  qed
qed (simp add: result_simps)

lemma prune_excess_run:
  assumes "ok s" "distinct (map fst rs)" "\<forall>(k, b, r) \<in> set rs. tbl s (id_collection, k) = Some b"
  shows "\<exists>t n'. prune_excess su st rs excess deleted (s, n)
      = (Inr (excess - length rs, deleted + min excess (length rs)), (t, n'))
    \<and> ok t \<and> tbl t = without (fst ` set (take excess rs)) (tbl s)"
  using assms
proof (induction rs arbitrary: s n excess deleted)
  case Nil
  then show ?case by (simp add: io_return_def)
next
  case (Cons x rs)
  obtain k b r where x: "x = (k, b, r)" by (cases x)
  have here: "tbl s (id_collection, k) = Some b" using Cons.prems(3) x by simp
  show ?case
  proof (cases excess)
    case 0
    then show ?thesis using Cons.prems(1) x by (simp add: io_return_def)
  next
    case (Suc m)
    obtain t where t: "id_cad su st id_collection k b (s, n) = (Inr True, (t, Suc n))" "ok t"
        "tbl t = (tbl s)((id_collection, k) := None)"
      using cad_hit [OF Cons.prems(1) here] by blast
    have "\<forall>(k, b, r) \<in> set rs. tbl t (id_collection, k) = Some b"
      using Cons.prems(2,3) x t(3) by (force simp: image_iff)
    then obtain u n' where u: "prune_excess su st rs m (deleted + 1) (t, Suc n)
        = (Inr (m - length rs, deleted + 1 + min m (length rs)), (u, n'))" "ok u" "tbl u = without (fst ` set (take m rs)) (tbl t)"
      using Cons.IH [OF t(2), of m "deleted + 1" "Suc n"] Cons.prems(2) by auto
    have "tbl u = without (fst ` set (take excess (x # rs))) (tbl s)"
      unfolding u(3) t(3) Suc x by simp
    moreover have "prune_excess su st (x # rs) excess deleted (s, n)
        = (Inr (excess - length (x # rs), deleted + min excess (length (x # rs))), (u, n'))"
      using x Suc t(1) u(1) by (simp add: io_bind_def)
    ultimately show ?thesis using u(2) by blast
  qed
qed

lemma prune_expired_total:
  assumes "ok s" "distinct (map fst kvs)" "\<forall>(k, b) \<in> set kvs. tbl s (id_collection, k) = Some b"
    and "\<forall>(k, b) \<in> set kvs. \<exists>r e. cd_dec (is_codec st) b = Inr r \<and> is_expired r now (is_ttl_ms st) = Inr e"
  shows "\<exists>kept d w'. prune_expired su st now kvs deleted (s, n) = (Inr (kept, d), w')"
  using assms
proof (induction kvs arbitrary: deleted s n)
  case (Cons kv kvs)
  obtain k b where kv: "kv = (k, b)" by force
  obtain r e where r: "cd_dec (is_codec st) b = Inr r" "is_expired r now (is_ttl_ms st) = Inr e"
    using Cons.prems(4) kv by auto
  then have dec: "id_decode (is_codec st) b = Inr r" by (simp add: id_codec_Inr)
  show ?case
  proof (cases e)
    case True
    have here: "tbl s (id_collection, k) = Some b" using Cons.prems(3) kv by simp
    obtain t where t: "id_cad su st id_collection k b (s, n) = (Inr True, (t, Suc n))" "ok t"
        "tbl t = (tbl s)((id_collection, k) := None)"
      using cad_hit [OF Cons.prems(1) here] by blast
    have "\<forall>(k, b) \<in> set kvs. tbl t (id_collection, k) = Some b"
      using Cons.prems(2,3) kv t(3) by (force simp: image_iff)
    from Cons.IH [OF t(2) _ this] show ?thesis
      using Cons.prems kv dec r(2) True t(1) by (simp add: io_bind_def)
  next
    case False
    obtain kept d w' where "prune_expired su st now kvs deleted (s, n) = (Inr (kept, d), w')"
      using Cons.IH [OF Cons.prems(1)] Cons.prems kv by fastforce
    then show ?thesis using kv dec r(2) False by (simp add: io_bind_def io_return_def)
  qed
qed (simp add: io_return_def)

text \<open>The receipts kept by the first pass, listed once each.\<close>

lemma kept_receipts:
  assumes kvs: "distinct (map fst kvs)" "set kvs = {(k, v). tbl s (id_collection, k) = Some v}"
    and kept: "map (\<lambda>(k, b, r). (k, b)) kept = filter (\<lambda>(k, b). \<not> expires st now b) kvs" "list_all (decodes st) kept"
  shows "distinct (map fst kept)" and "fst ` set kept = stored (tbl s) - expired_keys st now (tbl s)"
    and "\<forall>(k, b, r) \<in> set kept. tbl s (id_collection, k) = Some b \<and> k \<notin> expired_keys st now (tbl s)"
    and "fst ` set (filter (\<lambda>(k, b, r). ir_response r = None) kept) = in_progress st now (tbl s)"
    and "length (filter (\<lambda>(k, b). expires st now b) kvs) = card (expired_keys st now (tbl s))"
proof -
  have pairs: "(\<exists>r. (k, b, r) \<in> set kept) \<longleftrightarrow> tbl s (id_collection, k) = Some b \<and> \<not> expires st now b" for k b
  proof -
    have "(\<exists>r. (k, b, r) \<in> set kept) \<longleftrightarrow> (k, b) \<in> set (map (\<lambda>(k, b, r). (k, b)) kept)"
      by (auto simp: image_def intro: bexI [rotated])
    then show ?thesis unfolding kept(1) using kvs(2) by simp
  qed
  have "map fst kept = map fst (map (\<lambda>(k, b, r). (k, b)) kept)" by (simp add: case_prod_unfold)
  then have keys: "map fst kept = map fst (filter (\<lambda>(k, b). \<not> expires st now b) kvs)" unfolding kept(1) .
  show "distinct (map fst kept)" unfolding keys using kvs(1) by (rule distinct_map_filter)
  have mem: "k \<in> fst ` set kept \<longleftrightarrow> (\<exists>b. tbl s (id_collection, k) = Some b \<and> \<not> expires st now b)" for k
    unfolding pairs [symmetric] by (auto simp: image_def intro: bexI [rotated]) blast
  have "k \<in> fst ` set kept \<longleftrightarrow> k \<in> stored (tbl s) - expired_keys st now (tbl s)" for k
    unfolding mem by (cases "tbl s (id_collection, k)") (auto simp: stored_def expired_keys_def)
  then show "fst ` set kept = stored (tbl s) - expired_keys st now (tbl s)" by blast
  show "\<forall>(k, b, r) \<in> set kept. tbl s (id_collection, k) = Some b \<and> k \<notin> expired_keys st now (tbl s)"
  proof (intro ballI, clarify)
    fix k b r assume "(k, b, r) \<in> set kept"
    then have "tbl s (id_collection, k) = Some b \<and> \<not> expires st now b" using pairs by blast
    then show "tbl s (id_collection, k) = Some b \<and> k \<notin> expired_keys st now (tbl s)" by (simp add: expired_keys_def)
  qed
  have dec: "cd_dec (is_codec st) b = Inr r" if "(k, b, r) \<in> set kept" for k b r
    using kept(2) that by (auto simp: list_all_iff)
  show "fst ` set (filter (\<lambda>(k, b, r). ir_response r = None) kept) = in_progress st now (tbl s)"
  proof (intro set_eqI iffI)
    fix k assume "k \<in> fst ` set (filter (\<lambda>(k, b, r). ir_response r = None) kept)"
    then obtain b r where m: "(k, b, r) \<in> set kept" "ir_response r = None" by auto
    then show "k \<in> in_progress st now (tbl s)" using pairs [of k b] dec [OF m(1)] by (auto simp: in_progress_def)
  next
    fix k assume "k \<in> in_progress st now (tbl s)"
    then obtain b r where b: "tbl s (id_collection, k) = Some b" "\<not> expires st now b" "cd_dec (is_codec st) b = Inr r" "ir_response r = None"
      by (auto simp: in_progress_def)
    then obtain r' where m: "(k, b, r') \<in> set kept" using pairs by blast
    then have "r' = r" using dec [OF m] b(3) by simp
    then have "(k, b, r) \<in> set (filter (\<lambda>(k, b, r). ir_response r = None) kept)" using m b(4) by simp
    then show "k \<in> fst ` set (filter (\<lambda>(k, b, r). ir_response r = None) kept)" by (rule rev_image_eqI) simp
  qed
  have "expired_keys st now (tbl s) = fst ` set (filter (\<lambda>(k, b). expires st now b) kvs)"
    unfolding expired_keys_def set_filter kvs(2) by (auto simp: image_def)
  moreover have "distinct (map fst (filter (\<lambda>(k, b). expires st now b) kvs))" using kvs(1) by (rule distinct_map_filter)
  ultimately show "length (filter (\<lambda>(k, b). expires st now b) kvs) = card (expired_keys st now (tbl s))"
    by (metis distinct_card length_map set_map)
qed

text \<open>The state after the first pass, and after the second one when the table is still too full.\<close>

lemma prune_passes:
  fixes reserve :: nat
  assumes ok: "ok s" and now: "id_now (su_clock su n) = Inr now" and good: "prunable st now (tbl s)"
  defines "X \<equiv> expired_keys st now (tbl s)" and "P \<equiv> in_progress st now (tbl s)" and "target \<equiv> is_max_entries st - reserve"
  obtains kept x t n' where "prune_with_reserve su st reserve (s, n) = (x, (t, n'))" "ok t"
    "tbl t = without (X \<union> fst ` set (take (length kept - target) (oldest_done kept))) (tbl s)"
    "x = (if card P > target then Inl IdCapacity else Inr (card X + min (length kept - target) (length (oldest_done kept))))"
    "fst ` set kept = stored (tbl s) - X" "distinct (map fst kept)"
    "fst ` set (filter (\<lambda>(k, b, r). ir_response r = None) kept) = P"
proof -
  obtain kvs where list: "db_read su id_map_db (rdb_list (is_db st) id_collection) (s, Suc n) = (Inr kvs, (s, Suc (Suc n)))"
    and kvs: "distinct (map fst kvs)" "set kvs = {(k, v). tbl s (id_collection, k) = Some v}"
    using list_run [OF ok] by blast
  have mem: "\<forall>(k, b) \<in> set kvs. tbl s (id_collection, k) = Some b" using kvs(2) by auto
  have good': "\<forall>(k, b) \<in> set kvs. \<exists>r e. cd_dec (is_codec st) b = Inr r \<and> is_expired r now (is_ttl_ms st) = Inr e"
    using good kvs(2) by (auto simp: prunable_def)
  obtain kept d s1 n1 where run: "prune_expired su st now kvs 0 (s, Suc (Suc n)) = (Inr (kept, d), (s1, n1))"
    using prune_expired_total [OF ok kvs(1) mem good'] by (metis surj_pair)
  have "{k. \<exists>b. (k, b) \<in> set kvs \<and> expires st now b} = X" using kvs(2) by (simp add: expired_keys_def X_def)
  then have kept: "map (\<lambda>(k, b, r). (k, b)) kept = filter (\<lambda>(k, b). \<not> expires st now b) kvs" "list_all (decodes st) kept"
    and s1: "ok s1" "tbl s1 = without X (tbl s)" and "d = length (filter (\<lambda>(k, b). expires st now b) kvs)"
    using prune_expired_run [OF run ok kvs(1) mem] by simp_all
  note K = kept_receipts [OF kvs kept, folded X_def P_def]
  note E = evicted [OF K(1) K(4)]
  have d: "d = card X" using \<open>d = _\<close> K(5) by simp
  show thesis
  proof (cases "length kept > target")
    case False
    then have "prune_with_reserve su st reserve (s, n) = (Inr d, (s1, n1))"
      unfolding prune_with_reserve_def using now list run by (simp add: io_bind_def io_clock_def io_return_def target_def)
    then show thesis by (rule that [of _ _ _ kept]) (use s1 False E(3) d K in auto)
  next
    case True
    have "\<forall>(k, b, r) \<in> set (oldest_done kept). tbl s1 (id_collection, k) = Some b"
      using K(3) s1(2) by (auto dest!: subsetD [OF E(2)])
    then obtain t n2 where ex: "prune_excess su st (oldest_done kept) (length kept - target) d (s1, n1)
        = (Inr (length kept - target - length (oldest_done kept), d + min (length kept - target) (length (oldest_done kept))), (t, n2))"
      and t: "ok t" "tbl t = without (fst ` set (take (length kept - target) (oldest_done kept))) (tbl s1)"
      using prune_excess_run [OF s1(1) E(1)] by blast
    have run': "prune_with_reserve su st reserve (s, n) = (if length kept - target - length (oldest_done kept) > 0 then Inl IdCapacity
        else Inr (d + min (length kept - target) (length (oldest_done kept))), (t, n2))"
      unfolding prune_with_reserve_def using now list run True ex
      by (simp add: io_bind_def io_clock_def io_return_def io_fail_def Let_def target_def oldest_done_def)
    have "tbl t = without (X \<union> fst ` set (take (length kept - target) (oldest_done kept))) (tbl s)"
      unfolding t(2) s1(2) by (auto simp: without_def fun_eq_iff)
    from that [OF run' t(1) this _ K(2,1,4)] show thesis using True E(3) d by auto
  qed
qed

lemma finite_stored:
  assumes "ok s"
  shows "finite (stored (tbl s))"
proof -
  obtain kvs where "set kvs = {(k, v). tbl s (id_collection, k) = Some v}"
    using list_run [OF assms] by blast
  then have "stored (tbl s) = fst ` set kvs" by (auto simp: stored_def image_def)
  then show ?thesis by simp
qed

lemma prune_alone:
  assumes ok: "ok s" and now: "id_now (su_clock su n) = Inr now" and good: "prunable st now (tbl s)"
  shows "\<exists>x t n' gone. prune_with_reserve su st reserve (s, n) = (x, (t, n')) \<and> ok t \<and> tbl t = without gone (tbl s)
    \<and> expired_keys st now (tbl s) \<subseteq> gone \<and> gone \<subseteq> stored (tbl s) - in_progress st now (tbl s)
    \<and> (card (stored (tbl s)) \<le> is_max_entries st - reserve \<longrightarrow> gone = expired_keys st now (tbl s))
    \<and> (if card (in_progress st now (tbl s)) \<le> is_max_entries st - reserve
       then x = Inr (card gone) \<and> card (stored (tbl t)) \<le> is_max_entries st - reserve
       else x = Inl IdCapacity)"
proof -
  let ?X = "expired_keys st now (tbl s)" and ?P = "in_progress st now (tbl s)" and ?target = "is_max_entries st - reserve"
  obtain kept x t n' where run: "prune_with_reserve su st reserve (s, n) = (x, (t, n'))" "ok t"
    and t: "tbl t = without (?X \<union> fst ` set (take (length kept - ?target) (oldest_done kept))) (tbl s)"
    and x: "x = (if card ?P > ?target then Inl IdCapacity else Inr (card ?X + min (length kept - ?target) (length (oldest_done kept))))"
    and K: "fst ` set kept = stored (tbl s) - ?X" "distinct (map fst kept)"
      "fst ` set (filter (\<lambda>(k, b, r). ir_response r = None) kept) = ?P"
    by (rule prune_passes [OF ok now good, where reserve = reserve])
  note E = evicted [OF K(2,3)]
  define G where "G = fst ` set (take (length kept - ?target) (oldest_done kept))"
  have sub: "G \<subseteq> stored (tbl s) - ?X"
    unfolding G_def K(1) [symmetric] using E(2) set_take_subset by (meson image_mono order_trans)
  have fin: "finite (stored (tbl s))" "finite ?X" "finite G"
    using finite_stored [OF ok] finite_subset [OF key_sets(1)] by (auto simp: G_def)
  have len: "length kept = card (stored (tbl s) - ?X)" using distinct_card [OF K(2)] K(1) by simp
  have disj: "G \<inter> ?P = {}" and G: "card G = min (length kept - ?target) (length (oldest_done kept))"
    using E(4,5) by (simp_all add: G_def)
  have gone: "card (?X \<union> G) = card ?X + card G" using card_Un_disjoint [OF fin(2,3)] sub by blast
  have "stored (tbl t) = (stored (tbl s) - ?X) - G" unfolding t G_def [symmetric] by (auto simp: stored_def)
  then have after: "card (stored (tbl t)) = length kept - card G" using card_Diff_subset [OF fin(3) sub] len by simp
  have calm: "G = {}" if "card (stored (tbl s)) \<le> ?target"
    using card_mono [OF fin(1), of "stored (tbl s) - ?X"] len that by (simp add: G_def)
  have "?X \<union> G \<subseteq> stored (tbl s) - ?P" using key_sets(4) sub disj by blast
  moreover have "card ?P \<le> ?target \<Longrightarrow> card (stored (tbl t)) \<le> ?target" using after G E(3) by linarith
  ultimately show ?thesis using run t calm x gone G unfolding G_def [symmetric]
    by (intro exI [of _ x] exI [of _ t] exI [of _ n'] exI [of _ "?X \<union> G"]) simp
qed

end

end
