(* ===== verification/Idempotency_Claims.thy ===== *)
theory Idempotency_Claims
  imports Idempotency_Alone
begin

text \<open>
  Claims, completions and replays of receipts without interference, and the properties of
  the receipt store that follow.
\<close>

section \<open>Claims\<close>

text \<open>
  The clock works, adding a lease to its readings does not overflow, and the capacity locks to be stored can
  be encoded.
\<close>

definition working :: "'s idempotency_store \<Rightarrow> 's surroundings \<Rightarrow> (nat \<Rightarrow> int) \<Rightarrow> bool" where
  "working st su tm \<longleftrightarrow> (\<forall>n. id_now (su_clock su n) = Inr (tm n)
       \<and> i64_checked_add (tm n) (is_lease_ms st) \<noteq> None \<and> i64_checked_add (tm n) default_lease_ms \<noteq> None)
     \<and> (\<forall>m n e. i64_checked_add (tm n) default_lease_ms = Some e \<longrightarrow>
          (\<exists>b. cd_enc (is_lock_codec st) \<lparr>cl_owner = su_uuid su m, cl_expires_at = e\<rparr> = Inr b))"

context quiet_receipts
begin

lemma eight_rounds: "id_max_cas_retries = Suc 7"
  by (simp add: id_max_cas_retries_def)

lemma first_round:
  assumes "id_validate_input scp ck fp = Inr ()" and "is_max_entries st \<noteq> 0"
  shows "id_acquire su st scp ck fp = id_acquire_rounds su st (id_record_key (is_sha256 st) scp ck) scp fp (Suc 7)"
    and "id_observe su st scp ck fp = observe_rounds su st (id_record_key (is_sha256 st) scp ck) scp fp (Suc 7)"
  using assms unfolding id_acquire_def id_observe_def eight_rounds by simp_all

lemma workingD:
  assumes "working st su tm"
  shows "id_now (su_clock su n) = Inr (tm n)" "\<exists>e. i64_checked_add (tm n) (is_lease_ms st) = Some e"
    "\<exists>e. i64_checked_add (tm n) default_lease_ms = Some e"
    "i64_checked_add (tm n) default_lease_ms = Some e \<Longrightarrow>
      \<exists>b. cd_enc (is_lock_codec st) \<lparr>cl_owner = su_uuid su m, cl_expires_at = e\<rparr> = Inr b"
  using assms unfolding working_def by auto

lemma guard_alone:
  assumes "ok s" "working st su tm" "tbl s (lock_collection, capacity_lock_key) = None"
  shows "\<exists>lock t n'. acquire_capacity_guard su st (s, n) = (Inr lock, (t, n')) \<and> ok t
    \<and> tbl t = (tbl s)((lock_collection, capacity_lock_key) \<mapsto> lock)"
proof -
  obtain e where e: "i64_checked_add (tm n) default_lease_ms = Some e" using workingD(3) [OF assms(2)] by blast
  obtain lock where lock: "cd_enc (is_lock_codec st) \<lparr>cl_owner = su_uuid su (Suc n), cl_expires_at = e\<rparr> = Inr lock"
    using workingD(4) [OF assms(2) e] by blast
  obtain t where t: "id_create su st lock_collection capacity_lock_key lock (s, Suc (Suc (Suc n))) = (Inr True, (t, Suc (Suc (Suc (Suc n)))))"
      "ok t" "tbl t = (tbl s)((lock_collection, capacity_lock_key) \<mapsto> lock)"
    by (rule create_run [OF assms(1), of lock_collection capacity_lock_key lock "Suc (Suc (Suc n))"]) (use assms(3) in auto)
  have "guard_rounds su st (Suc left) (s, n) = (Inr lock, (t, Suc (Suc (Suc (Suc n)))))" for left
    using assms(3) workingD(1) [OF assms(2)] e lock t(1) get_run [OF assms(1), of lock_collection capacity_lock_key "Suc (Suc n)"]
    by (simp add: io_bind_def io_clock_def io_uuid_def io_of_def io_return_def)
  then show ?thesis using t(2,3) unfolding acquire_capacity_guard_def eight_rounds by blast
qed

lemma same_receipts:
  assumes "\<forall>k. tbl t (id_collection, k) = tbl s (id_collection, k)"
  shows "stored (tbl t) = stored (tbl s)" "in_progress st now (tbl t) = in_progress st now (tbl s)" "prunable st now (tbl t) = prunable st now (tbl s)"
  using assms by (simp_all add: stored_def in_progress_def prunable_def)

lemma claim_alone:
  assumes ok: "ok s" and work: "working st su tm" and free: "tbl s (lock_collection, capacity_lock_key) = None"
    and absent: "tbl s (id_collection, key) = None"
    and enc: "\<And>i j e. i64_checked_add (tm j) (is_lease_ms st) = Some e \<Longrightarrow>
      \<exists>b. cd_enc (is_codec st) (new_receipt key scp fp (su_uuid su i) e (tm j)) = Inr b"
    and good: "\<And>n. prunable st (tm n) (tbl s)" and room: "\<And>n. card (in_progress st (tm n) (tbl s)) < is_max_entries st"
  shows "\<exists>r t n'. acquire_absent su st key scp fp (tm m) (s, n) = (Inr (Some (AqAcquired (attempt_of r))), (t, n')) \<and> ok t
    \<and> tbl t (lock_collection, capacity_lock_key) = None \<and> (\<exists>b. cd_enc (is_codec st) r = Inr b \<and> tbl t (id_collection, key) = Some b)
    \<and> validate_existing r key scp fp = Inr () \<and> ir_response r = None
    \<and> card (stored (tbl t)) \<le> is_max_entries st"
proof -
  obtain lock t1 n1 where guard: "acquire_capacity_guard su st (s, n) = (Inr lock, (t1, n1))" "ok t1"
      "tbl t1 = (tbl s)((lock_collection, capacity_lock_key) \<mapsto> lock)"
    using guard_alone [OF ok work free] by blast
  have same: "\<forall>k. tbl t1 (id_collection, k) = tbl s (id_collection, k)"
    using guard(3) by (simp add: lock_collection_def id_collection_def)
  note R = same_receipts [OF same]
  have again: "id_get su st id_collection key (t1, n1) = (Inr None, (t1, Suc n1))"
    using get_run [OF guard(2)] same absent by simp
  have now: "id_now (su_clock su (Suc n1)) = Inr (tm (Suc n1))" using workingD(1) [OF work] .
  obtain d t2 n2 gone where prune: "prune_with_reserve su st 1 (t1, Suc n1) = (Inr d, (t2, n2))" "ok t2"
      "tbl t2 = without gone (tbl t1)" "card (stored (tbl t2)) \<le> is_max_entries st - 1"
  proof -
    have "card (in_progress st (tm (Suc n1)) (tbl t1)) \<le> is_max_entries st - 1" using room [of "Suc n1"] R(2) by simp
    moreover have "prunable st (tm (Suc n1)) (tbl t1)" using good R(3) by simp
    ultimately show ?thesis using prune_alone [OF guard(2) now, of 1] that by (auto split: if_splits)
  qed
  obtain lease where lease: "i64_checked_add (tm m) (is_lease_ms st) = Some lease" using workingD(2) [OF work] by blast
  define r where "r = new_receipt key scp fp (su_uuid su n2) lease (tm m)"
  obtain b where b: "cd_enc (is_codec st) r = Inr b" using enc [OF lease] unfolding r_def by blast
  have none: "tbl t2 (id_collection, key) = None" using prune(3) same absent by simp
  obtain t3 where create: "id_create su st id_collection key b (t2, Suc n2) = (Inr True, (t3, Suc (Suc n2)))" "ok t3"
      "tbl t3 = (tbl t2)((id_collection, key) \<mapsto> b)"
    by (rule create_run [OF prune(2), of id_collection key b "Suc n2"]) (use none in auto)
  have "tbl t3 (lock_collection, capacity_lock_key) = Some lock"
    using create(3) prune(3) guard(3) by (simp add: lock_collection_def id_collection_def)
  then obtain t4 where drop: "drop_guard su st lock (t3, Suc (Suc n2)) = (Inr True, (t4, Suc (Suc (Suc n2))))" "ok t4"
      "tbl t4 = (tbl t3)((lock_collection, capacity_lock_key) := None)"
    using cad_hit [OF create(2)] unfolding drop_guard_def by blast
  have run: "acquire_absent su st key scp fp (tm m) (s, n) = (Inr (Some (AqAcquired (attempt_of r))), (t4, Suc (Suc (Suc n2))))"
    unfolding acquire_absent_def using guard(1) again prune(1) lease b create(1) drop(1)
    by (simp add: io_bind_def io_finally_def io_of_def io_return_def io_uuid_def Let_def id_encode_def flip: r_def)
  have receipts: "tbl t4 (id_collection, k) = (if k = key then Some b else tbl t2 (id_collection, k))" for k
    unfolding drop(3) create(3) by (simp add: lock_collection_def id_collection_def)
  then have "stored (tbl t4) = insert key (stored (tbl t2))" by (auto simp: stored_def)
  moreover have "card (insert key (stored (tbl t2))) \<le> Suc (card (stored (tbl t2)))"
    by (cases "finite (stored (tbl t2))") (auto simp: card_insert_if)
  ultimately have "card (stored (tbl t4)) \<le> is_max_entries st" using prune(4) room [of 0] by simp
  moreover have "validate_existing r key scp fp = Inr ()" "ir_response r = None"
    by (simp_all add: r_def new_receipt_def validate_existing_def)
  ultimately show ?thesis using run drop(2,3) receipts [of key] b by auto
qed

lemma acquire_fresh:
  assumes input: "id_validate_input scp ck fp = Inr ()" and ok: "ok s" and work: "working st su tm"
    and free: "tbl s (lock_collection, capacity_lock_key) = None"
    and absent: "tbl s (id_collection, id_record_key (is_sha256 st) scp ck) = None"
    and enc: "\<And>i j e. i64_checked_add (tm j) (is_lease_ms st) = Some e \<Longrightarrow>
      \<exists>b. cd_enc (is_codec st) (new_receipt (id_record_key (is_sha256 st) scp ck) scp fp (su_uuid su i) e (tm j)) = Inr b"
    and good: "\<And>n. prunable st (tm n) (tbl s)" and room: "\<And>n. card (in_progress st (tm n) (tbl s)) < is_max_entries st"
  shows "\<exists>r t n'. id_acquire su st scp ck fp (s, n) = (Inr (AqAcquired (attempt_of r)), (t, n')) \<and> ok t
    \<and> tbl t (lock_collection, capacity_lock_key) = None
    \<and> (\<exists>b. cd_enc (is_codec st) r = Inr b \<and> tbl t (id_collection, id_record_key (is_sha256 st) scp ck) = Some b)
    \<and> validate_existing r (id_record_key (is_sha256 st) scp ck) scp fp = Inr () \<and> ir_response r = None
    \<and> card (stored (tbl t)) \<le> is_max_entries st"
proof -
  let ?key = "id_record_key (is_sha256 st) scp ck"
  obtain r t n' where run: "acquire_absent su st ?key scp fp (tm n) (s, Suc (Suc n)) = (Inr (Some (AqAcquired (attempt_of r))), (t, n'))"
    and post: "ok t" "tbl t (lock_collection, capacity_lock_key) = None"
      "\<exists>b. cd_enc (is_codec st) r = Inr b \<and> tbl t (id_collection, ?key) = Some b"
      "validate_existing r ?key scp fp = Inr ()" "ir_response r = None" "card (stored (tbl t)) \<le> is_max_entries st"
    using claim_alone [OF ok work free absent enc good room, where m = n and n = "Suc (Suc n)"] by blast
  have "id_acquire_rounds su st ?key scp fp (Suc left) (s, n) = (Inr (AqAcquired (attempt_of r)), (t, n'))" for left
    using workingD(1) [OF work] get_run [OF ok, of id_collection ?key "Suc n"] absent run
    by (simp add: io_bind_def io_clock_def io_return_def)
  then have "id_acquire su st scp ck fp (s, n) = (Inr (AqAcquired (attempt_of r)), (t, n'))"
    using first_round(1) [OF input] room [of n] by (metis not_less0)
  then show ?thesis using post by blast
qed

section \<open>Completion and replay\<close>

lemma not_expired:
  assumes "\<And>i j. tm j - tm i < is_ttl_ms st" "ir_response r \<noteq> None" "ir_completion_time r = Some (tm i)"
  shows "is_expired r (tm j) (is_ttl_ms st) = Inr False"
  using assms(1) [of j i] assms(1) [of i i] assms(2,3)
  by (auto simp: is_expired_def i64_saturating_sub_def i64_min_def)

lemma complete_alone:
  assumes ok: "ok s" and work: "working st su tm" and cd: "codec_ok (is_codec st)"
    and b: "tbl s (id_collection, ia_record_key a) = Some b" "cd_dec (is_codec st) b = Inr r"
    and a: "ir_attempt_id r = ia_attempt_id a" "ir_fingerprint r = ia_fingerprint a" and pending: "ir_response r = None"
    and good: "\<And>n. prunable st (tm n) (tbl s)" and room: "card (stored (tbl s)) \<le> is_max_entries st"
    and time: "\<And>i j. tm j - tm i < is_ttl_ms st"
    and enc: "\<And>i. \<exists>b. cd_enc (is_codec st) (completed_receipt response (tm i) r) = Inr b"
  shows "\<exists>b' t n' i. id_complete su st a response (s, n) = (Inr response, (t, n')) \<and> ok t
    \<and> tbl t (id_collection, ia_record_key a) = Some b'
    \<and> cd_dec (is_codec st) b' = Inr (completed_receipt response (tm i) r)"
proof -
  let ?k = "ia_record_key a"
  let ?now = "tm (Suc n)"
  let ?r = "completed_receipt response ?now r"
  obtain b' where b': "cd_enc (is_codec st) ?r = Inr b'" using enc by blast
  note dec = codec_okD [OF cd b']
  obtain t where t: "id_cas su st id_collection ?k b b' (s, Suc (Suc n)) = (Inr True, (t, Suc (Suc (Suc n))))" "ok t"
      "tbl t = (tbl s)((id_collection, ?k) \<mapsto> b')"
    by (rule cas_run [OF ok, of id_collection ?k b b' "Suc (Suc n)"]) (use b(1) in auto)
  let ?later = "tm (Suc (Suc (Suc n)))"
  have live: "is_expired ?r ?later (is_ttl_ms st) = Inr False" by (rule not_expired [OF time]) (simp_all add: completed_receipt_def)
  have same: "stored (tbl t) = stored (tbl s)" using t(3) b(1) by (auto simp: stored_def)
  have prun: "prunable st ?later (tbl t)"
    using good [of "Suc (Suc (Suc n))"] live dec unfolding prunable_def t(3) by auto
  have few: "card (in_progress st ?later (tbl t)) \<le> is_max_entries st"
    using card_mono [OF finite_stored [OF t(2)] key_sets(2)] same room by (metis le_trans)
  obtain d u n' where prune: "prune_with_reserve su st 0 (t, Suc (Suc (Suc n))) = (Inr d, (u, n'))" "ok u"
      "tbl u = without (expired_keys st ?later (tbl t)) (tbl t)"
    using prune_alone [OF t(2) workingD(1) [OF work] prun, of 0] few same room by auto
  have "?k \<notin> expired_keys st ?later (tbl t)" using live dec t(3) by (auto simp: expired_keys_def expires_def)
  then have "tbl u (id_collection, ?k) = Some b'" using prune(3) t(3) by simp
  moreover have "id_complete_rounds su st a response (Suc left) (s, n) = (Inr response, (u, n'))" for left
    using get_run [OF ok, of id_collection ?k n] b a pending b' workingD(1) [OF work] t(1) prune(1)
    by (simp add: io_bind_def io_of_def io_clock_def io_return_def id_decode_def id_encode_def prune_def Let_def)
  ultimately show ?thesis using prune(2) dec unfolding id_complete_def eight_rounds by blast
qed

text \<open>A completed receipt within its retention answers a later request without another change.\<close>

lemma replay_alone:
  assumes input: "id_validate_input scp ck fp = Inr ()" and ok: "ok s" and work: "working st su tm"
    and on: "is_max_entries st \<noteq> 0" and b: "tbl s (id_collection, id_record_key (is_sha256 st) scp ck) = Some b"
      "cd_dec (is_codec st) b = Inr r" "validate_existing r (id_record_key (is_sha256 st) scp ck) scp fp = Inr ()"
    and r: "ir_response r = Some response" "\<And>i. is_expired r (tm i) (is_ttl_ms st) = Inr False"
  shows "\<exists>n'. id_acquire su st scp ck fp (s, n) = (Inr (AqComplete response), (s, n'))"
    and "\<exists>n'. id_observe su st scp ck fp (s, n) = (Inr (ObComplete response), (s, n'))"
proof -
  let ?key = "id_record_key (is_sha256 st) scp ck"
  have "id_acquire_rounds su st ?key scp fp (Suc left) (s, n) = (Inr (AqComplete response), (s, Suc (Suc n)))" for left
    using workingD(1) [OF work] get_run [OF ok, of id_collection ?key "Suc n"] b r
    by (simp add: io_bind_def io_clock_def io_return_def acquire_present_def io_of_def id_decode_def)
  moreover have "observe_rounds su st ?key scp fp (Suc left) (s, n) = (Inr (ObComplete response), (s, Suc (Suc n)))" for left
    using workingD(1) [OF work] get_run [OF ok, of id_collection ?key n] b r
    by (simp add: io_bind_def io_clock_def io_return_def io_of_def id_decode_def)
  ultimately show "\<exists>n'. id_acquire su st scp ck fp (s, n) = (Inr (AqComplete response), (s, n'))"
    "\<exists>n'. id_observe su st scp ck fp (s, n) = (Inr (ObComplete response), (s, n'))"
    unfolding first_round [OF input on] by blast+
qed

end

interpretation mqr: quiet_receipts "st\<lparr>is_db := memory_db\<rparr>" record_table inner_ok "su\<lparr>su_others := \<lambda>_ s. s\<rparr>"
  for st :: "inner idempotency_store" and su
  by unfold_locales (use mdb.get_total mdb.list_total mdb.create_total mdb.create_many_total mdb.cas_total mdb.cad_total in auto)

end
