(* ===== verification/Idempotency_Results.thy ===== *)
theory Idempotency_Results
  imports Idempotency_Claims
begin

text \<open>
  What the receipt store promises to a single writer over the in-memory database: pruning keeps the
  table within its capacity and never discards a claim in progress, a new claim is granted, and a
  completed receipt is replayed.
\<close>

section \<open>The sequential lemmas on the in-memory database\<close>

lemma quiet_memory:
  assumes "is_db st = memory_db" and "su_others su = (\<lambda>_ s. s)"
  shows "quiet_receipts st record_table inner_ok su"
  using mqr.quiet_receipts_axioms [of st su] assms by (cases st, cases su) simp

section \<open>A sample store\<close>

definition sample_fingerprint :: string where
  "sample_fingerprint = ''sha256:'' @ replicate 64 CHR ''a''"

definition sample_claim :: idempotency_record where
  "sample_claim = new_receipt ''h'' ''p'' sample_fingerprint ''u'' 105 5"

definition sample_response :: mutation_response where
  "sample_response = \<lparr>mr_commit_id = ''c'', mr_change_id = ''d'', mr_conflicted_decls = []\<rparr>"

definition sample_receipts :: "inner idempotency_store" where
  "sample_receipts = \<lparr>is_db = memory_db,
     is_codec = table_codec [(sample_claim, [1]), (completed_receipt sample_response 5 sample_claim, [2])],
     is_lock_codec = table_codec [(\<lparr>cl_owner = ''u'', cl_expires_at = 30005\<rparr>, [3])],
     is_sha256 = (\<lambda>_. ''h''), is_max_entries = 1, is_ttl_ms = 1000, is_lease_ms = 100\<rparr>"

definition sample_surroundings :: "inner surroundings" where
  "sample_surroundings = \<lparr>su_clock = (\<lambda>_. Inr 5), su_uuid = (\<lambda>_. ''u''), su_others = (\<lambda>_ s. s)\<rparr>"

definition claimed_db :: inner where
  "claimed_db = snd (create_record id_collection ''h'' [1] empty_db)"

lemma sample_facts [simp]:
  "is_db sample_receipts = memory_db" "su_others sample_surroundings = (\<lambda>_ s. s)" "codec_ok (is_codec sample_receipts)"
  "is_max_entries sample_receipts = 1" "is_ttl_ms sample_receipts = 1000" "is_lease_ms sample_receipts = 100"
  "is_sha256 sample_receipts x = ''h''" "id_record_key (is_sha256 sample_receipts) scp ck = ''h''"
  "su_uuid sample_surroundings n = ''u''" "su_clock sample_surroundings n = Inr 5"
  "cd_enc (is_codec sample_receipts) sample_claim = Inr [1]" "cd_dec (is_codec sample_receipts) [1] = Inr sample_claim"
  "cd_enc (is_codec sample_receipts) (completed_receipt sample_response 5 sample_claim) = Inr [2]"
  "new_receipt ''h'' ''p'' sample_fingerprint ''u'' 105 5 = sample_claim"
  by (auto simp: sample_receipts_def sample_surroundings_def codec_ok_table id_record_key_def sample_claim_def new_receipt_def
      completed_receipt_def)

lemma sample_input: "id_validate_input ''p'' ''k'' sample_fingerprint = Inr ()"
  by code_simp

lemma sample_working: "working sample_receipts sample_surroundings (\<lambda>_. 5)"
  by (simp add: working_def id_now_def i64_max_def i64_checked_add_def i64_min_def default_lease_ms_def)
    (simp add: sample_receipts_def)

lemma sample_tables [simp]:
  "inner_ok claimed_db" "record_table empty_db = (\<lambda>_. None)"
  "record_table claimed_db = [(id_collection, ''h'') \<mapsto> [1]]"
proof -
  show e: "record_table empty_db = (\<lambda>_. None)" by (simp add: record_table_def empty_db_def fun_eq_iff)
  show "inner_ok claimed_db" "record_table claimed_db = [(id_collection, ''h'') \<mapsto> [1]]"
    by (simp_all add: claimed_db_def inner_ok_records record_tables e)
qed

lemma sample_sets [simp]:
  "prunable sample_receipts 5 (\<lambda>_. None)" "prunable sample_receipts 5 [(id_collection, ''h'') \<mapsto> [1]]"
  "in_progress sample_receipts 5 (\<lambda>_. None) = {}" "stored [(id_collection, ''h'') \<mapsto> [1]] = {''h''}"
  by (simp_all add: prunable_def in_progress_def stored_def)
    (simp add: sample_claim_def new_receipt_def is_expired_def)

section \<open>Properties\<close>



text \<open>
  C29: Without interference, pruning removes every receipt past its retention and never a claim
  that is still in progress.  When the claims in progress fit, it ends with at most the configured
  number of receipts and reports how many it removed; otherwise it reports that the store is full.
\<close>

theorem prune_within_capacity:
  assumes "is_db st = memory_db" "su_others su = (\<lambda>_ s. s)" "inner_ok s"
    and "id_now (su_clock su n) = Inr now" "prunable st now (record_table s)"
  shows "\<exists>x t n' gone. prune su st (s, n) = (x, (t, n')) \<and> inner_ok t
    \<and> record_table t = without gone (record_table s)
    \<and> expired_keys st now (record_table s) \<subseteq> gone \<and> gone \<inter> in_progress st now (record_table s) = {}
    \<and> (if card (in_progress st now (record_table s)) \<le> is_max_entries st
       then x = Inr (card gone) \<and> card (stored (record_table t)) \<le> is_max_entries st
       else x = Inl IdCapacity)"
proof -
  note alone = quiet_receipts.prune_alone [OF quiet_memory [OF assms(1,2)] assms(3-5), of 0]
  then obtain x t n' gone where "prune su st (s, n) = (x, (t, n'))" "inner_ok t"
      "record_table t = without gone (record_table s)" "expired_keys st now (record_table s) \<subseteq> gone"
      "gone \<subseteq> stored (record_table s) - in_progress st now (record_table s)"
      "if card (in_progress st now (record_table s)) \<le> is_max_entries st
       then x = Inr (card gone) \<and> card (stored (record_table t)) \<le> is_max_entries st else x = Inl IdCapacity"
    unfolding prune_def diff_zero by blast
  then show ?thesis by blast
qed

theorem prune_within_capacity_witness:
  "\<exists>x t n'. prune sample_surroundings sample_receipts (claimed_db, 0) = (x, (t, n')) \<and> inner_ok t"
  using prune_within_capacity [of sample_receipts sample_surroundings claimed_db 0 5] by (auto simp: id_now_def i64_max_def)

text \<open>
  C28: A single writer that claims a key without a receipt is granted the claim: the receipt that
  is stored carries the request's key, scope and fingerprint and no response, the store stays
  within its capacity, and the capacity lock is free again afterwards.
\<close>

theorem fresh_claim_granted:
  assumes "is_db st = memory_db" "su_others su = (\<lambda>_ s. s)" and "id_validate_input scp ck fp = Inr ()" and "inner_ok s" and "working st su tm"
    and "record_table s (lock_collection, capacity_lock_key) = None"
    and "record_table s (id_collection, id_record_key (is_sha256 st) scp ck) = None"
    and "\<And>i j e. i64_checked_add (tm j) (is_lease_ms st) = Some e \<Longrightarrow>
      \<exists>b. cd_enc (is_codec st) (new_receipt (id_record_key (is_sha256 st) scp ck) scp fp (su_uuid su i) e (tm j)) = Inr b"
    and "\<And>n. prunable st (tm n) (record_table s)" and "\<And>n. card (in_progress st (tm n) (record_table s)) < is_max_entries st"
  shows "\<exists>r t n' b. id_acquire su st scp ck fp (s, n) = (Inr (AqAcquired (attempt_of r)), (t, n')) \<and> inner_ok t
    \<and> cd_enc (is_codec st) r = Inr b \<and> record_table t (id_collection, id_record_key (is_sha256 st) scp ck) = Some b
    \<and> validate_existing r (id_record_key (is_sha256 st) scp ck) scp fp = Inr () \<and> ir_response r = None
    \<and> card (stored (record_table t)) \<le> is_max_entries st
    \<and> record_table t (lock_collection, capacity_lock_key) = None"
  using quiet_receipts.acquire_fresh [OF quiet_memory [OF assms(1,2)] assms(3-10), of n] by blast

theorem fresh_claim_granted_witness:
  "\<exists>r t n'. id_acquire sample_surroundings sample_receipts ''p'' ''k'' sample_fingerprint (empty_db, 0)
     = (Inr (AqAcquired (attempt_of r)), (t, n')) \<and> card (stored (record_table t)) \<le> 1"
proof -
  have "\<exists>b. cd_enc (is_codec sample_receipts) (new_receipt (id_record_key (is_sha256 sample_receipts) ''p'' ''k'') ''p''
      sample_fingerprint (su_uuid sample_surroundings i) e 5) = Inr b" if "i64_checked_add 5 (is_lease_ms sample_receipts) = Some e" for i e
    using that by (auto simp: i64_checked_add_def split: if_splits)
  then show ?thesis
    using fresh_claim_granted [of sample_receipts sample_surroundings "''p''" "''k''" sample_fingerprint empty_db "\<lambda>_. 5" 0]
      sample_input sample_working by auto
qed



end
