(* ===== verification/Jj_Lib.thy ===== *)
theory Jj_Lib
  imports Effects Core_Error
begin

text \<open>
  What crate \<open>schemahub-jj\<close> uses of the Jujutsu library \<open>jj-lib\<close> and of the stores it plugs
  into it.  The library is not part of the repository: \<open>jj_lib\<close> is a record of the operations that
  \<open>lib.rs\<close> calls, over a state of type \<open>'s\<close> and merged trees of type \<open>'t\<close>; the data they exchange
  (operations, views, commits, merged values) are records with the fields the code reads.

  A program of this crate ends with a value or with \<open>Stop e\<close> for an error \<open>e\<close>; \<open>Hang\<close> stands
  for a loop that does not end.
\<close>

section \<open>Programs that may not return\<close>

datatype 'e stop = Stop 'e | Hang

type_synonym ('s, 'a) jj = "('s, jj_error stop, 'a) prog"

text \<open>
  \<open>jj_read\<close> and \<open>jj_do\<close> are calls of \<open>jj-lib\<close> under \<open>map_jj\<close>, which keeps the
  message of an error; \<open>jj_loop\<close> is a loop that reads the state.
\<close>

definition jj_fail :: "jj_error \<Rightarrow> ('s, 'a) jj" where
  "jj_fail e = io_fail (Stop e)"

definition map_jj :: "string + 'a \<Rightarrow> jj_error + 'a" where
  "map_jj r = map_err JOther r"

definition jj_read :: "('s \<Rightarrow> string + 'a) \<Rightarrow> ('s, 'a) jj" where
  "jj_read f s = (map_err Stop (map_jj (f s)), s)"

definition jj_do :: "('s \<Rightarrow> (string + 'a) \<times> 's) \<Rightarrow> ('s, 'a) jj" where
  "jj_do f s = (case f s of (r, t) \<Rightarrow> (map_err Stop (map_jj r), t))"

definition jj_loop :: "('s \<Rightarrow> (jj_error + 'a) option) \<Rightarrow> ('s, 'a) jj" where
  "jj_loop f s = (case f s of None \<Rightarrow> Inl Hang | Some r \<Rightarrow> map_err Stop r, s)"

text \<open>The conversion of database errors by \<open>?\<close>.\<close>

fun jj_of_db :: "db_error \<Rightarrow> jj_error" where
  "jj_of_db DbNotFound = JObjectNotFound"
| "jj_of_db (DbBackend m) = JObjectDb (DbBackend m)"

definition jj_db :: "('s \<Rightarrow> db_error + 'a) \<Rightarrow> ('s, 'a) jj" where
  "jj_db f s = (map_err (Stop \<circ> jj_of_db) (f s), s)"

definition jj_db_do :: "('s \<Rightarrow> (db_error + 'a) \<times> 's) \<Rightarrow> ('s, 'a) jj" where
  "jj_db_do f s = (case f s of (r, t) \<Rightarrow> (map_err (Stop \<circ> jj_of_db) r, t))"

section \<open>Merged values\<close>

text \<open>
  \<open>Merge<Option<T>>\<close>: the positive and the negative terms; a value is resolved when it has no negative term.
\<close>

record 'a merge =
  mg_adds :: "'a option list"
  mg_removes :: "'a option list"

definition mg_normal :: "'a \<Rightarrow> 'a merge" where
  "mg_normal x = \<lparr>mg_adds = [Some x], mg_removes = []\<rparr>"

definition mg_absent :: "'a merge" where
  "mg_absent = \<lparr>mg_adds = [None], mg_removes = []\<rparr>"

definition mg_resolved :: "'a merge \<Rightarrow> 'a option option" where
  "mg_resolved m = (case (mg_adds m, mg_removes m) of ([v], []) \<Rightarrow> Some v | _ \<Rightarrow> None)"

definition mg_is_absent :: "'a merge \<Rightarrow> bool" where
  "mg_is_absent m \<longleftrightarrow> mg_resolved m = Some None"

definition added_ids :: "'a merge \<Rightarrow> 'a list" where
  "added_ids m = List.map_filter id (mg_adds m)"

lemma mg_simps [simp]:
  "added_ids (mg_normal x) = [x]" "added_ids mg_absent = []" "\<not> mg_is_absent (mg_normal x)" "mg_is_absent mg_absent"
  "mg_resolved (mg_normal x) = Some (Some x)" "mg_resolved mg_absent = Some None"
  by (simp_all add: added_ids_def mg_normal_def mg_absent_def mg_is_absent_def mg_resolved_def List.map_filter_def)

section \<open>Operations, views, commits and trees\<close>

type_synonym commit_id = bytes
type_synonym operation_id = bytes

datatype tree_value = TvFile bytes | TvTree bytes | TvOther

record operation =
  op_id :: operation_id
  op_parents :: "operation_id list"
  op_view_id :: bytes
  op_description :: string
  op_username :: string
  op_end_time :: int
  op_attributes :: "(string, string) btree"

record view =
  vw_heads :: "commit_id list"
  vw_bookmarks :: "(string, commit_id merge) btree"
  vw_tags :: "(string, commit_id merge) btree"

record readonly_repo =
  rd_op :: operation
  rd_view :: view

record 't commit =
  cm_id :: commit_id
  cm_change_id :: bytes
  cm_parents :: "commit_id list"
  cm_tree :: 't
  cm_author :: string
  cm_author_time :: int
  cm_description :: string

datatype backend_error = BeNotFound (be_message: string) | BeOther (be_message: string)

record signature =
  sg_name :: string
  sg_email :: string
  sg_timestamp :: int

text \<open>A transaction: the repository it started from, its view so far and the attributes of its operation.\<close>

record transaction =
  tx_base :: readonly_repo
  tx_view :: view
  tx_attributes :: "(string, string) btree"

definition start_transaction :: "readonly_repo \<Rightarrow> transaction" where
  "start_transaction r = \<lparr>tx_base = r, tx_view = rd_view r, tx_attributes = []\<rparr>"

definition set_attribute :: "string \<Rightarrow> string \<Rightarrow> transaction \<Rightarrow> transaction" where
  "set_attribute k v tx = tx\<lparr>tx_attributes := bt_insert k v (tx_attributes tx)\<rparr>"

definition get_local_bookmark :: "view \<Rightarrow> string \<Rightarrow> commit_id merge" where
  "get_local_bookmark v n = (case bt_get (vw_bookmarks v) n of Some t \<Rightarrow> t | None \<Rightarrow> mg_absent)"

definition get_local_tag :: "view \<Rightarrow> string \<Rightarrow> commit_id merge" where
  "get_local_tag v n = (case bt_get (vw_tags v) n of Some t \<Rightarrow> t | None \<Rightarrow> mg_absent)"

section \<open>The operations of the library\<close>

text \<open>
  Repositories are named by their key.  \<open>jl_loader\<close> builds the repository loader over the stores of
  this crate, \<open>jl_op_heads\<close>, \<open>jl_create_ref\<close>, \<open>jl_list_ops\<close>, \<open>jl_list_repo_keys\<close>, \<open>jl_list_objects\<close>,
  \<open>jl_delete_object\<close> and the guards are those of the object database, the others are those of \<open>jj-lib\<close>.
\<close>

record ('s, 't) jj_lib =
  jl_hex :: "bytes \<Rightarrow> string"
  jl_from_hex :: "string \<Rightarrow> bytes option"
  jl_reverse_hex :: "bytes \<Rightarrow> string"
  jl_root_commit :: commit_id
  jl_root_op :: operation_id
  jl_publication_guard :: "string \<Rightarrow> 's \<Rightarrow> jj_error + unit"
  jl_gc_guard :: "'s \<Rightarrow> jj_error + unit"
  jl_loader :: "string \<Rightarrow> 's \<Rightarrow> (jj_error + unit) \<times> 's"
  jl_op_heads :: "string \<Rightarrow> 's \<Rightarrow> string + operation_id list"
  jl_create_ref :: "string \<Rightarrow> string \<Rightarrow> bytes \<Rightarrow> 's \<Rightarrow> (db_error + bool) \<times> 's"
  jl_list_ops :: "string \<Rightarrow> 's \<Rightarrow> db_error + operation_id list"
  jl_list_repo_keys :: "'s \<Rightarrow> db_error + string list"
  jl_list_objects :: "object_kind \<Rightarrow> 's \<Rightarrow> db_error + bytes list"
  jl_delete_object :: "object_kind \<Rightarrow> bytes \<Rightarrow> 's \<Rightarrow> (db_error + unit) \<times> 's"
  jl_load_at_head :: "string \<Rightarrow> 's \<Rightarrow> (string + readonly_repo) \<times> 's"
  jl_load_operation :: "string \<Rightarrow> operation_id \<Rightarrow> 's \<Rightarrow> string + operation"
  jl_operation_view :: "operation \<Rightarrow> 's \<Rightarrow> string + view"
  jl_load_at :: "string \<Rightarrow> operation \<Rightarrow> 's \<Rightarrow> string + readonly_repo"
  jl_get_commit :: "commit_id \<Rightarrow> 's \<Rightarrow> backend_error + 't commit"
  jl_read_file :: "bytes \<Rightarrow> 's \<Rightarrow> string + bytes"
  jl_write_file :: "bytes \<Rightarrow> 's \<Rightarrow> (string + bytes) \<times> 's"
  jl_repo_path :: "string \<Rightarrow> string + unit"
  jl_empty_tree :: 't
  jl_entries :: "'t \<Rightarrow> 's \<Rightarrow> (string \<times> (string + tree_value merge)) list"
  jl_conflicts :: "'t \<Rightarrow> 's \<Rightarrow> (string \<times> (string + tree_value merge)) list"
  jl_path_value :: "'t \<Rightarrow> string \<Rightarrow> 's \<Rightarrow> string + tree_value merge"
  jl_write_tree :: "'t \<Rightarrow> (string \<times> tree_value merge) list \<Rightarrow> 's \<Rightarrow> (string + 't) \<times> 's"
  jl_merge_trees :: "'t \<Rightarrow> 't \<Rightarrow> 't \<Rightarrow> 's \<Rightarrow> (string + 't) \<times> 's"
  jl_merge_commit_trees :: "readonly_repo \<Rightarrow> 't commit list \<Rightarrow> 's \<Rightarrow> (string + 't) \<times> 's"
  jl_tree_ids :: "'t \<Rightarrow> bytes list"
  jl_tree_values :: "bytes \<Rightarrow> 's \<Rightarrow> string + tree_value list"
  jl_now :: "'s \<Rightarrow> int"
  jl_new_commit :: "commit_id list \<Rightarrow> 't \<Rightarrow> signature \<Rightarrow> string \<Rightarrow> 's \<Rightarrow> (string + 't commit) \<times> 's"
  jl_set_bookmark :: "string \<Rightarrow> commit_id merge \<Rightarrow> view \<Rightarrow> view"
  jl_set_tag :: "string \<Rightarrow> commit_id merge \<Rightarrow> view \<Rightarrow> view"
  jl_add_head :: "'t commit \<Rightarrow> view \<Rightarrow> 's \<Rightarrow> string + view"
  jl_commit_tx :: "string \<Rightarrow> transaction \<Rightarrow> string \<Rightarrow> 's \<Rightarrow> (string + readonly_repo) \<times> 's"

end
