(* ===== verification/Strings.thy ===== *)
theory Strings
  imports Prelude
begin

text \<open>Operations on strings of the standard library that the storage layer and the compilers use.\<close>

text \<open>\<open>str::replace\<close>, \<open>split_once\<close>, \<open>rsplit_once\<close> and \<open>strip_suffix\<close>.\<close>

fun replace_str :: "string \<Rightarrow> string \<Rightarrow> string \<Rightarrow> string" where
  "replace_str from to [] = []"
| "replace_str from to (c # cs) =
     (if from \<noteq> [] \<and> starts_with (c # cs) from then to @ replace_str from to (drop (length from - 1) cs)
      else c # replace_str from to cs)"

fun split_once :: "char \<Rightarrow> string \<Rightarrow> (string \<times> string) option" where
  "split_once d [] = None"
| "split_once d (c # cs) = (if c = d then Some ([], cs) else map_option (\<lambda>(a, b). (c # a, b)) (split_once d cs))"

definition rsplit_once :: "char \<Rightarrow> string \<Rightarrow> (string \<times> string) option" where
  "rsplit_once d s = map_option (\<lambda>(b, a). (rev a, rev b)) (split_once d (rev s))"

definition strip_suffix :: "string \<Rightarrow> string \<Rightarrow> string option" where
  "strip_suffix p s = (if ends_with s p then Some (take (length s - length p) s) else None)"

definition show_i64 :: "int \<Rightarrow> string" where
  "show_i64 i = (if i < 0 then CHR ''-'' # show_nat (nat (- i)) else show_nat (nat i))"

end
