(* ===== verification/Jj.thy ===== *)
theory Jj
  imports Jj_Lib Strings
begin

text \<open>
  The operations of \<open>Jj\<close> (\<open>schemahub-jj/src/lib.rs\<close>): resolving refs, reading schemas, publishing
  commits under a policy, bookmarks and tags, the operation log, undo, conflicts, merges
  and garbage collection.  Each operation is a program over the state of the stores; a publishing
  operation holds the repository's publication guard from its first read to its last write, so
  it is one step as far as other writers are concerned.

  A schema file is a subtree; each declaration is one file in it, under its encoded name.
\<close>

section \<open>Names and paths\<close>

definition first :: "'a list \<Rightarrow> 'a option" where
  "first xs = (case xs of [] \<Rightarrow> None | x # _ \<Rightarrow> Some x)"


definition meta_name :: string where "meta_name = ''__meta__''"
definition author_attribute :: string where "author_attribute = ''schemahub.author''"
definition op_heads_ref :: string where "op_heads_ref = ''op_heads''"

datatype ref_spec = RefBookmark string | RefTag string | RefCommit string

definition jj_repo_key :: "string \<Rightarrow> string \<Rightarrow> string" where
  "jj_repo_key project repo = project @ ''/'' @ repo"

definition encode_decl_name :: "string \<Rightarrow> string" where
  "encode_decl_name nm = replace_str ''/'' ''%2F'' (replace_str ''%'' ''%25'' nm)"

definition decode_decl_name :: "string \<Rightarrow> string" where
  "decode_decl_name component = replace_str ''%25'' ''%'' (replace_str ''%2F'' ''/'' component)"

definition decl_path :: "('s, 't) jj_lib \<Rightarrow> string \<Rightarrow> string \<Rightarrow> jj_error + string" where
  "decl_path jl schema nm =
     (let path = schema @ ''/'' @ encode_decl_name nm in
      map_err (\<lambda>e. JCorrupt (''bad path '' @ path @ '': '' @ e)) (and_then (jl_repo_path jl path) (\<lambda>_. Inr path)))"

definition resolved_file :: "bytes \<Rightarrow> tree_value merge" where
  "resolved_file f = mg_normal (TvFile f)"

definition author_signature :: "('s, 't) jj_lib \<Rightarrow> string \<Rightarrow> 's \<Rightarrow> signature" where
  "author_signature jl author s = \<lparr>sg_name = author, sg_email = author @ ''@schemahub'', sg_timestamp = jl_now jl s\<rparr>"

section \<open>Opening a repository and resolving refs\<close>

definition load_repo :: "('s, 't) jj_lib \<Rightarrow> string \<Rightarrow> ('s, readonly_repo) jj" where
  "load_repo jl k =
     io_bind (\<lambda>s. case jl_loader jl k s of (r, t) \<Rightarrow> (map_err Stop r, t)) (\<lambda>_.
     io_bind (jj_read (jl_op_heads jl k)) (\<lambda>heads.
     io_bind (if heads = [] then jj_db_do (jl_create_ref jl k op_heads_ref (ascii_bytes (jl_hex jl (jl_root_op jl))))
        else io_return True) (\<lambda>_.
     jj_do (jl_load_at_head jl k))))"

definition publication_guard :: "('s, 't) jj_lib \<Rightarrow> string \<Rightarrow> ('s, unit) jj" where
  "publication_guard jl k s = (map_err Stop (jl_publication_guard jl k s), s)"

definition get_commit :: "('s, 't) jj_lib \<Rightarrow> commit_id \<Rightarrow> ('s, 't commit) jj" where
  "get_commit jl c = jj_read (\<lambda>s. map_err be_message (jl_get_commit jl c s))"

text \<open>Whether \<open>target\<close> is among the commits on the stack or their ancestors.\<close>

partial_function (option) retained_walk ::
  "('s, 't) jj_lib \<Rightarrow> 's \<Rightarrow> commit_id \<Rightarrow> commit_id list \<Rightarrow> commit_id set \<Rightarrow> (jj_error + bool) option" where
  [code]: "retained_walk jl s target stack seen =
     (case stack of
        [] \<Rightarrow> Some (Inr False)
      | c # rest \<Rightarrow>
          if c \<in> seen then retained_walk jl s target rest seen
          else if c = target then Some (Inr True)
          else case jl_get_commit jl c s of
              Inr commit \<Rightarrow> retained_walk jl s target (rev (cm_parents commit) @ rest) (insert c seen)
            | Inl (BeNotFound _) \<Rightarrow> retained_walk jl s target rest (insert c seen)
            | Inl (BeOther m) \<Rightarrow> Some (Inl (JOther m)))"

fun retained_heads :: "('s, 't) jj_lib \<Rightarrow> string \<Rightarrow> operation_id list \<Rightarrow> ('s, commit_id list) jj" where
  "retained_heads jl k [] = io_return []"
| "retained_heads jl k (i # ids) =
     (if i = jl_root_op jl then retained_heads jl k ids
      else io_bind (jj_read (jl_load_operation jl k i)) (\<lambda>operation.
        io_bind (jj_read (jl_operation_view jl operation)) (\<lambda>view.
        io_bind (retained_heads jl k ids) (\<lambda>rest. io_return (vw_heads view @ rest)))))"

definition validate_revision_in_repo :: "('s, 't) jj_lib \<Rightarrow> string \<Rightarrow> readonly_repo \<Rightarrow> commit_id \<Rightarrow> ('s, unit) jj" where
  "validate_revision_in_repo jl k repo target =
     io_bind (jj_db (jl_list_ops jl k)) (\<lambda>ids.
     io_bind (retained_heads jl k ids) (\<lambda>heads.
     io_bind (jj_loop (\<lambda>s. retained_walk jl s target (rev (vw_heads (rd_view repo) @ heads @ [jl_root_commit jl])) {})) (\<lambda>found.
     if found then io_return ()
     else jj_fail (JBadRef (''commit '' @ jl_hex jl target @ '' is not retained by repository '' @ k)))))"

fun resolve_ref :: "('s, 't) jj_lib \<Rightarrow> string \<Rightarrow> readonly_repo \<Rightarrow> ref_spec \<Rightarrow> ('s, commit_id) jj" where
  "resolve_ref jl k repo (RefBookmark n) =
     io_of (ok_or (Stop (JBookmarkNotFound n)) (first (added_ids (get_local_bookmark (rd_view repo) n))))"
| "resolve_ref jl k repo (RefTag n) =
     io_of (ok_or (Stop (JTagNotFound n)) (first (added_ids (get_local_tag (rd_view repo) n))))"
| "resolve_ref jl k repo (RefCommit h) =
     io_bind (io_of (ok_or (Stop (JBadRef h)) (jl_from_hex jl h))) (\<lambda>commit.
     io_bind (validate_revision_in_repo jl k repo commit) (\<lambda>_. io_return commit))"

definition try_resolve :: "('s, 't) jj_lib \<Rightarrow> string \<Rightarrow> readonly_repo \<Rightarrow> ref_spec \<Rightarrow> ('s, commit_id option) jj" where
  "try_resolve jl k repo at s =
     (case resolve_ref jl k repo at s of
        (Inr c, t) \<Rightarrow> (Inr (Some c), t)
      | (Inl (Stop (JBookmarkNotFound _)), t) \<Rightarrow> (Inr None, t)
      | (Inl (Stop (JTagNotFound _)), t) \<Rightarrow> (Inr None, t)
      | (Inl e, t) \<Rightarrow> (Inl e, t))"

definition require_commit :: "('s, 't) jj_lib \<Rightarrow> commit_id \<Rightarrow> ('s, string) jj" where
  "require_commit jl c s =
     (case jl_get_commit jl c s of
        Inr _ \<Rightarrow> (Inr (jl_hex jl c), s)
      | Inl (BeNotFound _) \<Rightarrow> (Inl (Stop JObjectNotFound), s)
      | Inl (BeOther m) \<Rightarrow> (Inl (Stop (JOther m)), s))"

definition resolve_ref_or_root :: "('s, 't) jj_lib \<Rightarrow> string \<Rightarrow> string \<Rightarrow> ref_spec \<Rightarrow> ('s, string) jj" where
  "resolve_ref_or_root jl project repo at =
     (let k = jj_repo_key project repo in
      io_bind (load_repo jl k) (\<lambda>jj_repo.
      io_bind (try_resolve jl k jj_repo at) (\<lambda>found.
      require_commit jl (case found of Some c \<Rightarrow> c | None \<Rightarrow> jl_root_commit jl))))"

definition resolve_ref_id :: "('s, 't) jj_lib \<Rightarrow> string \<Rightarrow> string \<Rightarrow> ref_spec \<Rightarrow> ('s, string) jj" where
  "resolve_ref_id jl project repo at =
     (let k = jj_repo_key project repo in
      io_bind (load_repo jl k) (\<lambda>jj_repo.
      io_bind (resolve_ref jl k jj_repo at) (require_commit jl)))"

definition validate_revision :: "('s, 't) jj_lib \<Rightarrow> string \<Rightarrow> string \<Rightarrow> string \<Rightarrow> ('s, unit) jj" where
  "validate_revision jl project repo commit_hex =
     io_bind (io_of (ok_or (Stop (JBadRef commit_hex)) (jl_from_hex jl commit_hex))) (\<lambda>target.
     let k = jj_repo_key project repo in
     io_bind (load_repo jl k) (\<lambda>jj_repo. validate_revision_in_repo jl k jj_repo target))"

text \<open>\<open>list_repository_keys\<close>; a malformed key ends the listing with an error.\<close>

fun split_repository_keys :: "string list \<Rightarrow> jj_error + (string \<times> string) list" where
  "split_repository_keys [] = Inr []"
| "split_repository_keys (key # keys) =
     (let malformed = Inl (JOther (''malformed repository key in object database: '' @ key)) in
      case split_once (CHR ''/'') key of
        None \<Rightarrow> malformed
      | Some (project, repo) \<Rightarrow>
          if project = [] \<or> repo = [] \<or> contains_char (CHR ''/'') repo then malformed
          else and_then (split_repository_keys keys) (\<lambda>rest. Inr ((project, repo) # rest)))"

definition list_repository_keys :: "('s, 't) jj_lib \<Rightarrow> ('s, (string \<times> string) list) jj" where
  "list_repository_keys jl =
     io_bind (jj_db (jl_list_repo_keys jl)) (\<lambda>keys.
     io_bind (io_of (map_err Stop (split_repository_keys keys))) (\<lambda>pairs.
     io_return (remdups_adj (sort pairs))))"

section \<open>Reading trees\<close>

text \<open>The direct entries of a schema's subtree, as \<open>load_schema_from_tree\<close> collects them.\<close>

fun collect_entries ::
  "('s, 't) jj_lib \<Rightarrow> string \<Rightarrow> (string \<times> (string + tree_value merge)) list \<Rightarrow> bool \<Rightarrow> schema_objects
    \<Rightarrow> ('s, bool \<times> schema_objects) jj" where
  "collect_entries jl prefix [] found_schema objs = io_return (found_schema, objs)"
| "collect_entries jl prefix ((path, value) # rest) found_schema objs =
     io_bind (io_of (map_err Stop (map_jj value))) (\<lambda>value.
     case strip_prefix prefix path of
       None \<Rightarrow> collect_entries jl prefix rest found_schema objs
     | Some part \<Rightarrow>
         if contains_char (CHR ''/'') part then collect_entries jl prefix rest found_schema objs
         else let nm = decode_decl_name part in
           case mg_resolved value of
             Some (Some (TvFile f)) \<Rightarrow>
               io_bind (jj_read (jl_read_file jl f)) (\<lambda>bs.
               collect_entries jl prefix rest True
                 (if nm = meta_name then objs\<lparr>so_meta := bs\<rparr> else objs\<lparr>so_decls := bt_insert nm bs (so_decls objs)\<rparr>))
           | _ \<Rightarrow> collect_entries jl prefix rest True objs)"

definition load_schema_from_tree :: "('s, 't) jj_lib \<Rightarrow> 't \<Rightarrow> string \<Rightarrow> ('s, schema_objects) jj" where
  "load_schema_from_tree jl tree schema_path s =
     io_bind (collect_entries jl (schema_path @ ''/'') (jl_entries jl tree s) False empty_objects) (\<lambda>(found_schema, objs).
     if found_schema then io_return objs else jj_fail (JSchemaNotFound schema_path)) s"

text \<open>The paths of entries that can all be read.\<close>

fun values_ok :: "(string \<times> (string + tree_value merge)) list \<Rightarrow> jj_error + string list" where
  "values_ok [] = Inr []"
| "values_ok ((path, value) # rest) =
     and_then (map_jj value) (\<lambda>_. and_then (values_ok rest) (\<lambda>paths. Inr (path # paths)))"

definition list_schemas_in_tree :: "('s, 't) jj_lib \<Rightarrow> 't \<Rightarrow> ('s, string list) jj" where
  "list_schemas_in_tree jl tree s =
     (map_err Stop (and_then (values_ok (jl_entries jl tree s)) (\<lambda>paths.
        Inr (remdups_adj (sort (List.map_filter (strip_suffix (''/'' @ meta_name)) paths))))), s)"

text \<open>The conflicted entries of a tree, by full path and by declaration name only.\<close>

definition conflicted_declaration_paths :: "('s, 't) jj_lib \<Rightarrow> 't \<Rightarrow> ('s, string list) jj" where
  "conflicted_declaration_paths jl tree s =
     (map_err Stop (and_then (values_ok (jl_conflicts jl tree s)) (\<lambda>paths.
        Inr (remdups_adj (sort (map (\<lambda>internal.
          case rsplit_once (CHR ''/'') internal of
            Some (schema, part) \<Rightarrow> schema @ ''/'' @ decode_decl_name part
          | None \<Rightarrow> decode_decl_name internal) paths))))), s)"

definition conflicted_decls :: "('s, 't) jj_lib \<Rightarrow> 't \<Rightarrow> ('s, string list) jj" where
  "conflicted_decls jl tree s =
     (map_err Stop (and_then (values_ok (jl_conflicts jl tree s)) (\<lambda>paths.
        Inr (remdups_adj (sort (map (\<lambda>internal. decode_decl_name (last (split_on (CHR ''/'') internal))) paths))))), s)"

section \<open>Reads at a ref\<close>

definition commit_at :: "('s, 't) jj_lib \<Rightarrow> string \<Rightarrow> string \<Rightarrow> ref_spec \<Rightarrow> ('s, 't commit) jj" where
  "commit_at jl project repo at_ref =
     (let k = jj_repo_key project repo in
      io_bind (load_repo jl k) (\<lambda>jj_repo.
      io_bind (resolve_ref jl k jj_repo at_ref) (get_commit jl)))"

definition load_schema :: "('s, 't) jj_lib \<Rightarrow> string \<Rightarrow> string \<Rightarrow> string \<Rightarrow> ref_spec \<Rightarrow> ('s, schema_objects) jj" where
  "load_schema jl project repo schema_path at_ref =
     io_bind (commit_at jl project repo at_ref) (\<lambda>commit. load_schema_from_tree jl (cm_tree commit) schema_path)"

definition list_conflicted_declarations :: "('s, 't) jj_lib \<Rightarrow> string \<Rightarrow> string \<Rightarrow> ref_spec \<Rightarrow> ('s, string list) jj" where
  "list_conflicted_declarations jl project repo at_ref =
     io_bind (commit_at jl project repo at_ref) (\<lambda>commit. conflicted_declaration_paths jl (cm_tree commit))"

definition list_schemas :: "('s, 't) jj_lib \<Rightarrow> string \<Rightarrow> string \<Rightarrow> ref_spec \<Rightarrow> ('s, string list) jj" where
  "list_schemas jl project repo at_ref =
     io_bind (commit_at jl project repo at_ref) (\<lambda>commit. list_schemas_in_tree jl (cm_tree commit))"

definition list_declarations :: "('s, 't) jj_lib \<Rightarrow> string \<Rightarrow> string \<Rightarrow> string \<Rightarrow> ref_spec \<Rightarrow> ('s, string list) jj" where
  "list_declarations jl project repo schema_path at_ref =
     io_bind (load_schema jl project repo schema_path at_ref) (\<lambda>objs. io_return (bt_keys (so_decls objs)))"

definition get_declaration :: "('s, 't) jj_lib \<Rightarrow> string \<Rightarrow> string \<Rightarrow> string \<Rightarrow> string \<Rightarrow> ref_spec \<Rightarrow> ('s, bytes) jj" where
  "get_declaration jl project repo schema_path decl at_ref =
     io_bind (commit_at jl project repo at_ref) (\<lambda>commit.
     io_bind (io_of (map_err Stop (decl_path jl schema_path decl))) (\<lambda>path.
     io_bind (jj_read (jl_path_value jl (cm_tree commit) path)) (\<lambda>value.
     case mg_resolved value of
       Some (Some (TvFile f)) \<Rightarrow> jj_read (jl_read_file jl f)
     | Some (Some _) \<Rightarrow> jj_fail (JCorrupt (schema_path @ ''/'' @ decl @ '' is not a file''))
     | Some None \<Rightarrow> jj_fail (JDeclNotFound decl)
     | None \<Rightarrow> jj_fail (JNotConflicted (decl @ '' is conflicted; use read_conflict'')))))"

record conflict_sides =
  cs_base :: "bytes option"
  cs_sides :: "bytes list"

definition tree_value_blob :: "('s, 't) jj_lib \<Rightarrow> tree_value \<Rightarrow> ('s, bytes option) jj" where
  "tree_value_blob jl v =
     (case v of TvFile f \<Rightarrow> io_bind (jj_read (jl_read_file jl f)) (\<lambda>bs. io_return (Some bs)) | _ \<Rightarrow> io_return None)"

fun blobs_of :: "('s, 't) jj_lib \<Rightarrow> tree_value list \<Rightarrow> ('s, bytes list) jj" where
  "blobs_of jl [] = io_return []"
| "blobs_of jl (v # vs) =
     io_bind (tree_value_blob jl v) (\<lambda>blob.
     io_bind (blobs_of jl vs) (\<lambda>rest. io_return (case blob of Some b \<Rightarrow> b # rest | None \<Rightarrow> rest)))"

definition read_conflict :: "('s, 't) jj_lib \<Rightarrow> string \<Rightarrow> string \<Rightarrow> string \<Rightarrow> string \<Rightarrow> ref_spec \<Rightarrow> ('s, conflict_sides) jj" where
  "read_conflict jl project repo schema_path decl at_ref =
     io_bind (commit_at jl project repo at_ref) (\<lambda>commit.
     io_bind (io_of (map_err Stop (decl_path jl schema_path decl))) (\<lambda>path.
     io_bind (jj_read (jl_path_value jl (cm_tree commit) path)) (\<lambda>value.
     if mg_resolved value \<noteq> None then jj_fail (JNotConflicted decl)
     else
       io_bind (case first (List.map_filter id (mg_removes value)) of
           None \<Rightarrow> io_return None
         | Some v \<Rightarrow> tree_value_blob jl v) (\<lambda>base.
       io_bind (blobs_of jl (List.map_filter id (mg_adds value))) (\<lambda>sides.
       io_return \<lparr>cs_base = base, cs_sides = sides\<rparr>)))))"

text \<open>The raw values below a schema, as compared by \<open>commit_touches_schema\<close>.\<close>

fun tree_state ::
  "string \<Rightarrow> (string \<times> (string + tree_value merge)) list \<Rightarrow> (string, tree_value merge) btree
    \<Rightarrow> jj_error + (string, tree_value merge) btree" where
  "tree_state prefix [] state = Inr state"
| "tree_state prefix ((path, value) # rest) state =
     (if starts_with path prefix
      then and_then (map_jj value) (\<lambda>v. tree_state prefix rest (bt_insert path v state))
      else tree_state prefix rest state)"

definition schema_tree_state :: "('s, 't) jj_lib \<Rightarrow> 't \<Rightarrow> string \<Rightarrow> ('s, (string, tree_value merge) btree) jj" where
  "schema_tree_state jl tree schema_path s = (map_err Stop (tree_state (schema_path @ ''/'') (jl_entries jl tree s) []), s)"

definition commit_touches_schema :: "('s, 't) jj_lib \<Rightarrow> string \<Rightarrow> string \<Rightarrow> string \<Rightarrow> string \<Rightarrow> ('s, bool) jj" where
  "commit_touches_schema jl project repo commit_hex schema_path =
     io_bind (commit_at jl project repo (RefCommit commit_hex)) (\<lambda>commit.
     io_bind (schema_tree_state jl (cm_tree commit) schema_path) (\<lambda>current.
     io_bind (case first (cm_parents commit) of
         Some parent_id \<Rightarrow>
           if parent_id \<noteq> jl_root_commit jl
           then io_bind (get_commit jl parent_id) (\<lambda>parent. schema_tree_state jl (cm_tree parent) schema_path)
           else io_return []
       | None \<Rightarrow> io_return []) (\<lambda>parent.
     io_return (current \<noteq> parent))))"

end
