(* ===== verification/Jj_Publish.thy ===== *)
theory Jj_Publish
  imports Jj
begin

text \<open>
  The publishing operations of \<open>Jj\<close> (\<open>schemahub-jj/src/lib.rs\<close>): commits of schema changes, bookmarks,
  tags, conflict resolution and merges.  A publication shows the exact tree it is about to publish to a
  policy of the caller and ends with \<open>PuRejected\<close> when the policy refuses it.
\<close>

section \<open>Publications\<close>

record write_result =
  wr_commit_id :: string
  wr_change_id :: string
  wr_operation_id :: string
  wr_conflicted_decls :: "string list"

datatype schema_write = SwPatch string mutation_effect | SwDelete string

datatype 'e publication_error = PuJj jj_error | PuRejected 'e

type_synonym ('s, 'e, 'a) publication = "('s, 'e publication_error stop, 'a) prog"

definition pub :: "('s, 'a) jj \<Rightarrow> ('s, 'e, 'a) publication" where
  "pub m = io_map_err (map_stop PuJj) m"

text \<open>What the policy sees: the tree, the schema names of the publication's inputs and of the tree, and
  whether the bookmark has several targets.\<close>

record 't snapshot =
  sn_final_tree :: 't
  sn_known_schema_names :: "string set"
  sn_bookmark_target_conflicted :: bool

type_synonym ('s, 't, 'e) policy = "'t snapshot \<Rightarrow> ('s, 'e stop, unit) prog"

definition run_policy :: "('s, 't, 'e) policy \<Rightarrow> 't snapshot \<Rightarrow> ('s, 'e, unit) publication" where
  "run_policy validate snapshot = io_map_err (map_stop PuRejected) (validate snapshot)"

text \<open>The variants without a policy.\<close>

definition accept_all :: "('s, 't, jj_error) policy" where
  "accept_all snapshot = io_return ()"

fun publication_jj :: "jj_error publication_error \<Rightarrow> jj_error" where
  "publication_jj (PuJj e) = e"
| "publication_jj (PuRejected e) = e"

definition unvalidated :: "('s, jj_error, 'a) publication \<Rightarrow> ('s, 'a) jj" where
  "unvalidated m = io_map_err (map_stop publication_jj) m"

definition record_author :: "string \<Rightarrow> transaction \<Rightarrow> transaction" where
  "record_author author tx = (if author \<noteq> [] then set_attribute author_attribute author tx else tx)"

definition set_attributes :: "(string, string) btree \<Rightarrow> transaction \<Rightarrow> transaction" where
  "set_attributes attributes tx = fold (\<lambda>(k, v) tx. if k \<noteq> [] then set_attribute k v tx else tx) attributes tx"

definition commit_tx :: "('s, 't) jj_lib \<Rightarrow> string \<Rightarrow> transaction \<Rightarrow> string \<Rightarrow> ('s, string) jj" where
  "commit_tx jl k tx description =
     io_bind (jj_do (jl_commit_tx jl k tx description)) (\<lambda>repo. io_return (jl_hex jl (op_id (rd_op repo))))"

definition set_bookmark_in_tx :: "('s, 't) jj_lib \<Rightarrow> string \<Rightarrow> commit_id \<Rightarrow> transaction \<Rightarrow> transaction" where
  "set_bookmark_in_tx jl bookmark commit tx = tx\<lparr>tx_view := jl_set_bookmark jl bookmark (mg_normal commit) (tx_view tx)\<rparr>"

text \<open>The common end of a publication: write the commit, move the bookmark and the heads, publish the operation.\<close>

definition publish_commit ::
  "('s, 't) jj_lib \<Rightarrow> string \<Rightarrow> transaction \<Rightarrow> string \<Rightarrow> commit_id list \<Rightarrow> 't \<Rightarrow> signature \<Rightarrow> string \<Rightarrow> string \<Rightarrow> string list
    \<Rightarrow> ('s, write_result) jj" where
  "publish_commit jl k tx bookmark parents tree signature message description conflicted =
     io_bind (jj_do (jl_new_commit jl parents tree signature message)) (\<lambda>commit.
     let tx = set_bookmark_in_tx jl bookmark (cm_id commit) tx in
     io_bind (jj_read (jl_add_head jl commit (tx_view tx))) (\<lambda>view.
     io_bind (commit_tx jl k (tx\<lparr>tx_view := view\<rparr>) description) (\<lambda>operation.
     io_return \<lparr>wr_commit_id = jl_hex jl (cm_id commit), wr_change_id = jl_reverse_hex jl (cm_change_id commit),
       wr_operation_id = operation, wr_conflicted_decls = conflicted\<rparr>)))"

section \<open>Schema changes\<close>

fun upsert_files :: "('s, 't) jj_lib \<Rightarrow> string \<Rightarrow> (string \<times> bytes) list \<Rightarrow> ('s, (string \<times> tree_value merge) list) jj" where
  "upsert_files jl schema_path [] = io_return []"
| "upsert_files jl schema_path ((nm, blob) # rest) =
     io_bind (jj_do (jl_write_file jl blob)) (\<lambda>f.
     io_bind (io_of (map_err Stop (decl_path jl schema_path nm))) (\<lambda>path.
     io_bind (upsert_files jl schema_path rest) (\<lambda>entries. io_return ((path, resolved_file f) # entries))))"

fun remove_files :: "('s, 't) jj_lib \<Rightarrow> string \<Rightarrow> string list \<Rightarrow> jj_error + (string \<times> tree_value merge) list" where
  "remove_files jl schema_path [] = Inr []"
| "remove_files jl schema_path (nm # rest) =
     and_then (decl_path jl schema_path nm) (\<lambda>path.
     and_then (remove_files jl schema_path rest) (\<lambda>entries. Inr ((path, mg_absent) # entries)))"

definition apply_effect :: "('s, 't) jj_lib \<Rightarrow> string \<Rightarrow> mutation_effect \<Rightarrow> ('s, (string \<times> tree_value merge) list) jj" where
  "apply_effect jl schema_path effect =
     io_bind (upsert_files jl schema_path (case me_meta effect of Some meta \<Rightarrow> [(meta_name, meta)] | None \<Rightarrow> [])) (\<lambda>metas.
     io_bind (upsert_files jl schema_path (me_upserts effect)) (\<lambda>upserts.
     io_bind (io_of (map_err Stop (remove_files jl schema_path (me_removes effect)))) (\<lambda>removes.
     io_return (metas @ upserts @ removes))))"

fun direct_paths :: "string \<Rightarrow> (string \<times> (string + tree_value merge)) list \<Rightarrow> jj_error + string list" where
  "direct_paths prefix [] = Inr []"
| "direct_paths prefix ((path, value) # rest) =
     and_then (map_jj value) (\<lambda>_. and_then (direct_paths prefix rest) (\<lambda>paths.
       Inr (case strip_prefix prefix path of
          Some part \<Rightarrow> if contains_char (CHR ''/'') part then paths else path # paths
        | None \<Rightarrow> paths)))"

definition delete_schema_from_tree :: "('s, 't) jj_lib \<Rightarrow> 't \<Rightarrow> string \<Rightarrow> ('s, (string \<times> tree_value merge) list) jj" where
  "delete_schema_from_tree jl base_tree schema_path s =
     (map_err Stop (and_then (direct_paths (schema_path @ ''/'') (jl_entries jl base_tree s)) (\<lambda>paths.
        if paths = [] then Inl (JSchemaNotFound schema_path) else Inr (map (\<lambda>path. (path, mg_absent)) paths))), s)"

fun apply_writes :: "('s, 't) jj_lib \<Rightarrow> 't \<Rightarrow> schema_write list \<Rightarrow> ('s, (string \<times> tree_value merge) list) jj" where
  "apply_writes jl base_tree [] = io_return []"
| "apply_writes jl base_tree (write # writes) =
     io_bind (case write of
         SwPatch schema_path effect \<Rightarrow> apply_effect jl schema_path effect
       | SwDelete schema_path \<Rightarrow> delete_schema_from_tree jl base_tree schema_path) (\<lambda>entries.
     io_bind (apply_writes jl base_tree writes) (\<lambda>rest. io_return (entries @ rest)))"

definition tree_or_empty :: "('s, 't) jj_lib \<Rightarrow> 't commit option \<Rightarrow> 't" where
  "tree_or_empty jl c = (case c of Some c \<Rightarrow> cm_tree c | None \<Rightarrow> jl_empty_tree jl)"

definition merge_trees :: "('s, 't) jj_lib \<Rightarrow> 't commit option \<Rightarrow> 't \<Rightarrow> 't \<Rightarrow> ('s, 't) jj" where
  "merge_trees jl base theirs ours = jj_do (jl_merge_trees jl ours (tree_or_empty jl base) theirs)"

definition get_commit_option :: "('s, 't) jj_lib \<Rightarrow> commit_id option \<Rightarrow> ('s, 't commit option) jj" where
  "get_commit_option jl c =
     (case c of Some c \<Rightarrow> io_bind (get_commit jl c) (\<lambda>commit. io_return (Some commit)) | None \<Rightarrow> io_return None)"

text \<open>The tree and the parents of the new commit: a merge with the tip when it has moved from the base.\<close>

definition final_tree_and_parents ::
  "('s, 't) jj_lib \<Rightarrow> commit_id option \<Rightarrow> 't commit option \<Rightarrow> commit_id option \<Rightarrow> 't \<Rightarrow> ('s, 't \<times> commit_id list) jj" where
  "final_tree_and_parents jl base_id base_commit current_tip writer_tree =
     (case current_tip of
        Some tip \<Rightarrow>
          if Some tip = base_id then io_return (writer_tree, [tip])
          else io_bind (get_commit jl tip) (\<lambda>tip_commit.
            io_bind (merge_trees jl base_commit (cm_tree tip_commit) writer_tree) (\<lambda>merged. io_return (merged, [tip])))
      | None \<Rightarrow> io_return (writer_tree, case base_id of Some b \<Rightarrow> [b] | None \<Rightarrow> [jl_root_commit jl]))"

text \<open>
  The work up to the policy: the repository, the signature, the proposed tree with its parents and conflicts, and the
  schema names of the base and of the proposed tree.
\<close>

definition prepare_changes ::
  "('s, 't) jj_lib \<Rightarrow> string \<Rightarrow> string \<Rightarrow> ref_spec \<Rightarrow> schema_write list \<Rightarrow> string
    \<Rightarrow> ('s, readonly_repo \<times> signature \<times> 't \<times> commit_id list \<times> string list \<times> string set) jj" where
  "prepare_changes jl k bookmark base_ref writes author =
     io_bind (publication_guard jl k) (\<lambda>_.
     io_bind (load_repo jl k) (\<lambda>jj_repo.
     io_bind (try_resolve jl k jj_repo base_ref) (\<lambda>base_id.
     io_bind (try_resolve jl k jj_repo (RefBookmark bookmark)) (\<lambda>current_tip.
     io_bind (get_commit_option jl base_id) (\<lambda>base_commit.
     let base_tree = tree_or_empty jl base_commit in
     io_bind (apply_writes jl base_tree writes) (\<lambda>entries.
     io_bind (jj_do (jl_write_tree jl base_tree entries)) (\<lambda>writer_tree.
     io_bind (\<lambda>s. (Inr (author_signature jl author s), s)) (\<lambda>signature.
     io_bind (final_tree_and_parents jl base_id base_commit current_tip writer_tree) (\<lambda>(final_tree, parents).
     io_bind (conflicted_decls jl final_tree) (\<lambda>conflicted.
     io_bind (list_schemas_in_tree jl base_tree) (\<lambda>base_names.
     io_bind (list_schemas_in_tree jl final_tree) (\<lambda>final_names.
     io_return (jj_repo, signature, final_tree, parents, conflicted, set base_names \<union> set final_names)))))))))))))"

definition commit_schema_changes_validated ::
  "('s, 't) jj_lib \<Rightarrow> string \<Rightarrow> string \<Rightarrow> string \<Rightarrow> ref_spec \<Rightarrow> schema_write list \<Rightarrow> string \<Rightarrow> string
    \<Rightarrow> (string, string) btree \<Rightarrow> ('s, 't, 'e) policy \<Rightarrow> ('s, 'e, write_result) publication" where
  "commit_schema_changes_validated jl project repo bookmark base_ref writes author message operation_attributes validate =
     (let k = jj_repo_key project repo in
      io_bind (pub (prepare_changes jl k bookmark base_ref writes author))
        (\<lambda>(jj_repo, signature, final_tree, parents, conflicted, known_schema_names).
      let tx = set_attributes operation_attributes (record_author author (start_transaction jj_repo)) in
      io_bind (run_policy validate \<lparr>sn_final_tree = final_tree, sn_known_schema_names = known_schema_names,
          sn_bookmark_target_conflicted = False\<rparr>) (\<lambda>_.
      pub (publish_commit jl k tx bookmark parents final_tree signature message
        (''commit_write '' @ bookmark @ '': '' @ message) conflicted))))"

definition commit_schema_changes ::
  "('s, 't) jj_lib \<Rightarrow> string \<Rightarrow> string \<Rightarrow> string \<Rightarrow> ref_spec \<Rightarrow> schema_write list \<Rightarrow> string \<Rightarrow> string
    \<Rightarrow> (string, string) btree \<Rightarrow> ('s, write_result) jj" where
  "commit_schema_changes jl project repo bookmark base_ref writes author message operation_attributes =
     unvalidated (commit_schema_changes_validated jl project repo bookmark base_ref writes author message
       operation_attributes accept_all)"

definition commit_write_multi ::
  "('s, 't) jj_lib \<Rightarrow> string \<Rightarrow> string \<Rightarrow> string \<Rightarrow> ref_spec \<Rightarrow> (string \<times> mutation_effect) list \<Rightarrow> string \<Rightarrow> string
    \<Rightarrow> ('s, write_result) jj" where
  "commit_write_multi jl project repo bookmark base_ref effects author message =
     commit_schema_changes jl project repo bookmark base_ref (map (\<lambda>(schema_path, effect). SwPatch schema_path effect) effects)
       author message []"

definition commit_write ::
  "('s, 't) jj_lib \<Rightarrow> string \<Rightarrow> string \<Rightarrow> string \<Rightarrow> string \<Rightarrow> ref_spec \<Rightarrow> mutation_effect \<Rightarrow> string \<Rightarrow> string
    \<Rightarrow> ('s, write_result) jj" where
  "commit_write jl project repo bookmark schema_path base_ref effect author message =
     commit_write_multi jl project repo bookmark base_ref [(schema_path, effect)] author message"

section \<open>Bookmarks and tags\<close>

definition create_bookmark_validated ::
  "('s, 't) jj_lib \<Rightarrow> string \<Rightarrow> string \<Rightarrow> string \<Rightarrow> ref_spec \<Rightarrow> string \<Rightarrow> ('s, 't, 'e) policy \<Rightarrow> ('s, 'e, string) publication" where
  "create_bookmark_validated jl project repo nm from author validate =
     (let k = jj_repo_key project repo in
      io_bind (pub (publication_guard jl k)) (\<lambda>_.
      io_bind (pub (load_repo jl k)) (\<lambda>jj_repo.
      if \<not> mg_is_absent (get_local_bookmark (rd_view jj_repo) nm) then io_fail (Stop (PuJj (JBookmarkExists nm)))
      else
        io_bind (pub (resolve_ref jl k jj_repo from)) (\<lambda>commit.
        io_bind (pub (get_commit jl commit)) (\<lambda>target.
        io_bind (pub (list_schemas_in_tree jl (cm_tree target))) (\<lambda>names.
        io_bind (run_policy validate \<lparr>sn_final_tree = cm_tree target, sn_known_schema_names = set names,
            sn_bookmark_target_conflicted = False\<rparr>) (\<lambda>_.
        let tx = set_bookmark_in_tx jl nm commit (record_author author (start_transaction jj_repo)) in
        io_bind (pub (commit_tx jl k tx (''create_bookmark '' @ nm))) (\<lambda>_. io_return (jl_hex jl commit)))))))))"

definition create_bookmark ::
  "('s, 't) jj_lib \<Rightarrow> string \<Rightarrow> string \<Rightarrow> string \<Rightarrow> ref_spec \<Rightarrow> string \<Rightarrow> ('s, string) jj" where
  "create_bookmark jl project repo nm from author =
     unvalidated (create_bookmark_validated jl project repo nm from author accept_all)"

definition move_bookmark_validated ::
  "('s, 't) jj_lib \<Rightarrow> string \<Rightarrow> string \<Rightarrow> string \<Rightarrow> ref_spec \<Rightarrow> string \<Rightarrow> ('s, 't, 'e) policy \<Rightarrow> ('s, 'e, string) publication" where
  "move_bookmark_validated jl project repo nm to author validate =
     (let k = jj_repo_key project repo in
      io_bind (pub (publication_guard jl k)) (\<lambda>_.
      io_bind (pub (load_repo jl k)) (\<lambda>jj_repo.
      if mg_is_absent (get_local_bookmark (rd_view jj_repo) nm) then io_fail (Stop (PuJj (JBookmarkNotFound nm)))
      else
        io_bind (pub (resolve_ref jl k jj_repo (RefBookmark nm))) (\<lambda>current.
        io_bind (pub (resolve_ref jl k jj_repo to)) (\<lambda>commit.
        io_bind (pub (get_commit jl current)) (\<lambda>current.
        io_bind (pub (get_commit jl commit)) (\<lambda>target.
        io_bind (pub (list_schemas_in_tree jl (cm_tree current))) (\<lambda>current_names.
        io_bind (pub (list_schemas_in_tree jl (cm_tree target))) (\<lambda>names.
        io_bind (run_policy validate \<lparr>sn_final_tree = cm_tree target,
            sn_known_schema_names = set current_names \<union> set names, sn_bookmark_target_conflicted = False\<rparr>) (\<lambda>_.
        let tx = set_bookmark_in_tx jl nm commit (record_author author (start_transaction jj_repo)) in
        io_bind (pub (commit_tx jl k tx (''move_bookmark '' @ nm))) (\<lambda>_. io_return (jl_hex jl commit))))))))))))"

definition move_bookmark ::
  "('s, 't) jj_lib \<Rightarrow> string \<Rightarrow> string \<Rightarrow> string \<Rightarrow> ref_spec \<Rightarrow> string \<Rightarrow> ('s, string) jj" where
  "move_bookmark jl project repo nm to author =
     unvalidated (move_bookmark_validated jl project repo nm to author accept_all)"

definition delete_bookmark :: "('s, 't) jj_lib \<Rightarrow> string \<Rightarrow> string \<Rightarrow> string \<Rightarrow> string \<Rightarrow> ('s, unit) jj" where
  "delete_bookmark jl project repo nm author =
     (let k = jj_repo_key project repo in
      io_bind (publication_guard jl k) (\<lambda>_.
      io_bind (load_repo jl k) (\<lambda>jj_repo.
      if mg_is_absent (get_local_bookmark (rd_view jj_repo) nm) then jj_fail (JBookmarkNotFound nm)
      else
        let tx = record_author author (start_transaction jj_repo);
            tx = tx\<lparr>tx_view := jl_set_bookmark jl nm mg_absent (tx_view tx)\<rparr> in
        io_bind (commit_tx jl k tx (''delete_bookmark '' @ nm)) (\<lambda>_. io_return ()))))"

definition list_bookmarks :: "('s, 't) jj_lib \<Rightarrow> string \<Rightarrow> string \<Rightarrow> ('s, (string \<times> string list) list) jj" where
  "list_bookmarks jl project repo =
     io_bind (load_repo jl (jj_repo_key project repo)) (\<lambda>jj_repo.
     io_return (map (\<lambda>(nm, target). (nm, map (jl_hex jl) (added_ids target))) (vw_bookmarks (rd_view jj_repo))))"

definition create_tag :: "('s, 't) jj_lib \<Rightarrow> string \<Rightarrow> string \<Rightarrow> string \<Rightarrow> ref_spec \<Rightarrow> string \<Rightarrow> ('s, string) jj" where
  "create_tag jl project repo nm at author =
     (let k = jj_repo_key project repo in
      io_bind (publication_guard jl k) (\<lambda>_.
      io_bind (load_repo jl k) (\<lambda>jj_repo.
      if \<not> mg_is_absent (get_local_tag (rd_view jj_repo) nm) then jj_fail (JTagExists nm)
      else
        io_bind (resolve_ref jl k jj_repo at) (\<lambda>commit.
        let tx = record_author author (start_transaction jj_repo);
            tx = tx\<lparr>tx_view := jl_set_tag jl nm (mg_normal commit) (tx_view tx)\<rparr> in
        io_bind (commit_tx jl k tx (''create_tag '' @ nm)) (\<lambda>_. io_return (jl_hex jl commit))))))"

definition delete_tag :: "('s, 't) jj_lib \<Rightarrow> string \<Rightarrow> string \<Rightarrow> string \<Rightarrow> string \<Rightarrow> ('s, unit) jj" where
  "delete_tag jl project repo nm author =
     (let k = jj_repo_key project repo in
      io_bind (publication_guard jl k) (\<lambda>_.
      io_bind (load_repo jl k) (\<lambda>jj_repo.
      if mg_is_absent (get_local_tag (rd_view jj_repo) nm) then jj_fail (JTagNotFound nm)
      else
        let tx = record_author author (start_transaction jj_repo);
            tx = tx\<lparr>tx_view := jl_set_tag jl nm mg_absent (tx_view tx)\<rparr> in
        io_bind (commit_tx jl k tx (''delete_tag '' @ nm)) (\<lambda>_. io_return ()))))"

definition list_tags :: "('s, 't) jj_lib \<Rightarrow> string \<Rightarrow> string \<Rightarrow> ('s, (string \<times> string) list) jj" where
  "list_tags jl project repo =
     io_bind (load_repo jl (jj_repo_key project repo)) (\<lambda>jj_repo.
     io_return (List.map_filter (\<lambda>(nm, target). map_option (\<lambda>c. (nm, jl_hex jl c)) (first (added_ids target)))
       (vw_tags (rd_view jj_repo))))"

section \<open>Conflicts and merges\<close>

text \<open>A bookmark that must resolve; any error but a loop that does not end becomes \<open>BookmarkNotFound\<close>.\<close>

definition resolve_bookmark :: "('s, 't) jj_lib \<Rightarrow> string \<Rightarrow> readonly_repo \<Rightarrow> string \<Rightarrow> ('s, commit_id) jj" where
  "resolve_bookmark jl k repo nm =
     io_map_err (map_stop (\<lambda>_. JBookmarkNotFound nm)) (resolve_ref jl k repo (RefBookmark nm))"

definition resolve_conflict ::
  "('s, 't) jj_lib \<Rightarrow> string \<Rightarrow> string \<Rightarrow> string \<Rightarrow> string \<Rightarrow> string \<Rightarrow> bytes \<Rightarrow> string \<Rightarrow> string \<Rightarrow> ('s, write_result) jj" where
  "resolve_conflict jl project repo bookmark schema_path decl resolved author message =
     (let k = jj_repo_key project repo in
      io_bind (publication_guard jl k) (\<lambda>_.
      io_bind (load_repo jl k) (\<lambda>jj_repo.
      io_bind (resolve_bookmark jl k jj_repo bookmark) (\<lambda>tip.
      io_bind (get_commit jl tip) (\<lambda>tip_commit.
      io_bind (jj_do (jl_write_file jl resolved)) (\<lambda>file_id.
      io_bind (io_of (map_err Stop (decl_path jl schema_path decl))) (\<lambda>path.
      io_bind (jj_do (jl_write_tree jl (cm_tree tip_commit) [(path, resolved_file file_id)])) (\<lambda>new_tree.
      io_bind (\<lambda>s. (Inr (author_signature jl author s), s)) (\<lambda>signature.
      let tx = record_author author (start_transaction jj_repo) in
      publish_commit jl k tx bookmark [tip] new_tree signature message
        (''resolve_conflict '' @ schema_path @ ''/'' @ decl) [])))))))))"

definition prepare_merge ::
  "('s, 't) jj_lib \<Rightarrow> string \<Rightarrow> string \<Rightarrow> string
    \<Rightarrow> ('s, readonly_repo \<times> 't \<times> commit_id list \<times> string list \<times> string set) jj" where
  "prepare_merge jl k src dst =
     io_bind (publication_guard jl k) (\<lambda>_.
     io_bind (load_repo jl k) (\<lambda>jj_repo.
     io_bind (resolve_bookmark jl k jj_repo src) (\<lambda>src_id.
     io_bind (resolve_bookmark jl k jj_repo dst) (\<lambda>dst_id.
     io_bind (get_commit jl dst_id) (\<lambda>dst_commit.
     io_bind (get_commit jl src_id) (\<lambda>src_commit.
     io_bind (jj_do (jl_merge_commit_trees jl jj_repo [dst_commit, src_commit])) (\<lambda>merged_tree.
     io_bind (conflicted_decls jl merged_tree) (\<lambda>conflicted.
     io_bind (list_schemas_in_tree jl (cm_tree dst_commit)) (\<lambda>dst_names.
     io_bind (list_schemas_in_tree jl (cm_tree src_commit)) (\<lambda>src_names.
     io_bind (list_schemas_in_tree jl merged_tree) (\<lambda>merged_names.
     io_return (jj_repo, merged_tree, [dst_id, src_id], conflicted, set dst_names \<union> set src_names \<union> set merged_names))))))))))))"

definition merge_with_attributes_validated ::
  "('s, 't) jj_lib \<Rightarrow> string \<Rightarrow> string \<Rightarrow> string \<Rightarrow> string \<Rightarrow> string \<Rightarrow> string \<Rightarrow> (string, string) btree
    \<Rightarrow> ('s, 't, 'e) policy \<Rightarrow> ('s, 'e, write_result) publication" where
  "merge_with_attributes_validated jl project repo src dst author message operation_attributes validate =
     (let k = jj_repo_key project repo in
      io_bind (pub (prepare_merge jl k src dst)) (\<lambda>(jj_repo, merged_tree, parents, conflicted, known_schema_names).
      io_bind (run_policy validate \<lparr>sn_final_tree = merged_tree, sn_known_schema_names = known_schema_names,
          sn_bookmark_target_conflicted = False\<rparr>) (\<lambda>_.
      io_bind (\<lambda>s. (Inr (author_signature jl author s), s)) (\<lambda>signature.
      let tx = set_attributes operation_attributes (record_author author (start_transaction jj_repo)) in
      pub (publish_commit jl k tx dst parents merged_tree signature message message conflicted)))))"

definition merge_with_attributes ::
  "('s, 't) jj_lib \<Rightarrow> string \<Rightarrow> string \<Rightarrow> string \<Rightarrow> string \<Rightarrow> string \<Rightarrow> string \<Rightarrow> (string, string) btree \<Rightarrow> ('s, write_result) jj" where
  "merge_with_attributes jl project repo src dst author message operation_attributes =
     unvalidated (merge_with_attributes_validated jl project repo src dst author message operation_attributes accept_all)"

definition merge_bookmarks :: "('s, 't) jj_lib \<Rightarrow> string \<Rightarrow> string \<Rightarrow> string \<Rightarrow> string \<Rightarrow> string \<Rightarrow> ('s, write_result) jj" where
  "merge_bookmarks jl project repo src dst author =
     merge_with_attributes jl project repo src dst author (''merge '' @ src @ '' into '' @ dst) []"

section \<open>Reads of a snapshot\<close>

definition snapshot_conflicted_declarations :: "('s, 't) jj_lib \<Rightarrow> 't snapshot \<Rightarrow> ('s, string list) jj" where
  "snapshot_conflicted_declarations jl sn = conflicted_declaration_paths jl (sn_final_tree sn)"

definition snapshot_list_schemas :: "('s, 't) jj_lib \<Rightarrow> 't snapshot \<Rightarrow> ('s, string list) jj" where
  "snapshot_list_schemas jl sn = list_schemas_in_tree jl (sn_final_tree sn)"

definition snapshot_load_schema :: "('s, 't) jj_lib \<Rightarrow> 't snapshot \<Rightarrow> string \<Rightarrow> ('s, schema_objects) jj" where
  "snapshot_load_schema jl sn schema_path = load_schema_from_tree jl (sn_final_tree sn) schema_path"

end
