(* ===== verification/Jj_Log.thy ===== *)
theory Jj_Log
  imports Jj_Publish
begin

text \<open>
  The operation log of \<open>Jj\<close> (\<open>schemahub-jj/src/lib.rs\<close>): listing it, recovering the write of a
  correlated operation, undo, and the commit log.
\<close>

section \<open>Listing operations\<close>

record op_record =
  or_op_id :: string
  or_parents :: "string list"
  or_description :: string
  or_author :: string
  or_timestamp :: string
  or_attributes :: "(string, string) btree"

definition operation_record :: "('s, 't) jj_lib \<Rightarrow> operation \<Rightarrow> op_record" where
  "operation_record jl operation = \<lparr>or_op_id = jl_hex jl (op_id operation), or_parents = map (jl_hex jl) (op_parents operation),
     or_description = op_description operation,
     or_author = (case bt_get (op_attributes operation) author_attribute of Some a \<Rightarrow> a | None \<Rightarrow> op_username operation),
     or_timestamp = show_i64 (op_end_time operation), or_attributes = op_attributes operation\<rparr>"

fun load_operations :: "('s, 't) jj_lib \<Rightarrow> string \<Rightarrow> operation_id list \<Rightarrow> 's \<Rightarrow> jj_error + operation list" where
  "load_operations jl k [] s = Inr []"
| "load_operations jl k (i # ids) s =
     (if i = jl_root_op jl then load_operations jl k ids s
      else and_then (map_jj (jl_load_operation jl k i s)) (\<lambda>operation.
        and_then (load_operations jl k ids s) (\<lambda>rest. Inr (operation # rest))))"

partial_function (option) operations_walk ::
  "('s, 't) jj_lib \<Rightarrow> string \<Rightarrow> 's \<Rightarrow> operation list \<Rightarrow> operation_id set \<Rightarrow> op_record list \<Rightarrow> (jj_error + op_record list) option" where
  [code]: "operations_walk jl k s cursor seen chain =
     (case cursor of
        [] \<Rightarrow> Some (Inr chain)
      | operation # rest \<Rightarrow>
          if op_id operation = jl_root_op jl \<or> op_id operation \<in> seen then operations_walk jl k s rest seen chain
          else case load_operations jl k (op_parents operation) s of
              Inl e \<Rightarrow> Some (Inl e)
            | Inr parents \<Rightarrow> operations_walk jl k s (rev parents @ rest) (insert (op_id operation) seen)
                (chain @ [operation_record jl operation]))"

definition list_operations :: "('s, 't) jj_lib \<Rightarrow> string \<Rightarrow> string \<Rightarrow> ('s, op_record list) jj" where
  "list_operations jl project repo =
     (let k = jj_repo_key project repo in
      io_bind (load_repo jl k) (\<lambda>jj_repo.
      io_bind (jj_loop (\<lambda>s. operations_walk jl k s [rd_op jj_repo] {} [])) (\<lambda>chain.
      io_return (sort_key or_timestamp chain))))"

text \<open>
  The walk of \<open>list_operations_tail\<close> for at most \<open>n\<close> more operations.  \<open>None\<close> is a branch in the
  history, on which the code falls back to the complete listing.
\<close>

fun tail_walk ::
  "('s, 't) jj_lib \<Rightarrow> string \<Rightarrow> nat \<Rightarrow> operation \<Rightarrow> operation_id set \<Rightarrow> op_record list \<Rightarrow> 's \<Rightarrow> jj_error + op_record list option" where
  "tail_walk jl k 0 cursor seen newest_first s = Inr (Some newest_first)"
| "tail_walk jl k (Suc n) cursor seen newest_first s =
     (if op_id cursor = jl_root_op jl then Inr (Some newest_first)
      else if op_id cursor \<in> seen then Inl (JCorrupt (''operation graph contains a cycle at '' @ jl_hex jl (op_id cursor)))
      else
        let newest_first = newest_first @ [operation_record jl cursor] in
        if n = 0 then Inr (Some newest_first)
        else case filter (\<lambda>p. p \<noteq> jl_root_op jl) (op_parents cursor) of
            [] \<Rightarrow> Inr (Some newest_first)
          | [parent] \<Rightarrow> and_then (map_jj (jl_load_operation jl k parent s)) (\<lambda>parent.
              tail_walk jl k n parent (insert (op_id cursor) seen) newest_first s)
          | _ \<Rightarrow> Inr None)"

definition list_operations_tail :: "('s, 't) jj_lib \<Rightarrow> string \<Rightarrow> string \<Rightarrow> nat \<Rightarrow> ('s, op_record list) jj" where
  "list_operations_tail jl project repo limit =
     (if limit = 0 then io_return []
      else let k = jj_repo_key project repo in
        io_bind (load_repo jl k) (\<lambda>jj_repo.
        io_bind (\<lambda>s. (map_err Stop (tail_walk jl k limit (rd_op jj_repo) {} [] s), s)) (\<lambda>found.
        case found of
          Some newest_first \<Rightarrow> io_return (rev newest_first)
        | None \<Rightarrow> io_bind (list_operations jl project repo) (\<lambda>all. io_return (drop (length all - limit) all)))))"

section \<open>Correlated writes\<close>

definition find_operation_by_attributes ::
  "('s, 't) jj_lib \<Rightarrow> string \<Rightarrow> string \<Rightarrow> (string, string) btree \<Rightarrow> ('s, op_record option) jj" where
  "find_operation_by_attributes jl project repo required =
     io_bind (list_operations jl project repo) (\<lambda>operations.
     io_return (find (\<lambda>operation. list_all (\<lambda>(key, v). bt_get (or_attributes operation) key = Some v) required) (rev operations)))"

definition find_correlated_write ::
  "('s, 't) jj_lib \<Rightarrow> string \<Rightarrow> string \<Rightarrow> string \<Rightarrow> (string, string) btree \<Rightarrow> ('s, write_result option) jj" where
  "find_correlated_write jl project repo bookmark required =
     io_bind (find_operation_by_attributes jl project repo required) (\<lambda>found.
     case found of
       None \<Rightarrow> io_return None
     | Some record \<Rightarrow>
         io_bind (io_of (ok_or (Stop (JCorrupt (''invalid operation id '' @ or_op_id record))) (jl_from_hex jl (or_op_id record)))) (\<lambda>operation_id.
         let k = jj_repo_key project repo in
         io_bind (load_repo jl k) (\<lambda>jj_repo.
         io_bind (jj_read (jl_load_operation jl k operation_id)) (\<lambda>operation.
         io_bind (jj_read (jl_load_at jl k operation)) (\<lambda>historical_repo.
         io_bind (io_of (ok_or (Stop (JCorrupt (''correlated operation '' @ or_op_id record @ '' has no target for bookmark '' @ bookmark)))
           (first (added_ids (get_local_bookmark (rd_view historical_repo) bookmark))))) (\<lambda>commit_id.
         io_bind (get_commit jl commit_id) (\<lambda>commit.
         io_bind (conflicted_decls jl (cm_tree commit)) (\<lambda>conflicted.
         io_return (Some \<lparr>wr_commit_id = jl_hex jl (cm_id commit), wr_change_id = jl_reverse_hex jl (cm_change_id commit),
           wr_operation_id = or_op_id record, wr_conflicted_decls = conflicted\<rparr>)))))))))"

section \<open>Undo\<close>

definition is_undo :: "operation \<Rightarrow> bool" where
  "is_undo operation \<longleftrightarrow> starts_with (op_description operation) ''undo ''"

text \<open>The content operations from the head back to the root, and the number of undo operations in front of them.\<close>

partial_function (option) undo_walk ::
  "('s, 't) jj_lib \<Rightarrow> string \<Rightarrow> 's \<Rightarrow> operation \<Rightarrow> operation list \<Rightarrow> nat \<Rightarrow> bool \<Rightarrow> (jj_error + operation list \<times> nat) option" where
  [code]: "undo_walk jl k s cursor content_ops leading_undos seen_content =
     (if op_id cursor = jl_root_op jl then Some (Inr (content_ops, leading_undos))
      else
        let content = (if is_undo cursor then content_ops else content_ops @ [cursor]);
            undos = (if is_undo cursor \<and> \<not> seen_content then leading_undos + 1 else leading_undos);
            seen = (seen_content \<or> \<not> is_undo cursor) in
        case find (\<lambda>p. p \<noteq> jl_root_op jl) (op_parents cursor) of
          None \<Rightarrow> Some (Inr (content, undos))
        | Some parent_id \<Rightarrow>
            (case jl_load_operation jl k parent_id s of
               Inl e \<Rightarrow> Some (Inl (JOther e))
             | Inr parent \<Rightarrow> undo_walk jl k s parent content undos seen))"

text \<open>The view to restore: that of an older content operation, or of the parent of the oldest one.\<close>

definition undo_target :: "('s, 't) jj_lib \<Rightarrow> string \<Rightarrow> operation list \<Rightarrow> nat \<Rightarrow> ('s, view) jj" where
  "undo_target jl k content_ops depth =
     (if depth < length content_ops
      then io_bind (jj_read (jl_load_at jl k (content_ops ! depth))) (\<lambda>repo. io_return (rd_view repo))
      else
        io_bind (jj_read (jl_load_operation jl k
          (case find (\<lambda>p. p \<noteq> jl_root_op jl) (op_parents (last content_ops)) of Some p \<Rightarrow> p | None \<Rightarrow> jl_root_op jl))) (\<lambda>operation.
        io_bind (jj_read (jl_load_at jl k operation)) (\<lambda>repo. io_return (rd_view repo))))"

fun schema_names_of :: "('s, 't) jj_lib \<Rightarrow> commit_id list \<Rightarrow> ('s, string set) jj" where
  "schema_names_of jl [] = io_return {}"
| "schema_names_of jl (c # cs) =
     io_bind (get_commit jl c) (\<lambda>commit.
     io_bind (list_schemas_in_tree jl (cm_tree commit)) (\<lambda>names.
     io_bind (schema_names_of jl cs) (\<lambda>rest. io_return (set names \<union> rest))))"

fun validate_bookmarks ::
  "('s, 't) jj_lib \<Rightarrow> readonly_repo \<Rightarrow> (string \<Rightarrow> ('s, 't, 'e) policy) \<Rightarrow> (string \<times> commit_id merge) list \<Rightarrow> ('s, 'e, unit) publication" where
  "validate_bookmarks jl jj_repo validate [] = io_return ()"
| "validate_bookmarks jl jj_repo validate ((nm, target) # rest) =
     (case added_ids target of
        [] \<Rightarrow> validate_bookmarks jl jj_repo validate rest
      | target_id # others \<Rightarrow>
          io_bind (pub (get_commit jl target_id)) (\<lambda>target_commit.
          io_bind (pub (list_schemas_in_tree jl (cm_tree target_commit))) (\<lambda>names.
          io_bind (if others = [] then pub (schema_names_of jl (added_ids (get_local_bookmark (rd_view jj_repo) nm)))
            else io_return {}) (\<lambda>current_names.
          io_bind (run_policy (validate nm) \<lparr>sn_final_tree = cm_tree target_commit,
              sn_known_schema_names = set names \<union> current_names, sn_bookmark_target_conflicted = (others \<noteq> [])\<rparr>) (\<lambda>_.
          validate_bookmarks jl jj_repo validate rest)))))"

definition undo_validated ::
  "('s, 't) jj_lib \<Rightarrow> string \<Rightarrow> string \<Rightarrow> string \<Rightarrow> (string \<Rightarrow> ('s, 't, 'e) policy) \<Rightarrow> ('s, 'e, string) publication" where
  "undo_validated jl project repo author validate =
     (let k = jj_repo_key project repo in
      io_bind (pub (publication_guard jl k)) (\<lambda>_.
      io_bind (pub (load_repo jl k)) (\<lambda>jj_repo.
      io_bind (pub (jj_loop (\<lambda>s. undo_walk jl k s (rd_op jj_repo) [] 0 False))) (\<lambda>(content_ops, leading_undos).
      if content_ops = [] then io_fail (Stop (PuJj JNothingToUndo))
      else
        let depth = leading_undos + 1 in
        if depth > length content_ops then io_fail (Stop (PuJj JNothingToUndo))
        else
          let undone_op_id = jl_hex jl (op_id (content_ops ! leading_undos)) in
          io_bind (pub (undo_target jl k content_ops depth)) (\<lambda>target_view.
          io_bind (validate_bookmarks jl jj_repo validate (vw_bookmarks target_view)) (\<lambda>_.
          let tx = record_author author (start_transaction jj_repo\<lparr>tx_view := target_view\<rparr>) in
          io_bind (pub (commit_tx jl k tx (''undo '' @ undone_op_id))) (\<lambda>_. io_return undone_op_id)))))))"

definition undo :: "('s, 't) jj_lib \<Rightarrow> string \<Rightarrow> string \<Rightarrow> string \<Rightarrow> ('s, string) jj" where
  "undo jl project repo author = unvalidated (undo_validated jl project repo author (\<lambda>_. accept_all))"

section \<open>The commit log\<close>

record commit_record =
  cr_commit_id :: string
  cr_change_id :: string
  cr_parents :: "string list"
  cr_author :: string
  cr_message :: string
  cr_timestamp :: string

definition commit_record_of :: "('s, 't) jj_lib \<Rightarrow> 't commit \<Rightarrow> commit_record" where
  "commit_record_of jl commit = \<lparr>cr_commit_id = jl_hex jl (cm_id commit),
     cr_change_id = jl_reverse_hex jl (cm_change_id commit), cr_parents = map (jl_hex jl) (cm_parents commit),
     cr_author = cm_author commit, cr_message = cm_description commit, cr_timestamp = show_i64 (cm_author_time commit)\<rparr>"

function log_walk ::
  "('s, 't) jj_lib \<Rightarrow> nat \<Rightarrow> commit_id list \<Rightarrow> commit_id set \<Rightarrow> commit_record list \<Rightarrow> 's \<Rightarrow> jj_error + commit_record list" where
  "log_walk jl limit [] seen out s = Inr out"
| "log_walk jl limit (c # rest) seen out s =
     (if c = jl_root_commit jl \<or> c \<in> seen then log_walk jl limit rest seen out s
      else if length out \<ge> limit then Inr out
      else case jl_get_commit jl c s of
          Inl e \<Rightarrow> Inl (JOther (be_message e))
        | Inr commit \<Rightarrow>
            log_walk jl limit (rev (filter (\<lambda>p. p \<noteq> jl_root_commit jl) (cm_parents commit)) @ rest) (insert c seen)
              (out @ [commit_record_of jl commit]) s)"
  by pat_completeness auto
termination
  by (relation "measures [\<lambda>(jl, limit, queue, seen, out, s). limit - length out, \<lambda>(jl, limit, queue, seen, out, s). length queue]")
    auto

text \<open>Newest first: a stable descending sort by timestamp.\<close>

definition commit_log :: "('s, 't) jj_lib \<Rightarrow> string \<Rightarrow> string \<Rightarrow> ref_spec \<Rightarrow> nat \<Rightarrow> ('s, commit_record list) jj" where
  "commit_log jl project repo at_ref limit =
     (let k = jj_repo_key project repo in
      io_bind (load_repo jl k) (\<lambda>jj_repo.
      io_bind (resolve_ref jl k jj_repo at_ref) (\<lambda>start.
      io_bind (\<lambda>s. (map_err Stop (log_walk jl limit [start] {} [] s), s)) (\<lambda>out.
      io_return (rev (sort_key cr_timestamp (rev out)))))))"

end
