(* ===== verification/Jj_Gc.thy ===== *)
theory Jj_Gc
  imports Jj_Log
begin

text \<open>
  Garbage collection (\<open>Jj::gc\<close>, \<open>schemahub-jj/src/lib.rs\<close>): mark every object that a retained operation
  of any repository reaches, then delete the other commits, trees, files and views.  The sets of marked
  objects hold hexadecimal ids.  The order in which a hash set is traversed is not specified; the
  model uses the order of insertion.
\<close>

section \<open>Marking\<close>

text \<open>
  \<open>mark_tree\<close>: the entries of a tree in order, a subtree before the entries that follow it; the
  recursion is an explicit stack of values still to be visited.
\<close>

partial_function (option) mark_values ::
  "('s, 't) jj_lib \<Rightarrow> 's \<Rightarrow> tree_value list \<Rightarrow> string set \<Rightarrow> string set \<Rightarrow> (jj_error + string set \<times> string set) option" where
  [code]: "mark_values jl s stack trees files =
     (case stack of
        [] \<Rightarrow> Some (Inr (trees, files))
      | v # rest \<Rightarrow>
          (case v of
             TvFile f \<Rightarrow> mark_values jl s rest trees (insert (jl_hex jl f) files)
           | TvTree t \<Rightarrow>
               if jl_hex jl t \<in> trees then mark_values jl s rest trees files
               else (case jl_tree_values jl t s of
                   Inl e \<Rightarrow> Some (Inl (JOther e))
                 | Inr vs \<Rightarrow> mark_values jl s (vs @ rest) (insert (jl_hex jl t) trees) files)
           | TvOther \<Rightarrow> mark_values jl s rest trees files))"

text \<open>The parents that are marked for the first time, the last one on top of the stack.\<close>

fun push_parents :: "('s, 't) jj_lib \<Rightarrow> commit_id list \<Rightarrow> string set \<Rightarrow> string list \<Rightarrow> string set \<times> string list" where
  "push_parents jl [] commits queue = (commits, queue)"
| "push_parents jl (p # ps) commits queue =
     (if p \<noteq> jl_root_commit jl \<and> jl_hex jl p \<notin> commits
      then push_parents jl ps (insert (jl_hex jl p) commits) (jl_hex jl p # queue)
      else push_parents jl ps commits queue)"

record marks =
  mk_commits :: "string set"
  mk_trees :: "string set"
  mk_files :: "string set"

partial_function (option) mark_commits :: "('s, 't) jj_lib \<Rightarrow> 's \<Rightarrow> string list \<Rightarrow> marks \<Rightarrow> (jj_error + marks) option" where
  [code]: "mark_commits jl s queue m =
     (case queue of
        [] \<Rightarrow> Some (Inr m)
      | c_hex # rest \<Rightarrow>
          (case jl_from_hex jl c_hex of
             None \<Rightarrow> Some (Inl (JCorrupt (''malformed reachable commit hex: '' @ c_hex)))
           | Some cid \<Rightarrow>
               if cid = jl_root_commit jl then mark_commits jl s rest m
               else (case jl_get_commit jl cid s of
                   Inl e \<Rightarrow> Some (Inl (JOther (be_message e)))
                 | Inr commit \<Rightarrow>
                     (case mark_values jl s (map TvTree (jl_tree_ids jl (cm_tree commit))) (mk_trees m) (mk_files m) of
                        None \<Rightarrow> None
                      | Some (Inl e) \<Rightarrow> Some (Inl e)
                      | Some (Inr (trees, files)) \<Rightarrow>
                          (case push_parents jl (cm_parents commit) (mk_commits m) rest of
                             (commits, queue') \<Rightarrow>
                               mark_commits jl s queue' \<lparr>mk_commits = commits, mk_trees = trees, mk_files = files\<rparr>)))))"

section \<open>Roots\<close>

definition view_commits :: "view \<Rightarrow> commit_id list" where
  "view_commits view = vw_heads view @ concat (map (added_ids \<circ> snd) (vw_bookmarks view)) @ concat (map (added_ids \<circ> snd) (vw_tags view))"

text \<open>The views of a repository's operations and the commits they name.\<close>

fun operation_roots :: "('s, 't) jj_lib \<Rightarrow> string \<Rightarrow> operation_id list \<Rightarrow> ('s, string list \<times> string list) jj" where
  "operation_roots jl k [] = io_return ([], [])"
| "operation_roots jl k (i # ids) =
     (if i = jl_root_op jl then operation_roots jl k ids
      else io_bind (jj_read (jl_load_operation jl k i)) (\<lambda>operation.
        io_bind (jj_read (jl_operation_view jl operation)) (\<lambda>view.
        io_bind (operation_roots jl k ids) (\<lambda>(views, commits).
        io_return (jl_hex jl (op_view_id operation) # views, map (jl_hex jl) (view_commits view) @ commits)))))"

fun repository_roots :: "('s, 't) jj_lib \<Rightarrow> string list \<Rightarrow> ('s, string list \<times> string list) jj" where
  "repository_roots jl [] = io_return ([], [])"
| "repository_roots jl (k # ks) =
     io_bind (load_repo jl k) (\<lambda>_.
     io_bind (jj_db (jl_list_ops jl k)) (\<lambda>ids.
     io_bind (operation_roots jl k ids) (\<lambda>(views, commits).
     io_bind (repository_roots jl ks) (\<lambda>(views', commits').
     io_return (views @ views', commits @ commits')))))"

section \<open>Sweeping\<close>

fun sweep_objects :: "('s, 't) jj_lib \<Rightarrow> object_kind \<Rightarrow> string set \<Rightarrow> bytes list \<Rightarrow> ('s, nat) jj" where
  "sweep_objects jl kind keep [] = io_return 0"
| "sweep_objects jl kind keep (i # ids) =
     (if jl_hex jl i \<in> keep then sweep_objects jl kind keep ids
      else io_bind (jj_db_do (jl_delete_object jl kind i)) (\<lambda>_.
        io_bind (sweep_objects jl kind keep ids) (\<lambda>n. io_return (Suc n))))"

definition sweep :: "('s, 't) jj_lib \<Rightarrow> object_kind \<Rightarrow> string set \<Rightarrow> ('s, nat) jj" where
  "sweep jl kind keep = io_bind (jj_db (jl_list_objects jl kind)) (sweep_objects jl kind keep)"

definition gc :: "('s, 't) jj_lib \<Rightarrow> (string \<times> string) list \<Rightarrow> ('s, nat) jj" where
  "gc jl repos =
     io_bind (\<lambda>s. (map_err Stop (jl_gc_guard jl s), s)) (\<lambda>_.
     io_bind (jj_db (jl_list_repo_keys jl)) (\<lambda>keys.
     let repo_keys = remdups_adj (sort (keys @ map (\<lambda>(project, repo). jj_repo_key project repo) repos)) in
     io_bind (repository_roots jl repo_keys) (\<lambda>(views, commits).
     if repo_keys = [] then io_return 0
     else
       io_bind (jj_loop (\<lambda>s. mark_commits jl s (remdups commits) \<lparr>mk_commits = set commits, mk_trees = {}, mk_files = {}\<rparr>)) (\<lambda>m.
       io_bind (sweep jl KCommit (mk_commits m)) (\<lambda>swept_commits.
       io_bind (sweep jl KTree (mk_trees m)) (\<lambda>swept_trees.
       io_bind (sweep jl KFile (mk_files m)) (\<lambda>swept_files.
       io_bind (sweep jl KView (set views)) (\<lambda>swept_views.
       io_return (swept_commits + swept_trees + swept_files + swept_views)))))))))"

end
