(* ===== verification/Jj_Laws.thy ===== *)
theory Jj_Laws
  imports Jj_Gc
begin

text \<open>
  What the crate relies on in \<open>jj-lib\<close> and in the object database, as the locale \<open>jj_store\<close>: stored
  commits, trees and files stay as they are; a repository's operation log is a chain that grows only
  when a transaction is committed, by one operation that records exactly what the transaction asked for.
  Writers of one repository are serialised by its publication guard, so the log has one head.
\<close>

section \<open>Programs that respect a relation\<close>

definition obeys :: "('s \<Rightarrow> 's \<Rightarrow> bool) \<Rightarrow> ('s, 'e, 'a) prog \<Rightarrow> bool" where
  "obeys R m \<longleftrightarrow> (\<forall>s x t. m s = (x, t) \<longrightarrow> R s t)"

lemma obeysI: "(\<And>s x t. m s = (x, t) \<Longrightarrow> R s t) \<Longrightarrow> obeys R m"
  unfolding obeys_def by blast

lemma obeysD: "obeys R m \<Longrightarrow> m s = (x, t) \<Longrightarrow> R s t"
  unfolding obeys_def by blast

named_theorems jj_intros \<open>programs that respect a reflexive and transitive relation\<close>

locale step_relation =
  fixes R :: "'s \<Rightarrow> 's \<Rightarrow> bool"
  assumes step_refl: "R s s"
    and step_trans: "R s t \<Longrightarrow> R t u \<Longrightarrow> R s u"
begin

lemma obeys_pure [jj_intros]:
  "obeys R (io_return x)" "obeys R (io_fail e)" "obeys R (io_of r)" "obeys R (jj_fail d)"
  "obeys R (\<lambda>s. (f s, s))"
  by (auto intro!: obeysI simp: io_run jj_fail_def step_refl)

lemma obeys_reads [jj_intros]:
  "obeys R (jj_read f)" "obeys R (jj_db g)" "obeys R (jj_loop h)" "obeys R (publication_guard jl k)"
  by (auto intro!: obeysI simp: jj_read_def jj_db_def jj_loop_def publication_guard_def step_refl)

lemma obeys_bind [jj_intros]:
  assumes "obeys R m" and "\<And>x. obeys R (k x)"
  shows "obeys R (io_bind m k)"
proof (rule obeysI)
  fix s y t assume run: "io_bind m k s = (y, t)"
  obtain x u where m: "m s = (x, u)" by (meson surj_pair)
  note u = obeysD [OF assms(1) m]
  show "R s t"
  proof (cases x)
    case (Inl e)
    then show ?thesis using run m u by (simp add: io_bind_def)
  next
    case (Inr a)
    then have "k a u = (y, t)" using run m by (simp add: io_bind_def)
    then show ?thesis using obeysD [OF assms(2)] u step_trans by blast
  qed
qed

lemma obeys_map_err [jj_intros]: "obeys R m \<Longrightarrow> obeys R (io_map_err f m)"
  unfolding obeys_def io_map_err_def by (auto split: prod.splits)

lemma obeys_pub [jj_intros]: "obeys R m \<Longrightarrow> obeys R (pub m)"
  unfolding pub_def by (rule obeys_map_err)

lemma obeys_do:
  "(\<And>s x t. f s = (x, t) \<Longrightarrow> R s t) \<Longrightarrow> obeys R (jj_do f)"
  "(\<And>s x t. g s = (x, t) \<Longrightarrow> R s t) \<Longrightarrow> obeys R (jj_db_do g)"
  unfolding obeys_def jj_do_def jj_db_do_def by (auto split: prod.splits)

lemma obeys_prod [jj_intros]: "(\<And>a b. obeys R (f a b)) \<Longrightarrow> obeys R (case p of (a, b) \<Rightarrow> f a b)"
  by (cases p) simp

lemma obeys_option [jj_intros]:
  "obeys R m \<Longrightarrow> (\<And>x. obeys R (f x)) \<Longrightarrow> obeys R (case o' of None \<Rightarrow> m | Some x \<Rightarrow> f x)"
  by (cases o') simp_all

lemma obeys_if [jj_intros]:
  "obeys R m \<Longrightarrow> obeys R n \<Longrightarrow> obeys R (if b then m else n)"
  by simp

lemma obeys_Let [jj_intros]: "(\<And>x. obeys R (f x)) \<Longrightarrow> obeys R (let x = a in f x)"
  by simp

text \<open>The reading operations of the crate.\<close>

lemma obeys_retained_heads [jj_intros]: "obeys R (retained_heads jl k ids)"
  by (induction ids) (auto intro!: jj_intros)

lemma obeys_resolve [jj_intros]:
  "obeys R (validate_revision_in_repo jl k repo c)" "obeys R (resolve_ref jl k repo at)"
proof -
  show v: "obeys R (validate_revision_in_repo jl k repo c)" for c
    unfolding validate_revision_in_repo_def by (intro jj_intros)
  show "obeys R (resolve_ref jl k repo at)" by (cases at) (auto intro!: jj_intros v)
qed

lemma obeys_try_resolve [jj_intros]: "obeys R (try_resolve jl k repo at)"
proof (rule obeysI)
  fix s x t assume "try_resolve jl k repo at s = (x, t)"
  moreover obtain y u where "resolve_ref jl k repo at s = (y, u)" by (meson surj_pair)
  ultimately show "R s t" using obeysD [OF obeys_resolve(2)]
    by (auto simp: try_resolve_def split: sum.splits stop.splits jj_error.splits)
qed

lemma obeys_get [jj_intros]:
  "obeys R (get_commit jl c)" "obeys R (get_commit_option jl co)" "obeys R (resolve_bookmark jl k repo n)"
  unfolding get_commit_def get_commit_option_def resolve_bookmark_def by (intro jj_intros)+

lemma obeys_trees [jj_intros]:
  "obeys R (conflicted_decls jl tree)" "obeys R (list_schemas_in_tree jl tree)"
  "obeys R (conflicted_declaration_paths jl tree)" "obeys R (schema_tree_state jl tree schema)"
  "obeys R (delete_schema_from_tree jl tree schema)"
  by (auto intro!: obeysI simp: conflicted_decls_def list_schemas_in_tree_def conflicted_declaration_paths_def
      schema_tree_state_def delete_schema_from_tree_def step_refl)

lemma obeys_collect [jj_intros]: "obeys R (collect_entries jl prefix entries found objs)"
proof (induction entries arbitrary: found objs)
  case Nil
  show ?case by (auto intro: jj_intros)
next
  case (Cons e rest)
  then show ?case by (cases e) (auto intro!: jj_intros simp: Let_def split: option.splits tree_value.splits)
qed

lemma obeys_load_schema [jj_intros]: "obeys R (load_schema_from_tree jl tree schema)"
proof (rule obeysI)
  fix s x t assume "load_schema_from_tree jl tree schema s = (x, t)"
  then have "io_bind (collect_entries jl (schema @ ''/'') (jl_entries jl tree s) False empty_objects) (\<lambda>(found_schema, objs).
      if found_schema then io_return objs else jj_fail (JSchemaNotFound schema)) s = (x, t)"
    by (simp add: load_schema_from_tree_def)
  moreover have "obeys R (io_bind (collect_entries jl (schema @ ''/'') (jl_entries jl tree s) False empty_objects) (\<lambda>(found_schema, objs).
      if found_schema then io_return objs else jj_fail (JSchemaNotFound schema)))"
    by (intro jj_intros)
  ultimately show "R s t" by (rule obeysD [rotated])
qed

lemma obeys_names [jj_intros]: "obeys R (schema_names_of jl cs)"
  by (induction cs) (auto intro!: jj_intros)

end

section \<open>Stored content and operation logs\<close>

text \<open>
  \<open>keeps s t\<close>: what could be read in \<open>s\<close> reads the same in \<open>t\<close>; \<open>stored s T\<close> says that the objects of the
  tree \<open>T\<close> are in the store.
\<close>

definition keeps :: "('s, 't) jj_lib \<Rightarrow> ('s \<Rightarrow> 't \<Rightarrow> bool) \<Rightarrow> 's \<Rightarrow> 's \<Rightarrow> bool" where
  "keeps jl stored s t \<longleftrightarrow>
     (\<forall>c x. jl_get_commit jl c s = Inr x \<longrightarrow> jl_get_commit jl c t = Inr x)
     \<and> (\<forall>f b. jl_read_file jl f s = Inr b \<longrightarrow> jl_read_file jl f t = Inr b)
     \<and> (\<forall>i vs. jl_tree_values jl i s = Inr vs \<longrightarrow> jl_tree_values jl i t = Inr vs)
     \<and> (\<forall>T. stored s T \<longrightarrow> stored t T \<and> jl_entries jl T t = jl_entries jl T s \<and> jl_conflicts jl T t = jl_conflicts jl T s)"

text \<open>A repository's log, newest operation first, without the root operation; each operation with its view.\<close>

type_synonym op_log = "readonly_repo list"

abbreviation rd_id :: "readonly_repo \<Rightarrow> operation_id" where
  "rd_id r \<equiv> op_id (rd_op r)"

definition head_repo :: "readonly_repo \<Rightarrow> op_log \<Rightarrow> readonly_repo" where
  "head_repo root L = (case L of r # _ \<Rightarrow> r | [] \<Rightarrow> root)"

lemma head_repo_simps [simp]: "head_repo root [] = root" "head_repo root (r # L) = r"
  by (simp_all add: head_repo_def)

fun linked :: "readonly_repo \<Rightarrow> op_log \<Rightarrow> bool" where
  "linked root [] \<longleftrightarrow> True"
| "linked root (r # L) \<longleftrightarrow> op_parents (rd_op r) = [rd_id (head_repo root L)] \<and> rd_id r \<noteq> rd_id root \<and> rd_id r \<notin> rd_id ` set L
     \<and> linked root L"

text \<open>\<open>calm\<close>: nothing stored is lost and no operation is published.\<close>

definition calm ::
  "('s, 't) jj_lib \<Rightarrow> ('s \<Rightarrow> 't \<Rightarrow> bool) \<Rightarrow> ('s \<Rightarrow> bool) \<Rightarrow> ('s \<Rightarrow> string \<Rightarrow> op_log) \<Rightarrow> 's \<Rightarrow> 's \<Rightarrow> bool" where
  "calm jl stored ok log s t \<longleftrightarrow> (ok s \<longrightarrow> ok t \<and> keeps jl stored s t \<and> log t = log s)"

lemma keeps_refl [simp]: "keeps jl stored s s"
  by (simp add: keeps_def)

lemma keeps_trans: "keeps jl stored s t \<Longrightarrow> keeps jl stored t u \<Longrightarrow> keeps jl stored s u"
  unfolding keeps_def by (intro conjI) (blast, blast, blast, simp)

locale jj_store =
  fixes jl :: "('s, 't) jj_lib"
    and stored :: "'s \<Rightarrow> 't \<Rightarrow> bool"
    and ok :: "'s \<Rightarrow> bool"
    and log :: "'s \<Rightarrow> string \<Rightarrow> op_log"
    and root :: readonly_repo
  assumes hex: "jl_from_hex jl (jl_hex jl b) = Some b"
    and root_op: "rd_id root = jl_root_op jl" "op_parents (rd_op root) = []"
    and log_linked: "ok s \<Longrightarrow> linked root (log s k)"
    and load_operation: "ok s \<Longrightarrow> r \<in> insert root (set (log s k)) \<Longrightarrow> jl_load_operation jl k (rd_id r) s = Inr (rd_op r)"
    and load_at: "ok s \<Longrightarrow> r \<in> insert root (set (log s k)) \<Longrightarrow> jl_load_at jl k (rd_op r) s = Inr r"
    and commit_tree: "ok s \<Longrightarrow> jl_get_commit jl c s = Inr x \<Longrightarrow> cm_id x = c \<and> stored s (cm_tree x)"
    and loader: "jl_loader jl k s = (l, t) \<Longrightarrow> calm jl stored ok log s t"
    and seed: "jl_op_heads jl k s = Inr [] \<Longrightarrow>
      jl_create_ref jl k op_heads_ref (ascii_bytes (jl_hex jl (jl_root_op jl))) s = (y, t) \<Longrightarrow> calm jl stored ok log s t"
    and load_at_head: "ok s \<Longrightarrow> jl_load_at_head jl k s = (z, t) \<Longrightarrow>
      calm jl stored ok log s t \<and> (\<forall>r. z = Inr r \<longrightarrow> r = head_repo root (log s k))"
    and write_file: "jl_write_file jl bs s = (f, t) \<Longrightarrow> calm jl stored ok log s t"
    and write_tree: "jl_write_tree jl base entries s = (T, t) \<Longrightarrow> calm jl stored ok log s t"
    and merge_trees: "jl_merge_trees jl ours base theirs s = (T, t) \<Longrightarrow> calm jl stored ok log s t"
    and merge_commit_trees: "jl_merge_commit_trees jl repo cs s = (T, t) \<Longrightarrow> calm jl stored ok log s t"
    and tree_stored: "stored s (jl_empty_tree jl)"
      "ok s \<Longrightarrow> stored s base \<Longrightarrow> jl_write_tree jl base entries s = (Inr tree, t) \<Longrightarrow> stored t tree"
      "ok s \<Longrightarrow> stored s ours \<Longrightarrow> stored s base \<Longrightarrow> stored s theirs \<Longrightarrow>
        jl_merge_trees jl ours base theirs s = (Inr tree, t) \<Longrightarrow> stored t tree"
      "ok s \<Longrightarrow> \<forall>x \<in> set cs. stored s (cm_tree x) \<Longrightarrow> jl_merge_commit_trees jl repo cs s = (Inr tree, t) \<Longrightarrow> stored t tree"
    and new_commit: "jl_new_commit jl parents tree sig message s = (d, t) \<Longrightarrow> calm jl stored ok log s t"
    and new_commit_stored: "ok s \<Longrightarrow> jl_new_commit jl parents tree sig message s = (Inr x, t) \<Longrightarrow>
      jl_get_commit jl (cm_id x) t = Inr x \<and> cm_tree x = tree \<and> cm_parents x = parents \<and> cm_author x = sg_name sig
        \<and> cm_author_time x = sg_timestamp sig \<and> cm_description x = message"
    and set_bookmark: "get_local_bookmark (jl_set_bookmark jl n target v) m = (if m = n then target else get_local_bookmark v m)"
      "vw_tags (jl_set_bookmark jl n target v) = vw_tags v"
    and set_tag: "get_local_tag (jl_set_tag jl n target v) m = (if m = n then target else get_local_tag v m)"
      "vw_bookmarks (jl_set_tag jl n target v) = vw_bookmarks v"
    and add_head: "jl_add_head jl x v s = Inr v' \<Longrightarrow> vw_bookmarks v' = vw_bookmarks v \<and> vw_tags v' = vw_tags v"
    and commit_tx: "ok s \<Longrightarrow> tx_base tx = head_repo root (log s k) \<Longrightarrow> jl_commit_tx jl k tx description s = (Inr r, t) \<Longrightarrow>
      ok t \<and> keeps jl stored s t \<and> log t = (log s)(k := r # log s k)
        \<and> op_description (rd_op r) = description \<and> op_attributes (rd_op r) = tx_attributes tx \<and> rd_view r = tx_view tx"
    and commit_tx_failed: "ok s \<Longrightarrow> jl_commit_tx jl k tx description s = (Inl e, t) \<Longrightarrow> ok t \<and> keeps jl stored s t"

sublocale jj_store \<subseteq> step_relation "calm jl stored ok log"
  by unfold_locales (auto simp: calm_def intro: keeps_trans)

context jj_store
begin

text \<open>Opening a repository yields the head of its log.\<close>

lemma calm_load_at_head: "jl_load_at_head jl k s = (z, t) \<Longrightarrow> calm jl stored ok log s t"
  using load_at_head unfolding calm_def by blast

lemma jj_do_run: "jj_do f s = (x, t) \<Longrightarrow> \<exists>z. f s = (z, t) \<and> (\<forall>r. x = Inr r \<longrightarrow> z = Inr r)"
  by (auto simp: jj_do_def map_jj_def map_err_Inr split: prod.splits)

lemma load_repo_cases:
  assumes "load_repo jl k s = (x, t)"
  obtains u where "calm jl stored ok log s u"
    "(\<exists>e. x = Inl e) \<and> u = t \<or> (\<exists>z. jl_load_at_head jl k u = (z, t) \<and> (\<forall>r. x = Inr r \<longrightarrow> z = Inr r))"
proof -
  obtain l s1 where l: "jl_loader jl k s = (l, s1)" by (meson surj_pair)
  note c1 = loader [OF l]
  have "(\<exists>e. l = Inl e) \<or> (\<exists>e. l = Inr () \<and> jl_op_heads jl k s1 = Inl e) \<or> l = Inr () \<and> jl_op_heads jl k s1 = Inr []
      \<or> (\<exists>h hs. l = Inr () \<and> jl_op_heads jl k s1 = Inr (h # hs))"
    by (cases l; cases "jl_op_heads jl k s1"; simp) (metis neq_Nil_conv)
  then consider e where "l = Inl e" | e where "l = Inr ()" "jl_op_heads jl k s1 = Inl e" | "l = Inr ()" "jl_op_heads jl k s1 = Inr []"
    | h hs where "l = Inr ()" "jl_op_heads jl k s1 = Inr (h # hs)"
    by blast
  then show thesis
  proof cases
    case 1
    then have "load_repo jl k s = (Inl (Stop e), s1)" by (simp add: load_repo_def io_bind_def l)
    then show thesis using that [OF c1] assms by (metis Pair_inject)
  next
    case 2
    then have "load_repo jl k s = (Inl (Stop (JOther e)), s1)" by (simp add: load_repo_def io_bind_def l jj_read_def map_jj_def)
    then show thesis using that [OF c1] assms by (metis Pair_inject)
  next
    case 3
    obtain y s2 where y: "jl_create_ref jl k op_heads_ref (ascii_bytes (jl_hex jl (jl_root_op jl))) s1 = (y, s2)" by (meson surj_pair)
    have c2: "calm jl stored ok log s s2" using step_trans [OF c1 seed [OF 3(2) y]] .
    have "load_repo jl k s = (case y of Inl e \<Rightarrow> (Inl (Stop (jj_of_db e)), s2) | Inr _ \<Rightarrow> jj_do (jl_load_at_head jl k) s2)"
      using 3 by (cases y) (simp_all add: load_repo_def io_bind_def l y jj_read_def map_jj_def jj_db_do_def)
    then consider e where "(x, t) = (Inl (Stop (jj_of_db e)), s2)" | "jj_do (jl_load_at_head jl k) s2 = (x, t)"
      using assms by (cases y) simp_all
    then show thesis using that [OF c2] jj_do_run [of "jl_load_at_head jl k" s2 x t] by cases blast+
  next
    case 4
    then have "load_repo jl k s = jj_do (jl_load_at_head jl k) s1"
      by (simp add: load_repo_def io_bind_def l jj_read_def map_jj_def io_return_def)
    then have "jj_do (jl_load_at_head jl k) s1 = (x, t)" using assms by simp
    then show thesis using that [OF c1] jj_do_run [of "jl_load_at_head jl k" s1 x t] by blast
  qed
qed

lemma calm_load_repo [jj_intros]: "obeys (calm jl stored ok log) (load_repo jl k)"
proof (rule obeysI)
  fix s x t assume "load_repo jl k s = (x, t)"
  then obtain u where u: "calm jl stored ok log s u"
      "(\<exists>e. x = Inl e) \<and> u = t \<or> (\<exists>z. jl_load_at_head jl k u = (z, t) \<and> (\<forall>r. x = Inr r \<longrightarrow> z = Inr r))"
    by (rule load_repo_cases)
  from u(2) show "calm jl stored ok log s t"
  proof (elim disjE exE conjE)
    fix z assume "jl_load_at_head jl k u = (z, t)"
    from step_trans [OF u(1) calm_load_at_head [OF this]] show ?thesis .
  qed (use u(1) in simp)
qed

lemma load_repo_head:
  assumes "ok s" and "load_repo jl k s = (Inr r, t)"
  shows "r = head_repo root (log s k)" and "ok t" and "keeps jl stored s t" and "log t = log s"
proof -
  obtain u where u: "calm jl stored ok log s u" "jl_load_at_head jl k u = (Inr r, t)"
    by (rule load_repo_cases [OF assms(2)]) auto
  then show "r = head_repo root (log s k)" using load_at_head [of u k "Inr r" t] assms(1) unfolding calm_def by auto
  show "ok t" "keeps jl stored s t" "log t = log s"
    using obeysD [OF calm_load_repo assms(2)] assms(1) unfolding calm_def by blast+
qed

lemma calm_writes [jj_intros]:
  "obeys (calm jl stored ok log) (jj_do (jl_write_file jl bs))" "obeys (calm jl stored ok log) (jj_do (jl_write_tree jl base entries))"
  "obeys (calm jl stored ok log) (jj_do (jl_merge_commit_trees jl repo cs))" "obeys (calm jl stored ok log) (merge_trees jl co theirs ours)"
  "obeys (calm jl stored ok log) (jj_do (jl_new_commit jl parents tree sig message))"
  unfolding merge_trees_def by (rule obeys_do(1), erule write_file write_tree merge_commit_trees merge_trees new_commit)+

lemma calm_apply [jj_intros]:
  "obeys (calm jl stored ok log) (upsert_files jl schema files)" "obeys (calm jl stored ok log) (apply_effect jl schema eff)"
  "obeys (calm jl stored ok log) (apply_writes jl tree writes)"
  "obeys (calm jl stored ok log) (final_tree_and_parents jl b bc tip w)"
proof -
  show u: "obeys (calm jl stored ok log) (upsert_files jl schema files)" for schema files
    by (induction files) (auto intro!: jj_intros)
  have e: "obeys (calm jl stored ok log) (apply_effect jl schema eff)" for schema eff
    unfolding apply_effect_def by (intro jj_intros u)
  then show "obeys (calm jl stored ok log) (apply_effect jl schema eff)" .
  show "obeys (calm jl stored ok log) (apply_writes jl tree writes)"
    by (induction writes) (auto intro!: jj_intros e split: schema_write.splits)
  show "obeys (calm jl stored ok log) (final_tree_and_parents jl b bc tip w)"
    unfolding final_tree_and_parents_def by (cases tip) (auto intro!: jj_intros)
qed

end

end
