(* ===== verification/Jj_Publication.thy ===== *)
theory Jj_Publication
  imports Jj_Laws
begin

text \<open>
  What a publication does to a repository: it either leaves the operation log alone or adds exactly one operation,
  whose commit has the tree that the policy accepted.
\<close>

section \<open>Runs of publications\<close>

text \<open>From \<open>s\<close> to \<open>t\<close> exactly the operation \<open>r\<close> has been added, in repository \<open>k\<close>.\<close>

definition publishes ::
  "('s, 't) jj_lib \<Rightarrow> ('s \<Rightarrow> 't \<Rightarrow> bool) \<Rightarrow> ('s \<Rightarrow> bool) \<Rightarrow> ('s \<Rightarrow> string \<Rightarrow> op_log) \<Rightarrow> string \<Rightarrow> readonly_repo \<Rightarrow> 's \<Rightarrow> 's \<Rightarrow> bool" where
  "publishes jl stored ok log k r s t \<longleftrightarrow> ok t \<and> keeps jl stored s t \<and> log t = (log s)(k := r # log s k)"

text \<open>The receipt \<open>w\<close> describes the commit \<open>c\<close> and the operation \<open>r\<close>.\<close>

definition describes :: "('s, 't) jj_lib \<Rightarrow> 's \<Rightarrow> write_result \<Rightarrow> 't commit \<Rightarrow> readonly_repo \<Rightarrow> bool" where
  "describes jl t w c r \<longleftrightarrow> jl_get_commit jl (cm_id c) t = Inr c \<and> conflicted_decls jl (cm_tree c) t = (Inr (wr_conflicted_decls w), t)
     \<and> wr_commit_id w = jl_hex jl (cm_id c) \<and> wr_change_id w = jl_reverse_hex jl (cm_change_id c) \<and> wr_operation_id w = jl_hex jl (rd_id r)"

text \<open>The view of \<open>r\<close> is that of the previous head, but for the bookmark \<open>bookmark\<close>, which points to commit \<open>c\<close>.\<close>

definition moves_bookmark :: "view \<Rightarrow> string \<Rightarrow> commit_id \<Rightarrow> view \<Rightarrow> bool" where
  "moves_bookmark v bookmark c v' \<longleftrightarrow> vw_tags v' = vw_tags v
     \<and> (\<forall>m. get_local_bookmark v' m = (if m = bookmark then mg_normal c else get_local_bookmark v m))"

lemma io_InrE:
  assumes "io_bind m k s = (Inr y, t)"
  obtains x u where "m s = (Inr x, u)" "k x u = (Inr y, t)"
  using assms by (auto simp: io_bind_Inr)

lemma case_prod_runE:
  assumes "(case p of (a, b) \<Rightarrow> f a b) s = r"
  obtains a b where "p = (a, b)" "f a b s = r"
  using assms by (cases p) auto

lemma pub_run [result_simps]:
  "pub m s = (Inr x, t) \<longleftrightarrow> m s = (Inr x, t)"
  "pub m s = (Inl e, t) \<longleftrightarrow> (\<exists>d. m s = (Inl d, t) \<and> e = map_stop PuJj d)"
  by (simp_all add: pub_def io_map_err_iff)

lemma run_policy_run [result_simps]:
  "run_policy validate sn s = (Inr x, t) \<longleftrightarrow> validate sn s = (Inr x, t)"
  "run_policy validate sn s = (Inl e, t) \<longleftrightarrow> (\<exists>d. validate sn s = (Inl d, t) \<and> e = map_stop PuRejected d)"
  by (simp_all add: run_policy_def io_map_err_iff)

lemma jj_run [result_simps]:
  "jj_do f s = (Inr x, t) \<longleftrightarrow> f s = (Inr x, t)" "jj_read g s = (Inr y, t) \<longleftrightarrow> g s = Inr y \<and> t = s"
  "jj_do f s = (Inl e, t) \<longleftrightarrow> (\<exists>d. f s = (Inl d, t) \<and> e = Stop (JOther d))"
  "jj_read g s = (Inl e, t) \<longleftrightarrow> (\<exists>d. g s = Inl d \<and> e = Stop (JOther d) \<and> t = s)"
  by (auto simp: jj_do_def jj_read_def map_jj_def map_err_Inr map_err_Inl split: prod.splits)

text \<open>A publication prepares its tree, shows it to the policy and publishes it.\<close>

lemma validated_cases:
  assumes "io_bind (pub prep) (\<lambda>p. io_bind (run_policy validate (snap p)) (\<lambda>_. pub (publ p))) s = (x, t)"
  obtains (prepare) d where "prep s = (Inl d, t)" "x = Inl (map_stop PuJj d)"
    | (policy) p s1 d where "prep s = (Inr p, s1)" "validate (snap p) s1 = (Inl d, t)" "x = Inl (map_stop PuRejected d)"
    | (publish) p s1 s2 y where "prep s = (Inr p, s1)" "validate (snap p) s1 = (Inr (), s2)" "publ p s2 = (y, t)"
        "x = map_err (map_stop PuJj) y"
proof (cases x)
  case (Inl e)
  then show thesis using assms that by (auto simp: io_bind_Inl pub_run run_policy_run)
next
  case (Inr w)
  then show thesis using assms that(3) by (auto simp: io_bind_Inr pub_run run_policy_run map_err_Inr)
qed

lemma map_stop_not_rejected [simp]: "map_stop PuJj d \<noteq> Stop (PuRejected e)"
  by (cases d) simp_all

lemma conflicted_decls_keeps:
  assumes "keeps jl stored s t" "stored s T" "conflicted_decls jl T s = (Inr x, s)"
  shows "conflicted_decls jl T t = (Inr x, t)"
  using assms by (auto simp: conflicted_decls_def keeps_def)

lemma set_attributes_view [simp]:
  "tx_view (set_attributes attributes tx) = tx_view tx" "tx_base (set_attributes attributes tx) = tx_base tx"
  "tx_view (record_author author tx) = tx_view tx" "tx_base (record_author author tx) = tx_base tx"
  "tx_view (start_transaction r) = rd_view r" "tx_base (start_transaction r) = r"
proof -
  show "tx_view (set_attributes attributes tx) = tx_view tx" "tx_base (set_attributes attributes tx) = tx_base tx"
    unfolding set_attributes_def by (induction attributes arbitrary: tx) (auto simp: set_attribute_def)
qed (simp_all add: record_author_def set_attribute_def start_transaction_def)

text \<open>The attributes of the published operation: the requested ones, and the author unless they name it.\<close>

lemma set_attributes_get:
  assumes "bt_ok attributes" "key \<noteq> []"
  shows "bt_get (tx_attributes (set_attributes attributes tx)) key
     = (case bt_get attributes key of Some v \<Rightarrow> Some v | None \<Rightarrow> bt_get (tx_attributes tx) key)"
  using assms(1)
proof (induction attributes arbitrary: tx)
  case Nil
  then show ?case by (simp add: set_attributes_def)
next
  case (Cons kv m)
  obtain k v where kv: "kv = (k, v)" by fastforce
  have step: "set_attributes (kv # m) tx = set_attributes m (if k \<noteq> [] then set_attribute k v tx else tx)"
    by (simp add: set_attributes_def kv)
  have "key = k \<Longrightarrow> bt_get m key = None" using Cons.prems kv by (auto simp: map_of_eq_None_iff)
  then show ?case unfolding step using Cons.IH Cons.prems assms(2) kv by (auto simp: set_attribute_def split: option.splits)
qed

context jj_store
begin

lemma calmD:
  assumes "calm jl stored ok log s t" and "ok s"
  shows "ok t" "keeps jl stored s t" "log t = log s"
  using assms unfolding calm_def by blast+

lemma keeps_stored: "keeps jl stored s t \<Longrightarrow> stored s T \<Longrightarrow> stored t T"
  unfolding keeps_def by blast

lemma get_commit_stored: "ok s \<Longrightarrow> get_commit jl c s = (Inr x, t) \<Longrightarrow> stored s (cm_tree x) \<and> cm_id x = c \<and> t = s"
  using commit_tree [of s c x] by (auto simp: get_commit_def jj_run map_err_Inr)

lemma base_tree_stored:
  assumes "ok s" "get_commit_option jl b s = (Inr bc, t)"
  shows "stored s (tree_or_empty jl bc)" "t = s"
  using assms tree_stored(1) get_commit_stored
  by (auto simp: get_commit_option_def tree_or_empty_def io_bind_Inr io_run split: option.splits)

lemma final_tree_stored:
  assumes ok: "ok s" and "stored s (tree_or_empty jl bc)" "stored s w"
    and run: "final_tree_and_parents jl b bc tip w s = (Inr (T, parents), t)"
  shows "stored t T"
proof -
  consider "T = w" "t = s" | c x where "get_commit jl c s = (Inr x, s)" "jl_merge_trees jl w (tree_or_empty jl bc) (cm_tree x) s = (Inr T, t)"
    using run get_commit_stored [OF ok]
    by (auto simp: final_tree_and_parents_def merge_trees_def result_simps io_return_def split: option.splits if_splits) blast+
  then show ?thesis
  proof cases
    case 1
    then show ?thesis using assms(3) by simp
  next
    case 2
    then show ?thesis using tree_stored(3) [OF ok assms(3,2)] get_commit_stored [OF ok 2(1)] by blast
  qed
qed

lemma tree_reads_same: "conflicted_decls jl T s = (x, t) \<Longrightarrow> t = s"
  by (auto simp: conflicted_decls_def)

lemma list_schemas_same: "list_schemas_in_tree jl T s = (x, t) \<Longrightarrow> t = s"
  by (auto simp: list_schemas_in_tree_def)

text \<open>The proposed tree is stored, with the conflicts that were reported, and nothing has been published.\<close>

lemma calm_prepare [jj_intros]:
  "obeys (calm jl stored ok log) (prepare_changes jl k bookmark base_ref writes author)"
  "obeys (calm jl stored ok log) (prepare_merge jl k src dst)"
  unfolding prepare_changes_def prepare_merge_def by (intro jj_intros)+

lemma prepare_changes_result:
  assumes ok: "ok s" and run: "prepare_changes jl k bookmark base_ref writes author s = (Inr (repo, sg, T, parents, conflicted, known), t)"
  shows "repo = head_repo root (log s k)" and "stored t T" and "conflicted_decls jl T t = (Inr conflicted, t)"
proof -
  obtain g s1 b tip s2 s3 bc s4 es s5 w s6 s7 where steps:
      "publication_guard jl k s = (Inr g, s1)" "load_repo jl k s1 = (Inr repo, s2)" "try_resolve jl k repo base_ref s2 = (Inr b, s3)"
      "try_resolve jl k repo (RefBookmark bookmark) s3 = (Inr tip, s4)" "get_commit_option jl b s4 = (Inr bc, s5)"
      "apply_writes jl (tree_or_empty jl bc) writes s5 = (Inr es, s6)" "jl_write_tree jl (tree_or_empty jl bc) es s6 = (Inr w, s7)"
      "final_tree_and_parents jl b bc tip w s7 = (Inr (T, parents), t)" "conflicted_decls jl T t = (Inr conflicted, t)"
    using run unfolding prepare_changes_def Let_def
    by (elim io_InrE case_prod_runE) (drule list_schemas_same, drule list_schemas_same, frule tree_reads_same, clarsimp simp: io_run jj_run)
  have s1: "s1 = s" using steps(1) by (simp add: publication_guard_def)
  note c2 = obeysD [OF calm_load_repo steps(2)]
  note c3 = step_trans [OF c2 obeysD [OF obeys_try_resolve steps(3)]]
  note c4 = step_trans [OF c3 obeysD [OF obeys_try_resolve steps(4)]]
  note c5 = step_trans [OF c4 obeysD [OF obeys_get(2) steps(5)]]
  note c6 = obeysD [OF calm_apply(3) steps(6)]
  note ok5 = calmD(1) [OF c5 [unfolded s1] ok]
  have base: "stored s5 (tree_or_empty jl bc)"
    using base_tree_stored [OF calmD(1) [OF c4 [unfolded s1] ok] steps(5)] by simp
  have ok6: "ok s6" and base6: "stored s6 (tree_or_empty jl bc)"
    using calmD [OF c6 ok5] keeps_stored base by blast+
  note c7 = write_tree [OF steps(7)]
  have "stored s7 w" "stored s7 (tree_or_empty jl bc)" "ok s7"
    using tree_stored(2) [OF ok6 base6 steps(7)] calmD [OF c7 ok6] keeps_stored base6 by blast+
  then show "stored t T" using final_tree_stored steps(8) by blast
  show "repo = head_repo root (log s k)" using load_repo_head(1) [OF ok] steps(2) s1 by simp
  show "conflicted_decls jl T t = (Inr conflicted, t)" by (rule steps(9))
qed

lemma get_bookmark_same: "vw_bookmarks v = vw_bookmarks v' \<Longrightarrow> get_local_bookmark v m = get_local_bookmark v' m"
  by (simp add: get_local_bookmark_def)

lemma publish_commit_result:
  assumes ok: "ok s" and base: "tx_base tx = head_repo root (log s k)"
    and run: "publish_commit jl k tx bookmark parents tree sg message description conflicted s = (Inr w, t)"
  shows "\<exists>c r. publishes jl stored ok log k r s t \<and> moves_bookmark (tx_view tx) bookmark (cm_id c) (rd_view r)
    \<and> op_description (rd_op r) = description \<and> op_attributes (rd_op r) = tx_attributes tx
    \<and> jl_get_commit jl (cm_id c) t = Inr c \<and> cm_tree c = tree \<and> cm_parents c = parents \<and> cm_description c = message
    \<and> cm_author c = sg_name sg
    \<and> w = \<lparr>wr_commit_id = jl_hex jl (cm_id c), wr_change_id = jl_reverse_hex jl (cm_change_id c),
        wr_operation_id = jl_hex jl (rd_id r), wr_conflicted_decls = conflicted\<rparr>"
proof -
  obtain c s1 v r where steps: "jl_new_commit jl parents tree sg message s = (Inr c, s1)"
      "jl_add_head jl c (jl_set_bookmark jl bookmark (mg_normal (cm_id c)) (tx_view tx)) s1 = Inr v"
      "jl_commit_tx jl k (tx\<lparr>tx_view := v\<rparr>) description s1 = (Inr r, t)"
      and w: "w = \<lparr>wr_commit_id = jl_hex jl (cm_id c), wr_change_id = jl_reverse_hex jl (cm_change_id c),
        wr_operation_id = jl_hex jl (rd_id r), wr_conflicted_decls = conflicted\<rparr>"
    using run unfolding publish_commit_def commit_tx_def set_bookmark_in_tx_def Let_def
    by (elim io_InrE) (clarsimp simp: io_run jj_run)
  note c1 = calmD [OF new_commit [OF steps(1)] ok]
  note new = new_commit_stored [OF ok steps(1)]
  have tx: "ok t \<and> keeps jl stored s1 t \<and> log t = (log s1)(k := r # log s1 k) \<and> op_description (rd_op r) = description
      \<and> op_attributes (rd_op r) = tx_attributes tx \<and> rd_view r = v"
    using commit_tx [OF c1(1) _ steps(3)] base c1(3) by simp
  have "publishes jl stored ok log k r s t"
    unfolding publishes_def using tx c1(3) keeps_trans [OF c1(2)] by simp
  moreover have "moves_bookmark (tx_view tx) bookmark (cm_id c) v"
    unfolding moves_bookmark_def using add_head [OF steps(2)] set_bookmark get_bookmark_same by metis
  moreover have "jl_get_commit jl (cm_id c) t = Inr c" using new tx unfolding keeps_def by blast
  ultimately show ?thesis using tx new w by blast
qed

lemma publish_commit_keeps:
  assumes ok: "ok s" and base: "tx_base tx = head_repo root (log s k)"
    and run: "publish_commit jl k tx bookmark parents tree sg message description conflicted s = (x, t)"
  shows "ok t \<and> keeps jl stored s t"
proof (cases x)
  case (Inr w)
  then show ?thesis using publish_commit_result [OF ok base, of bookmark parents tree sg message description conflicted w t] run
    unfolding publishes_def by blast
next
  case (Inl e)
  obtain y s1 where y: "jl_new_commit jl parents tree sg message s = (y, s1)" by (meson surj_pair)
  note c1 = calmD [OF new_commit [OF y] ok]
  have "t = s1 \<or> (\<exists>tx' d. jl_commit_tx jl k tx' description s1 = (Inl d, t))"
    using run y Inl unfolding publish_commit_def commit_tx_def Let_def
    by (auto simp: io_bind_Inl io_run jj_run)
  then show ?thesis
  proof
    assume "\<exists>tx' d. jl_commit_tx jl k tx' description s1 = (Inl d, t)"
    then show ?thesis using commit_tx_failed [OF c1(1)] keeps_trans [OF c1(2)] by blast
  qed (use c1 in simp)
qed

text \<open>
  A publication that the policy refuses leaves every log as it was; one that succeeds adds one operation, and the commit it
  points to has the tree that the policy accepted.
\<close>

lemma commit_changes_keeps:
  assumes ok: "ok s" and policy: "\<And>sn. obeys (calm jl stored ok log) (validate sn)"
    and run: "commit_schema_changes_validated jl project repo bookmark base_ref writes author message attributes validate s = (x, t)"
  shows "ok t \<and> keeps jl stored s t \<and> (x = Inl (Stop (PuRejected e)) \<longrightarrow> log t = log s)"
  using run unfolding commit_schema_changes_validated_def Let_def case_prod_unfold
proof (cases rule: validated_cases)
  case (prepare d)
  then show ?thesis using calmD [OF obeysD [OF calm_prepare(1) prepare(1)] ok] by simp
next
  case (policy p s1 d)
  note c1 = obeysD [OF calm_prepare(1) policy(1)]
  show ?thesis using calmD [OF step_trans [OF c1 obeysD [OF assms(2) policy(2)]] ok] by simp
next
  case (publish p s1 s2 y)
  note c1 = obeysD [OF calm_prepare(1) publish(1)]
  note c2 = calmD [OF step_trans [OF c1 obeysD [OF assms(2) publish(2)]] ok]
  have "fst p = head_repo root (log s2 (jj_repo_key project repo))"
    using prepare_changes_result(1) [OF ok, of "jj_repo_key project repo"] publish(1) c2(3) by (metis prod.collapse)
  then have "ok t \<and> keeps jl stored s2 t" using publish_commit_keeps [OF c2(1) _ publish(3)] by simp
  moreover have "x \<noteq> Inl (Stop (PuRejected e))" using publish(4) by (auto simp: map_err_Inl dest: sym)
  ultimately show ?thesis using keeps_trans [OF c2(2)] by blast
qed

lemma commit_changes_result:
  assumes ok: "ok s" and policy: "\<And>sn. obeys (calm jl stored ok log) (validate sn)"
    and run: "commit_schema_changes_validated jl project repo bookmark base_ref writes author message attributes validate s = (Inr w, t)"
  defines "k \<equiv> jj_repo_key project repo"
  shows "\<exists>c r sn u v. publishes jl stored ok log k r s t \<and> describes jl t w c r
      \<and> moves_bookmark (rd_view (head_repo root (log s k))) bookmark (cm_id c) (rd_view r)
      \<and> op_description (rd_op r) = ''commit_write '' @ bookmark @ '': '' @ message
      \<and> op_attributes (rd_op r) = tx_attributes (set_attributes attributes (record_author author (start_transaction (head_repo root (log s k)))))
      \<and> cm_description c = message \<and> validate sn u = (Inr (), v) \<and> sn_final_tree sn = cm_tree c"
  using run unfolding commit_schema_changes_validated_def Let_def case_prod_unfold
proof (cases rule: validated_cases)
  case (publish p s1 s2 y)
  obtain jj_repo sg T parents conflicted known where p: "p = (jj_repo, sg, T, parents, conflicted, known)" by (rule prod_cases6)
  note prep = publish(1) [unfolded p, folded k_def]
  note c1 = obeysD [OF calm_prepare(1) prep]
  note c2 = calmD [OF step_trans [OF c1 obeysD [OF policy publish(2)]] ok]
  note P = prepare_changes_result [OF ok prep]
  note k2 = calmD(2) [OF obeysD [OF policy publish(2)] calmD(1) [OF c1 ok]]
  note T = keeps_stored [OF k2 P(2)] conflicted_decls_keeps [OF k2 P(2,3)]
  have y: "y = Inr w" using publish(4) by (cases y) simp_all
  have head: "jj_repo = head_repo root (log s2 k)" using P(1) c2(3) by simp
  let ?tx = "set_attributes attributes (record_author author (start_transaction jj_repo))"
  have "publish_commit jl k ?tx bookmark parents T sg message (''commit_write '' @ bookmark @ '': '' @ message) conflicted s2 = (Inr w, t)"
    using publish(3) y by (simp add: p k_def)
  note result = publish_commit_result [OF c2(1) _ this, unfolded set_attributes_view, OF head]
  then obtain c r where r: "publishes jl stored ok log k r s2 t"
      "moves_bookmark (rd_view jj_repo) bookmark (cm_id c) (rd_view r)"
      "op_description (rd_op r) = ''commit_write '' @ bookmark @ '': '' @ message" "op_attributes (rd_op r) = tx_attributes ?tx"
      "jl_get_commit jl (cm_id c) t = Inr c" "cm_tree c = T" "cm_description c = message"
      "w = \<lparr>wr_commit_id = jl_hex jl (cm_id c), wr_change_id = jl_reverse_hex jl (cm_change_id c),
        wr_operation_id = jl_hex jl (rd_id r), wr_conflicted_decls = conflicted\<rparr>"
    by blast
  have "publishes jl stored ok log k r s t" using r(1) c2(3) keeps_trans [OF c2(2)] unfolding publishes_def by simp
  moreover have "describes jl t w c r"
    using r(5,6,8) conflicted_decls_keeps [where stored = stored and s = s2 and t = t, OF _ T] r(1)
    unfolding describes_def publishes_def by simp
  moreover have "validate \<lparr>sn_final_tree = T, sn_known_schema_names = known, sn_bookmark_target_conflicted = False\<rparr> s1 = (Inr (), s2)"
    using publish(2) by (simp add: p)
  moreover have "sn_final_tree \<lparr>sn_final_tree = T, sn_known_schema_names = known, sn_bookmark_target_conflicted = False\<rparr> = cm_tree c"
    using r(6) by simp
  ultimately show ?thesis using r(2,3,4,7) unfolding P(1) by blast
qed auto

end

end
