(* ===== verification/Jj_History.thy ===== *)
theory Jj_History
  imports Jj_Publication
begin

text \<open>
  The operation log as the crate reads it: every walk over it ends and visits exactly the log, a published
  write can be recovered from the attributes of its operation, and undo restores older views.
\<close>

section \<open>Walks over the log\<close>

abbreviation log_records :: "('s, 't) jj_lib \<Rightarrow> op_log \<Rightarrow> op_record list" where
  "log_records jl L \<equiv> map (\<lambda>r. operation_record jl (rd_op r)) L"

abbreviation content_log :: "op_log \<Rightarrow> op_log" where
  "content_log L \<equiv> filter (\<lambda>r. \<not> is_undo (rd_op r)) L"

text \<open>The operation has the attributes \<open>required\<close>.\<close>

abbreviation carries :: "(string, string) btree \<Rightarrow> readonly_repo \<Rightarrow> bool" where
  "carries required r \<equiv> list_all (\<lambda>(key, v). bt_get (op_attributes (rd_op r)) key = Some v) required"

fun undo_times ::
  "('s, 't) jj_lib \<Rightarrow> string \<Rightarrow> string \<Rightarrow> string \<Rightarrow> (string \<Rightarrow> ('s, 't, 'e) policy) \<Rightarrow> nat \<Rightarrow> ('s, 'e, unit) publication" where
  "undo_times jl project repo author validate 0 = io_return ()"
| "undo_times jl project repo author validate (Suc n) =
     io_bind (undo_validated jl project repo author validate) (\<lambda>_. undo_times jl project repo author validate n)"

lemma find_unique:
  assumes "x \<in> set xs" "P x" and unique: "\<forall>y \<in> set xs. P y \<longrightarrow> y = x"
  shows "find P xs = Some x"
proof -
  have "find P xs \<noteq> None" unfolding find_None_iff using assms(1,2) by blast
  then obtain y where y: "find P xs = Some y" by blast
  then have "y \<in> set xs" "P y" by (auto simp: find_Some_iff)
  then show ?thesis using y unique by blast
qed

context jj_store
begin

lemma linked_ids: "linked root L \<Longrightarrow> r \<in> set L \<Longrightarrow> rd_id r \<noteq> jl_root_op jl"
  by (induction L) (auto simp: root_op)

lemma linked_distinct: "linked root L \<Longrightarrow> distinct (map rd_id L)"
  by (induction L) auto

lemma load_parent:
  assumes "ok s" "linked root (r # L)" "set (r # L) \<subseteq> set (log s k)"
  shows "load_operations jl k (op_parents (rd_op r)) s = Inr (if L = [] then [] else [rd_op (hd L)])"
  using assms load_operation [OF assms(1), of "hd L" k] linked_ids [of L "hd L"]
  by (cases L) (auto simp: root_op map_jj_def)

lemma operations_walk_simps [simp]:
  "operations_walk jl k s [] seen chain = Some (Inr chain)"
  "operations_walk jl k s [rd_op root] seen chain = Some (Inr chain)"
proof -
  show nil: "operations_walk jl k s [] seen chain = Some (Inr chain)" by (subst operations_walk.simps) simp
  show "operations_walk jl k s [rd_op root] seen chain = Some (Inr chain)"
    by (subst operations_walk.simps) (simp add: root_op nil)
qed

lemma operations_walk_log:
  assumes ok: "ok s" and L: "linked root L" "set L \<subseteq> set (log s k)" and seen: "seen \<inter> rd_id ` set L = {}"
  shows "operations_walk jl k s [rd_op (head_repo root L)] seen chain = Some (Inr (chain @ log_records jl L))"
  using L seen
proof (induction L arbitrary: seen chain)
  case Nil
  show ?case by simp
next
  case (Cons r L)
  let ?chain = "chain @ [operation_record jl (rd_op r)]"
  have new: "rd_id r \<noteq> jl_root_op jl" "rd_id r \<notin> seen" using Cons.prems by (auto simp: root_op)
  have step: "operations_walk jl k s [rd_op r] seen chain
      = operations_walk jl k s (if L = [] then [] else [rd_op (hd L)]) (insert (rd_id r) seen) ?chain"
    by (subst operations_walk.simps) (simp add: new load_parent [OF ok Cons.prems(1,2)])
  have "insert (rd_id r) seen \<inter> rd_id ` set L = {}" "linked root L" "set L \<subseteq> set (log s k)" using Cons.prems by auto
  then have IH: "operations_walk jl k s [rd_op (head_repo root L)] (insert (rd_id r) seen) ?chain = Some (Inr (?chain @ log_records jl L))"
    by (intro Cons.IH)
  show ?case
  proof (cases L)
    case Nil
    then show ?thesis using step by simp
  next
    case (Cons q M)
    then have "operations_walk jl k s [rd_op r] seen chain = Some (Inr (?chain @ log_records jl L))"
      using step IH by (simp only: list.distinct if_False list.sel head_repo_simps)
    then show ?thesis by simp
  qed
qed

lemma list_operations_log:
  assumes "ok s" and "load_repo jl (jj_repo_key project repo) s = (Inr r, t)"
  shows "list_operations jl project repo s = (Inr (sort_key or_timestamp (log_records jl (log s (jj_repo_key project repo)))), t)"
proof -
  let ?k = "jj_repo_key project repo"
  note R = load_repo_head [OF assms]
  have "operations_walk jl ?k t [rd_op r] {} [] = Some (Inr (log_records jl (log s ?k)))"
    using operations_walk_log [OF R(2) log_linked [OF R(2)], of ?k ?k "{}" "[]"] R(1,4) by simp
  then show ?thesis unfolding list_operations_def Let_def using assms(2)
    by (simp add: io_bind_def jj_loop_def io_return_def)
qed

lemma undo_walk_step:
  assumes "rd_id r \<noteq> jl_root_op jl" "op_parents (rd_op r) = [i]"
  shows "undo_walk jl k s (rd_op r) content n seen =
    (let content' = (if is_undo (rd_op r) then content else content @ [rd_op r]);
         n' = (if is_undo (rd_op r) \<and> \<not> seen then n + 1 else n) in
     if i = jl_root_op jl then Some (Inr (content', n'))
     else case jl_load_operation jl k i s of Inl e \<Rightarrow> Some (Inl (JOther e))
       | Inr p \<Rightarrow> undo_walk jl k s p content' n' (seen \<or> \<not> is_undo (rd_op r)))"
  by (subst undo_walk.simps) (simp add: assms Let_def)

lemma undo_walk_log:
  assumes ok: "ok s" and L: "linked root L" "set L \<subseteq> set (log s k)"
  shows "undo_walk jl k s (rd_op (head_repo root L)) content n seen
    = Some (Inr (content @ map rd_op (content_log L), if seen then n else n + length (takeWhile (\<lambda>r. is_undo (rd_op r)) L)))"
  using L
proof (induction L arbitrary: content n seen)
  case Nil
  show ?case by (subst undo_walk.simps) (simp add: root_op)
next
  case (Cons r L)
  have id: "rd_id r \<noteq> jl_root_op jl" and parents: "op_parents (rd_op r) = [rd_id (head_repo root L)]"
    and L: "linked root L" "set L \<subseteq> set (log s k)" using Cons.prems by (auto simp: root_op)
  note step = undo_walk_step [OF id parents] and IH = Cons.IH [OF L]
  show ?case
  proof (cases L)
    case Nil
    then show ?thesis by (simp add: step root_op Let_def)
  next
    case (Cons q M)
    then have "rd_id q \<noteq> jl_root_op jl" "jl_load_operation jl k (rd_id q) s = Inr (rd_op q)"
      using L load_operation [OF ok, of q k] by (auto simp: root_op)
    then show ?thesis unfolding head_repo_simps step Cons by (simp add: IH [unfolded Cons head_repo_simps])
  qed
qed

section \<open>Recovering a correlated write\<close>

lemma find_correlated_log:
  assumes ok: "ok s" and L: "r \<in> set (log s k)" and k: "k = jj_repo_key project repo"
    and marked: "carries required r"
    and unique: "\<forall>q \<in> set (log s k). carries required q \<longrightarrow> q = r"
    and c: "first (added_ids (get_local_bookmark (rd_view r) bookmark)) = Some (cm_id c)" and w: "describes jl s w c r"
    and load: "load_repo jl k s = (Inr h, s1)" "load_repo jl k s1 = (Inr h', s2)"
  shows "find_correlated_write jl project repo bookmark required s = (Inr (Some w), s2)"
proof -
  note R1 = load_repo_head [OF ok load(1)]
  note R2 = load_repo_head [OF R1(2) load(2)]
  let ?found = "\<lambda>record. list_all (\<lambda>(key, v). bt_get (or_attributes record) key = Some v) required"
  have "find ?found (rev (sort_key or_timestamp (log_records jl (log s k)))) = Some (operation_record jl (rd_op r))"
  proof (rule find_unique)
    have attributes: "or_attributes (operation_record jl op) = op_attributes op" for op by (simp add: operation_record_def)
    show "operation_record jl (rd_op r) \<in> set (rev (sort_key or_timestamp (log_records jl (log s k))))" using L by simp
    show "?found (operation_record jl (rd_op r))" unfolding attributes using marked .
    show "\<forall>y \<in> set (rev (sort_key or_timestamp (log_records jl (log s k)))). ?found y \<longrightarrow> y = operation_record jl (rd_op r)"
    proof (intro ballI impI)
      fix y assume "y \<in> set (rev (sort_key or_timestamp (log_records jl (log s k))))" and y: "?found y"
      then obtain q where q: "q \<in> set (log s k)" "y = operation_record jl (rd_op q)" by auto
      then have "q = r" using y unique unfolding q(2) attributes by blast
      then show "y = operation_record jl (rd_op r)" using q(2) by simp
    qed
  qed
  then have found: "find_operation_by_attributes jl project repo required s = (Inr (Some (operation_record jl (rd_op r))), s1)"
    using list_operations_log [OF ok, of project repo h s1] load(1) k
    by (simp add: find_operation_by_attributes_def io_bind_def io_return_def)
  have op: "jl_load_operation jl k (rd_id r) s2 = Inr (rd_op r)" "jl_load_at jl k (rd_op r) s2 = Inr r"
    using load_operation [OF R2(2)] load_at [OF R2(2)] L R1(4) R2(4) by auto
  note keeps = keeps_trans [OF R1(3) R2(3)]
  have commit: "jl_get_commit jl (cm_id c) s2 = Inr c" using w keeps unfolding describes_def keeps_def by blast
  have "stored s (cm_tree c)" using commit_tree [OF ok] w unfolding describes_def by blast
  then have conflicts: "conflicted_decls jl (cm_tree c) s2 = (Inr (wr_conflicted_decls w), s2)"
    using conflicted_decls_keeps [where stored = stored, OF keeps] w unfolding describes_def by blast
  have "w = \<lparr>wr_commit_id = jl_hex jl (cm_id c), wr_change_id = jl_reverse_hex jl (cm_change_id c),
      wr_operation_id = or_op_id (operation_record jl (rd_op r)), wr_conflicted_decls = wr_conflicted_decls w\<rparr>"
    using w by (simp add: describes_def operation_record_def)
  moreover have "jl_from_hex jl (or_op_id (operation_record jl (rd_op r))) = Some (rd_id r)" by (simp add: hex operation_record_def)
  ultimately show ?thesis
    by (simp add: find_correlated_write_def io_bind_def found io_of_def load(2) [unfolded k] op [unfolded k] c commit conflicts jj_read_def
        map_jj_def get_commit_def io_return_def Let_def)
qed

section \<open>Undo\<close>

lemma linked_last: "linked root L \<Longrightarrow> L \<noteq> [] \<Longrightarrow> op_parents (rd_op (last L)) = [rd_id root]"
  by (induction L) auto

lemma content_last: "L \<noteq> [] \<Longrightarrow> \<not> is_undo (rd_op (last L)) \<Longrightarrow> last (content_log L) = last L \<and> content_log L \<noteq> []"
  by (induction L rule: rev_induct) auto

lemma undo_target_log:
  assumes ok: "ok s" and L: "log s k \<noteq> []" "\<not> is_undo (rd_op (last (log s k)))" and d: "d \<le> length (content_log (log s k))"
  shows "undo_target jl k (map rd_op (content_log (log s k))) d s
    = (Inr ((map rd_view (content_log (log s k)) @ [rd_view root]) ! d), s)"
proof (cases "d < length (content_log (log s k))")
  case True
  then have "content_log (log s k) ! d \<in> set (log s k)" using nth_mem by fastforce
  then show ?thesis using True load_at [OF ok, of "content_log (log s k) ! d" k]
    by (simp add: undo_target_def io_bind_def jj_read_def map_jj_def io_return_def nth_append)
next
  case False
  note last = content_last [OF L]
  have "op_parents (last (map rd_op (content_log (log s k)))) = [jl_root_op jl]"
    using linked_last [OF log_linked [OF ok] L(1)] last by (simp add: last_map root_op)
  then show ?thesis using False d load_operation [OF ok, of root k] load_at [OF ok, of root k]
    by (simp add: undo_target_def io_bind_def jj_read_def map_jj_def io_return_def nth_append root_op)
qed

lemma calm_validate_bookmarks [jj_intros]:
  assumes "\<And>n sn. obeys (calm jl stored ok log) (validate n sn)"
  shows "obeys (calm jl stored ok log) (validate_bookmarks jl repo validate bs)"
  by (induction bs) (auto intro!: jj_intros assms simp: run_policy_def split: list.splits)

text \<open>The log and the number of undo operations in front decide what undo does.\<close>

lemma undo_after_load:
  assumes ok: "ok s" and L: "log s k = [] \<or> \<not> is_undo (rd_op (last (log s k)))" and k: "k = jj_repo_key project repo"
    and guard: "jl_publication_guard jl k s = Inr ()" and load: "load_repo jl k s = (Inr h, s1)"
  defines "C \<equiv> content_log (log s k)" and "u \<equiv> length (takeWhile (\<lambda>r. is_undo (rd_op r)) (log s k))"
  defines "V \<equiv> (map rd_view C @ [rd_view root]) ! Suc u" and "y \<equiv> jl_hex jl (rd_id (C ! u))"
  shows "undo_validated jl project repo author validate s =
    (if length C \<le> u then (Inl (Stop (PuJj JNothingToUndo)), s1)
     else io_bind (validate_bookmarks jl h validate (vw_bookmarks V)) (\<lambda>_.
       io_bind (pub (commit_tx jl k (record_author author (start_transaction h\<lparr>tx_view := V\<rparr>)) (''undo '' @ y))) (\<lambda>_. io_return y)) s1)"
proof -
  note R = load_repo_head [OF ok load]
  have C: "C = content_log (log s1 k)" and u: "u = length (takeWhile (\<lambda>r. is_undo (rd_op r)) (log s1 k))"
    by (simp_all add: C_def u_def R(4))
  have "undo_walk jl k s1 (rd_op h) [] 0 False = Some (Inr (map rd_op C, u))"
    using undo_walk_log [OF R(2) log_linked [OF R(2), of k], of k "[]" 0 False] unfolding C u R(1,4) by simp
  then have walk: "jj_loop (\<lambda>s. undo_walk jl k s (rd_op h) [] 0 False) s1 = (Inr (map rd_op C, u), s1)"
    by (simp add: jj_loop_def)
  have target: "undo_target jl k (map rd_op C) (Suc u) s1 = (Inr V, s1)" if "\<not> length C \<le> u"
  proof -
    have "log s1 k \<noteq> []" using that unfolding C by auto
    then show ?thesis using undo_target_log [OF R(2), of k "Suc u"] L that unfolding V_def C u R(4) by auto
  qed
  show ?thesis
  proof (cases "length C \<le> u")
    case True
    then show ?thesis unfolding undo_validated_def Let_def k [symmetric]
      by (auto simp: io_bind_def pub_def io_map_err_def publication_guard_def guard load walk io_fail_def)
  next
    case False
    then have "C \<noteq> []" by auto
    with False show ?thesis unfolding undo_validated_def Let_def k [symmetric]
      by (simp add: io_bind_def pub_def io_map_err_def publication_guard_def guard load walk target y_def)
  qed
qed

lemma undo_result:
  assumes ok: "ok s" and L: "log s k = [] \<or> \<not> is_undo (rd_op (last (log s k)))" and k: "k = jj_repo_key project repo"
    and policy: "\<And>n sn. obeys (calm jl stored ok log) (validate n sn)"
    and run: "undo_validated jl project repo author validate s = (Inr y, t)"
  defines "C \<equiv> content_log (log s k)" and "u \<equiv> length (takeWhile (\<lambda>r. is_undo (rd_op r)) (log s k))"
  shows "u < length C \<and> y = jl_hex jl (rd_id (C ! u)) \<and> (\<exists>r. publishes jl stored ok log k r s t
      \<and> op_description (rd_op r) = ''undo '' @ y \<and> rd_view r = (map rd_view C @ [rd_view root]) ! Suc u)"
proof -
  obtain h s1 where g: "jl_publication_guard jl k s = Inr ()" and load: "load_repo jl k s = (Inr h, s1)"
    using run unfolding undo_validated_def Let_def k [symmetric]
    by (elim io_InrE) (auto simp: pub_run publication_guard_def map_err_Inr)
  note R = load_repo_head [OF ok load]
  note after = undo_after_load [OF ok L k g load, of author validate, folded C_def u_def]
  let ?V = "(map rd_view C @ [rd_view root]) ! Suc u" and ?y = "jl_hex jl (rd_id (C ! u))"
  have less: "u < length C" using run after by (auto split: if_splits)
  then have "io_bind (validate_bookmarks jl h validate (vw_bookmarks ?V)) (\<lambda>_.
       io_bind (pub (commit_tx jl k (record_author author (start_transaction h\<lparr>tx_view := ?V\<rparr>)) (''undo '' @ ?y))) (\<lambda>_. io_return ?y)) s1 = (Inr y, t)"
    using run after by simp
  then obtain s2 r where steps: "validate_bookmarks jl h validate (vw_bookmarks ?V) s1 = (Inr (), s2)"
      "jl_commit_tx jl k (record_author author (start_transaction h\<lparr>tx_view := ?V\<rparr>)) (''undo '' @ ?y) s2 = (Inr r, t)" and y: "y = ?y"
    unfolding commit_tx_def by (elim io_InrE) (auto simp: pub_run io_bind_Inr jj_run io_run)
  note c2 = calmD [OF obeysD [OF calm_validate_bookmarks [OF policy] steps(1)] R(2)]
  have "tx_base (record_author author (start_transaction h\<lparr>tx_view := ?V\<rparr>)) = head_repo root (log s2 k)"
    using R(1,4) c2(3) by (simp add: start_transaction_def)
  from commit_tx [OF c2(1) this steps(2)] have tx: "ok t" "keeps jl stored s2 t" "log t = (log s2)(k := r # log s2 k)"
      "op_description (rd_op r) = ''undo '' @ ?y" "rd_view r = ?V" by simp_all
  have "publishes jl stored ok log k r s t"
    unfolding publishes_def using tx(1,3) c2(3) R(4) keeps_trans [OF R(3) keeps_trans [OF c2(2) tx(2)]] by simp
  then show ?thesis using less y tx(4,5) by blast
qed

text \<open>Undo after undo walks on through the content operations.\<close>

lemma undo_step:
  assumes ok: "ok s" and L: "log s k = U @ C" "\<forall>r \<in> set U. is_undo (rd_op r)" "\<forall>r \<in> set C. \<not> is_undo (rd_op r)" "C = [] \<longrightarrow> U = []"
    and k: "k = jj_repo_key project repo" and policy: "\<And>n sn. obeys (calm jl stored ok log) (validate n sn)"
    and run: "undo_validated jl project repo author validate s = (Inr y, t)"
  shows "length U < length C \<and> (\<exists>r. publishes jl stored ok log k r s t \<and> is_undo (rd_op r)
      \<and> rd_view r = (map rd_view C @ [rd_view root]) ! Suc (length U))"
proof -
  have C: "content_log (log s k) = C" and u: "length (takeWhile (\<lambda>r. is_undo (rd_op r)) (log s k)) = length U"
    using L(1-3) by (simp_all add: filter_id_conv filter_empty_conv takeWhile_append2 takeWhile_eq_Nil_iff) (cases C; simp)
  have "log s k = [] \<or> \<not> is_undo (rd_op (last (log s k)))" using L by (cases "C = []") auto
  from undo_result [OF ok this k policy run, unfolded C u]
  show ?thesis unfolding is_undo_def using starts_with_append by metis
qed

lemma undo_times_log:
  assumes "ok s" and "log s k = U @ C" "\<forall>r \<in> set U. is_undo (rd_op r)" and C: "\<forall>r \<in> set C. \<not> is_undo (rd_op r)"
    and k: "k = jj_repo_key project repo" and policy: "\<And>n sn. obeys (calm jl stored ok log) (validate n sn)"
    and "length U \<le> length C" "rd_view (head_repo root (log s k)) = (map rd_view C @ [rd_view root]) ! length U"
    and "undo_times jl project repo author validate n s = (Inr (), t)"
  shows "\<exists>U'. ok t \<and> log t k = U' @ C \<and> (\<forall>r \<in> set U'. is_undo (rd_op r)) \<and> length U' = length U + n \<and> length U' \<le> length C
    \<and> rd_view (head_repo root (log t k)) = (map rd_view C @ [rd_view root]) ! length U'"
  using assms(1-3,7-)
proof (induction n arbitrary: s U)
  case 0
  then show ?case by (auto simp: io_run)
next
  case (Suc n)
  then obtain y u where y: "undo_validated jl project repo author validate s = (Inr y, u)"
      and rest: "undo_times jl project repo author validate n u = (Inr (), t)"
    by (auto elim!: io_InrE)
  have "C = [] \<longrightarrow> U = []" using Suc.prems(4) by auto
  then obtain r where U: "length U < length C" and r: "publishes jl stored ok log k r s u" "is_undo (rd_op r)"
      "rd_view r = (map rd_view C @ [rd_view root]) ! Suc (length U)"
    using undo_step [OF Suc.prems(1-3) C _ k policy y] by blast
  have "ok u" "log u k = (r # U) @ C" using r(1) Suc.prems(2) by (simp_all add: publishes_def)
  then show ?case using Suc.IH [of u "r # U"] Suc.prems(3) U r(2,3) rest by auto
qed

lemma undo_exhausted:
  assumes ok: "ok s" and L: "log s k = U @ C" "\<forall>r \<in> set U. is_undo (rd_op r)" "\<forall>r \<in> set C. \<not> is_undo (rd_op r)" "length U = length C"
    and k: "k = jj_repo_key project repo" and open': "jl_publication_guard jl k s = Inr ()" "load_repo jl k s = (Inr h, t)"
  shows "undo_validated jl project repo author validate s = (Inl (Stop (PuJj JNothingToUndo)), t)"
proof -
  have "content_log (log s k) = C" "length (takeWhile (\<lambda>r. is_undo (rd_op r)) (log s k)) = length U"
    using L(1-3) by (simp_all add: filter_id_conv filter_empty_conv takeWhile_append2 takeWhile_eq_Nil_iff) (cases C; simp)
  moreover have "log s k = [] \<or> \<not> is_undo (rd_op (last (log s k)))" using L by (cases "C = []") auto
  ultimately show ?thesis using undo_after_load [OF ok _ k open', of author validate] L(4) by simp
qed

end

end
