(* ===== verification/Jj_Reference.thy ===== *)
theory Jj_Reference
  imports Jj_History
begin

text \<open>
  A small in-memory implementation of the library's interface: trees are maps from paths to merged values, a file's id
  is its content, commits and operations are numbered.  It satisfies the laws of \<open>jj_store\<close>, so that
  statements under these laws apply to something, and it runs the examples.
\<close>

section \<open>The implementation\<close>

type_synonym ref_tree = "(string, tree_value merge) btree"

record ref_state =
  rf_commits :: "ref_tree commit list"
  rf_logs :: "(string, op_log) btree"
  rf_count :: nat

definition empty_ref :: ref_state where
  "empty_ref = \<lparr>rf_commits = [], rf_logs = [], rf_count = 0\<rparr>"

definition ref_log :: "ref_state \<Rightarrow> string \<Rightarrow> op_log" where
  "ref_log s k = (case bt_get (rf_logs s) k of Some L \<Rightarrow> L | None \<Rightarrow> [])"

definition ref_root :: readonly_repo where
  "ref_root = \<lparr>rd_op = \<lparr>op_id = [], op_parents = [], op_view_id = [], op_description = [], op_username = [], op_end_time = 0,
     op_attributes = []\<rparr>, rd_view = \<lparr>vw_heads = [], vw_bookmarks = [], vw_tags = []\<rparr>\<rparr>"

definition ref_root_commit :: "ref_tree commit" where
  "ref_root_commit = \<lparr>cm_id = [], cm_change_id = [], cm_parents = [], cm_tree = [], cm_author = [], cm_author_time = 0, cm_description = []\<rparr>"

definition ref_get_commit :: "commit_id \<Rightarrow> ref_state \<Rightarrow> backend_error + ref_tree commit" where
  "ref_get_commit c s = (if c = [] then Inr ref_root_commit
     else case find (\<lambda>x. cm_id x = c) (rf_commits s) of Some x \<Rightarrow> Inr x | None \<Rightarrow> Inl (BeNotFound ''commit not found''))"

definition ref_new_commit ::
  "commit_id list \<Rightarrow> ref_tree \<Rightarrow> signature \<Rightarrow> string \<Rightarrow> ref_state \<Rightarrow> (string + ref_tree commit) \<times> ref_state" where
  "ref_new_commit parents tree sig message s =
     (let c = \<lparr>cm_id = replicate (Suc (rf_count s)) 1, cm_change_id = replicate (Suc (rf_count s)) 1, cm_parents = parents, cm_tree = tree,
          cm_author = sg_name sig, cm_author_time = sg_timestamp sig, cm_description = message\<rparr> in
      (Inr c, s\<lparr>rf_commits := rf_commits s @ [c], rf_count := Suc (rf_count s)\<rparr>))"

definition ref_commit_tx :: "string \<Rightarrow> transaction \<Rightarrow> string \<Rightarrow> ref_state \<Rightarrow> (string + readonly_repo) \<times> ref_state" where
  "ref_commit_tx k tx description s =
     (let r = \<lparr>rd_op = \<lparr>op_id = replicate (Suc (rf_count s)) 2, op_parents = [rd_id (tx_base tx)], op_view_id = replicate (Suc (rf_count s)) 2,
          op_description = description, op_username = [], op_end_time = int (rf_count s), op_attributes = tx_attributes tx\<rparr>, rd_view = tx_view tx\<rparr> in
      (Inr r, s\<lparr>rf_logs := bt_insert k (r # ref_log s k) (rf_logs s), rf_count := Suc (rf_count s)\<rparr>))"

definition ref_find :: "op_log \<Rightarrow> (readonly_repo \<Rightarrow> bool) \<Rightarrow> string + readonly_repo" where
  "ref_find L P = (case find P (L @ [ref_root]) of Some r \<Rightarrow> Inr r | None \<Rightarrow> Inl ''operation not found'')"

definition ref_write_tree :: "ref_tree \<Rightarrow> (string \<times> tree_value merge) list \<Rightarrow> ref_tree" where
  "ref_write_tree base entries = fold (\<lambda>(p, v) T. if mg_is_absent v then bt_remove p T else bt_insert p v T) entries base"

definition ref_value :: "ref_tree \<Rightarrow> string \<Rightarrow> tree_value merge" where
  "ref_value T p = (case bt_get T p of Some v \<Rightarrow> v | None \<Rightarrow> mg_absent)"

definition ref_merge_value :: "tree_value merge \<Rightarrow> tree_value merge \<Rightarrow> tree_value merge \<Rightarrow> tree_value merge" where
  "ref_merge_value ours base theirs =
     (if ours = theirs \<or> theirs = base then ours else if ours = base then theirs
      else \<lparr>mg_adds = mg_adds ours @ mg_removes base @ mg_adds theirs, mg_removes = mg_removes ours @ mg_adds base @ mg_removes theirs\<rparr>)"

definition ref_merge :: "ref_tree \<Rightarrow> ref_tree \<Rightarrow> ref_tree \<Rightarrow> ref_tree" where
  "ref_merge ours base theirs = ref_write_tree []
     (map (\<lambda>p. (p, ref_merge_value (ref_value ours p) (ref_value base p) (ref_value theirs p))) (map fst (ours @ theirs)))"

definition set_target :: "string \<Rightarrow> commit_id merge \<Rightarrow> (string, commit_id merge) btree \<Rightarrow> (string, commit_id merge) btree" where
  "set_target n target m = (if mg_is_absent target then bt_remove n m else bt_insert n target m)"

definition reference_jj :: "(ref_state, ref_tree) jj_lib" where
  "reference_jj = \<lparr>
     jl_hex = map (\<lambda>w. char_of (unat w)), jl_from_hex = (\<lambda>h. Some (ascii_bytes h)), jl_reverse_hex = map (\<lambda>w. char_of (unat w)),
     jl_root_commit = [], jl_root_op = [],
     jl_publication_guard = (\<lambda>k s. Inr ()), jl_gc_guard = (\<lambda>s. Inr ()), jl_loader = (\<lambda>k s. (Inr (), s)),
     jl_op_heads = (\<lambda>k s. Inr [rd_id (head_repo ref_root (ref_log s k))]),
     jl_create_ref = (\<lambda>k n b s. (Inr True, s)),
     jl_list_ops = (\<lambda>k s. Inr (map rd_id (ref_log s k))), jl_list_repo_keys = (\<lambda>s. Inr (bt_keys (rf_logs s))),
     jl_list_objects = (\<lambda>kind s. Inr (if kind = KCommit then map cm_id (rf_commits s) else [])),
     jl_delete_object = (\<lambda>kind i s. (Inr (), if kind = KCommit then s\<lparr>rf_commits := filter (\<lambda>c. cm_id c \<noteq> i) (rf_commits s)\<rparr> else s)),
     jl_load_at_head = (\<lambda>k s. (Inr (head_repo ref_root (ref_log s k)), s)),
     jl_load_operation = (\<lambda>k i s. map_sum id rd_op (ref_find (ref_log s k) (\<lambda>r. rd_id r = i))),
     jl_operation_view = (\<lambda>op s. map_sum id rd_view (ref_find (concat (map snd (rf_logs s))) (\<lambda>r. rd_op r = op))),
     jl_load_at = (\<lambda>k op s. ref_find (ref_log s k) (\<lambda>r. rd_op r = op)),
     jl_get_commit = ref_get_commit,
     jl_read_file = (\<lambda>f s. Inr f), jl_write_file = (\<lambda>bs s. (Inr bs, s)),
     jl_repo_path = (\<lambda>p. Inr ()), jl_empty_tree = [],
     jl_entries = (\<lambda>T s. map (\<lambda>(p, v). (p, Inr v)) T),
     jl_conflicts = (\<lambda>T s. map (\<lambda>(p, v). (p, Inr v)) (filter (\<lambda>(p, v). mg_resolved v = None) T)),
     jl_path_value = (\<lambda>T p s. Inr (ref_value T p)),
     jl_write_tree = (\<lambda>base entries s. (Inr (ref_write_tree base entries), s)),
     jl_merge_trees = (\<lambda>ours base theirs s. (Inr (ref_merge ours base theirs), s)),
     jl_merge_commit_trees = (\<lambda>repo cs s. (Inr (fold (\<lambda>c T. ref_merge T [] (cm_tree c)) cs []), s)),
     jl_tree_ids = (\<lambda>T. []), jl_tree_values = (\<lambda>i s. Inr []), jl_now = (\<lambda>s. int (rf_count s)),
     jl_new_commit = ref_new_commit,
     jl_set_bookmark = (\<lambda>n target v. v\<lparr>vw_bookmarks := set_target n target (vw_bookmarks v)\<rparr>),
     jl_set_tag = (\<lambda>n target v. v\<lparr>vw_tags := set_target n target (vw_tags v)\<rparr>),
     jl_add_head = (\<lambda>c v s. Inr (v\<lparr>vw_heads := cm_id c # filter (\<lambda>h. h \<notin> set (cm_parents c)) (vw_heads v)\<rparr>)),
     jl_commit_tx = ref_commit_tx\<rparr>"

section \<open>It satisfies the laws\<close>

text \<open>Operation and commit ids are numbered up to the counter, and no two operations share an id.\<close>

definition ref_ok :: "ref_state \<Rightarrow> bool" where
  "ref_ok s \<longleftrightarrow> (\<forall>k. linked ref_root (ref_log s k))
     \<and> (\<forall>k. \<forall>r \<in> set (ref_log s k). rd_id r \<noteq> [] \<and> length (rd_id r) \<le> rf_count s)
     \<and> (\<forall>c \<in> set (rf_commits s). cm_id c \<noteq> [] \<and> length (cm_id c) \<le> rf_count s)
     \<and> (\<forall>k k' r q. r \<in> set (ref_log s k) \<longrightarrow> q \<in> set (ref_log s k') \<longrightarrow> rd_id r = rd_id q \<longrightarrow> r = q)
     \<and> bt_ok (rf_logs s)"

lemma ref_ok_empty: "ref_ok empty_ref"
  by (simp add: ref_ok_def empty_ref_def ref_log_def)

abbreviation ref_calm :: "ref_state \<Rightarrow> ref_state \<Rightarrow> bool" where
  "ref_calm \<equiv> calm reference_jj (\<lambda>s T. True) ref_ok ref_log"

lemma ref_calm_refl: "ref_calm s s"
  by (simp add: calm_def)

lemma find_append: "find P (xs @ ys) = (case find P xs of Some x \<Rightarrow> Some x | None \<Rightarrow> find P ys)"
  by (induction xs) simp_all

lemma ref_root_id [simp]: "rd_id ref_root = []" "op_parents (rd_op ref_root) = []"
  by (simp_all add: ref_root_def)

lemma ref_okD:
  assumes "ref_ok s"
  shows "linked ref_root (ref_log s k)"
    and "r \<in> set (ref_log s k) \<Longrightarrow> rd_id r \<noteq> []" "r \<in> set (ref_log s k) \<Longrightarrow> length (rd_id r) \<le> rf_count s"
    and "c \<in> set (rf_commits s) \<Longrightarrow> cm_id c \<noteq> []" "c \<in> set (rf_commits s) \<Longrightarrow> length (cm_id c) \<le> rf_count s"
    and "r \<in> set (ref_log s k) \<Longrightarrow> q \<in> set (ref_log s k') \<Longrightarrow> rd_id r = rd_id q \<Longrightarrow> r = q"
    and "bt_ok (rf_logs s)"
  using assms unfolding ref_ok_def by blast+

lemma ref_okI:
  assumes "\<And>k. linked ref_root (ref_log s k)"
    and "\<And>k r. r \<in> set (ref_log s k) \<Longrightarrow> rd_id r \<noteq> [] \<and> length (rd_id r) \<le> rf_count s"
    and "\<And>c. c \<in> set (rf_commits s) \<Longrightarrow> cm_id c \<noteq> [] \<and> length (cm_id c) \<le> rf_count s"
    and "\<And>k k' r q. r \<in> set (ref_log s k) \<Longrightarrow> q \<in> set (ref_log s k') \<Longrightarrow> rd_id r = rd_id q \<Longrightarrow> r = q"
    and "bt_ok (rf_logs s)"
  shows "ref_ok s"
  using assms unfolding ref_ok_def by blast

lemma ref_find_log:
  assumes ok: "ref_ok s" and r: "r \<in> insert ref_root (set (ref_log s k))" "P r" and id: "\<And>q. P q \<Longrightarrow> rd_id q = rd_id r"
  shows "ref_find (ref_log s k) P = Inr r"
proof -
  have unique: "q = r" if q: "q \<in> set (ref_log s k @ [ref_root])" "P q" for q
  proof -
    have "q \<in> set (ref_log s k) \<or> q = ref_root" "r \<in> set (ref_log s k) \<or> r = ref_root" using q(1) r(1) by auto
    then show ?thesis using id [OF q(2)] ref_okD(2) [OF ok, of q k] ref_okD(2) [OF ok, of r k] ref_okD(6) [OF ok, of q k r k]
      by (elim disjE) simp_all
  qed
  have "r \<in> set (ref_log s k @ [ref_root])" using r(1) by auto
  then have "find P (ref_log s k @ [ref_root]) = Some r" by (rule find_unique) (use r(2) unique in blast)+
  then show ?thesis by (simp add: ref_find_def)
qed

lemma ref_new_commit_law:
  assumes run: "ref_new_commit parents tree sg message s = (d, t)"
  shows "ref_calm s t" and "ref_ok s \<Longrightarrow> d = Inr x \<Longrightarrow> ref_get_commit (cm_id x) t = Inr x"
proof -
  obtain c where c: "cm_id c = replicate (Suc (rf_count s)) 1" "d = Inr c"
      and t: "t = s\<lparr>rf_commits := rf_commits s @ [c], rf_count := Suc (rf_count s)\<rparr>"
    by (rule that [OF _ _ run [unfolded ref_new_commit_def Let_def, THEN arg_cong, of snd, unfolded snd_conv, symmetric]])
      (use run in \<open>auto simp: ref_new_commit_def Let_def\<close>)
  have log: "ref_log t = ref_log s" by (simp add: t ref_log_def fun_eq_iff)
  have count: "rf_count t = Suc (rf_count s)" "rf_commits t = rf_commits s @ [c]" "rf_logs t = rf_logs s" by (simp_all add: t)
  have "ref_ok t" if ok: "ref_ok s"
  proof (rule ref_okI)
    fix q k k' p assume "q \<in> set (ref_log t k)"
    then show "rd_id q \<noteq> [] \<and> length (rd_id q) \<le> rf_count t" using ref_okD(2,3) [OF ok, of q k] by (simp add: log count)
    assume "p \<in> set (ref_log t k')" "rd_id q = rd_id p"
    then show "q = p" using ref_okD(6) [OF ok, of q k p k'] \<open>q \<in> set (ref_log t k)\<close> by (simp add: log)
  next
    fix x assume "x \<in> set (rf_commits t)"
    then show "cm_id x \<noteq> [] \<and> length (cm_id x) \<le> rf_count t" using ref_okD(4,5) [OF ok, of x] c(1) by (auto simp: count)
  qed (use ref_okD(1,7) [OF ok] in \<open>simp_all add: log count\<close>)
  moreover have "keeps reference_jj (\<lambda>s T. True) s t"
    unfolding keeps_def by (auto simp: t reference_jj_def ref_get_commit_def find_append split: option.splits)
  ultimately show "ref_calm s t" using log by (simp add: calm_def)
  assume ok: "ref_ok s" and x: "d = Inr x"
  have "cm_id y \<noteq> cm_id c" if "y \<in> set (rf_commits s)" for y
    using ref_okD(5) [OF ok that] c(1) by auto
  then have "find (\<lambda>y. cm_id y = cm_id c) (rf_commits s) = None" by (auto simp: find_None_iff)
  then show "ref_get_commit (cm_id x) t = Inr x" using x c by (auto simp: t ref_get_commit_def find_append)
qed

lemma ref_commit_tx_law:
  assumes ok: "ref_ok s" and base: "tx_base tx = head_repo ref_root (ref_log s k)" and run: "ref_commit_tx k tx description s = (Inr r, t)"
  shows "ref_ok t" "keeps reference_jj (\<lambda>s T. True) s t" "ref_log t = (ref_log s)(k := r # ref_log s k)"
proof -
  have id: "rd_id r = replicate (Suc (rf_count s)) 2" and t: "t = s\<lparr>rf_logs := bt_insert k (r # ref_log s k) (rf_logs s), rf_count := Suc (rf_count s)\<rparr>"
    and parents: "op_parents (rd_op r) = [rd_id (tx_base tx)]"
    using run by (auto simp: ref_commit_tx_def Let_def)
  show log: "ref_log t = (ref_log s)(k := r # ref_log s k)"
    by (rule ext) (simp add: ref_log_def t)
  show "keeps reference_jj (\<lambda>s T. True) s t" by (simp add: keeps_def t reference_jj_def ref_get_commit_def)
  have fresh: "rd_id q \<noteq> rd_id r" if "q \<in> set (ref_log s k')" for q k'
    using ref_okD(3) [OF ok that] id by auto
  have cases: "q = r \<or> q \<in> set (ref_log s k')" if "q \<in> set (ref_log t k')" for q k'
    using that by (auto simp: log split: if_splits)
  have count: "rf_count t = Suc (rf_count s)" "rf_commits t = rf_commits s" "bt_ok (rf_logs t)"
    using ref_okD(7) [OF ok] by (simp_all add: t)
  show "ref_ok t"
  proof (rule ref_okI)
    fix k'
    have "linked ref_root (r # ref_log s k)"
      using ref_okD(1) [OF ok, of k] parents base fresh [of _ k] id by (auto dest: sym)
    then show "linked ref_root (ref_log t k')" using ref_okD(1) [OF ok, of k'] by (simp add: log)
    fix q assume q: "q \<in> set (ref_log t k')"
    show "rd_id q \<noteq> [] \<and> length (rd_id q) \<le> rf_count t"
      using cases [OF q] ref_okD(2,3) [OF ok, of q k'] id by (auto simp: count)
    fix k2 p assume p: "p \<in> set (ref_log t k2)" "rd_id q = rd_id p"
    show "q = p" using cases [OF q] cases [OF p(1)]
    proof (elim disjE)
      assume "q \<in> set (ref_log s k')" "p \<in> set (ref_log s k2)"
      then show ?thesis using p(2) by (rule ref_okD(6) [OF ok])
    qed (use p(2) fresh [of q k'] fresh [of p k2] in \<open>simp_all\<close>)
  next
    fix c assume "c \<in> set (rf_commits t)"
    then show "cm_id c \<noteq> [] \<and> length (cm_id c) \<le> rf_count t"
      using ref_okD(4,5) [OF ok, of c] by (simp add: count)
  qed (rule count(3))
qed

lemma absent_unique: "mg_is_absent m \<Longrightarrow> m = mg_absent"
  by (cases m) (auto simp: mg_is_absent_def mg_absent_def mg_resolved_def split: list.splits)

lemma set_target_get:
  "(case bt_get (set_target n target m) k of Some v \<Rightarrow> v | None \<Rightarrow> mg_absent)
    = (if k = n then target else case bt_get m k of Some v \<Rightarrow> v | None \<Rightarrow> mg_absent)"
  by (auto simp: set_target_def dest: absent_unique split: option.splits)

lemma hex_round: "ascii_bytes (map (\<lambda>w. char_of (unat w)) b) = b"
proof -
  have "of_char (char_of (unat w) :: char) = w" for w :: "8 word"
  proof -
    have "unat w < 256" using unsigned_less [of w] by simp
    then have "(of_char (char_of (unat w) :: char) :: nat) = unat w" by (simp add: of_char_of)
    then have "of_nat (of_char (char_of (unat w) :: char)) = w" by simp
    then show ?thesis by (simp only: of_nat_of_char)
  qed
  then show ?thesis by (simp add: ascii_bytes_def comp_def)
qed

lemma ref_get_commit_id: "ref_get_commit c s = Inr x \<Longrightarrow> cm_id x = c"
  by (auto simp: ref_get_commit_def ref_root_commit_def find_Some_iff split: if_splits option.splits)

interpretation rjj: jj_store reference_jj "\<lambda>s T. True" ref_ok ref_log ref_root
proof unfold_locales
  show "jl_from_hex reference_jj (jl_hex reference_jj b) = Some b" for b by (simp add: reference_jj_def hex_round)
  show "rd_id ref_root = jl_root_op reference_jj" by (simp add: reference_jj_def)
  show "jl_load_operation reference_jj k (rd_id r) s = Inr (rd_op r)" if "ref_ok s" "r \<in> insert ref_root (set (ref_log s k))" for s r k
    using ref_find_log [OF that, of "\<lambda>q. rd_id q = rd_id r"] by (simp add: reference_jj_def)
  show "jl_load_at reference_jj k (rd_op r) s = Inr r" if "ref_ok s" "r \<in> insert ref_root (set (ref_log s k))" for s r k
    using ref_find_log [OF that, of "\<lambda>q. rd_op q = rd_op r"] by (simp add: reference_jj_def)
  show "ref_calm s t" if "jl_new_commit reference_jj parents tree sg message s = (d, t)" for parents tree sg message s d t
    using ref_new_commit_law(1) that by (simp add: reference_jj_def)
  show "jl_get_commit reference_jj (cm_id x) t = Inr x \<and> cm_tree x = tree \<and> cm_parents x = parents \<and> cm_author x = sg_name sg
        \<and> cm_author_time x = sg_timestamp sg \<and> cm_description x = message"
    if "ref_ok s" "jl_new_commit reference_jj parents tree sg message s = (Inr x, t)" for parents tree sg message s x t
    using ref_new_commit_law(2) [of parents tree sg message s "Inr x" t x] that
    by (auto simp: reference_jj_def ref_new_commit_def Let_def)
  show "ref_ok t \<and> keeps reference_jj (\<lambda>s T. True) s t \<and> ref_log t = (ref_log s)(k := r # ref_log s k)
      \<and> op_description (rd_op r) = description \<and> op_attributes (rd_op r) = tx_attributes tx \<and> rd_view r = tx_view tx"
    if "ref_ok s" "tx_base tx = head_repo ref_root (ref_log s k)" "jl_commit_tx reference_jj k tx description s = (Inr r, t)"
    for s tx k description r t
    using ref_commit_tx_law [of s tx k description r t] that by (auto simp: reference_jj_def ref_commit_tx_def Let_def)
qed (auto simp: reference_jj_def calm_def set_target_get get_local_bookmark_def get_local_tag_def ref_okD(1) ref_commit_tx_def Let_def
    ref_get_commit_id)

end
