(* ===== verification/Jj_Results.thy ===== *)
theory Jj_Results
  imports Jj_Reference
begin

text \<open>
  What the storage crate \<open>schemahub-jj\<close> guarantees, over every library that satisfies the laws
  \<open>jj_store\<close>; the examples run on the in-memory implementation.
\<close>

section \<open>Declaration names\<close>

lemma replace_char: "replace_str [c] to cs = concat (map (\<lambda>x. if x = c then to else [x]) cs)"
  by (induction cs) (auto simp: starts_with_def)

lemma encode_decl_name_tokens:
  "encode_decl_name nm = concat (map (\<lambda>x. if x = CHR ''%'' then ''%25'' else if x = CHR ''/'' then ''%2F'' else [x]) nm)"
  unfolding encode_decl_name_def replace_char by (induction nm) auto

lemma decode_slash:
  "replace_str ''%2F'' ''/'' (encode_decl_name nm) = concat (map (\<lambda>x. if x = CHR ''%'' then ''%25'' else [x]) nm)"
  unfolding encode_decl_name_tokens by (induction nm) (auto simp: starts_with_def)

lemma decode_percent: "replace_str ''%25'' ''%'' (concat (map (\<lambda>x. if x = CHR ''%'' then ''%25'' else [x]) nm)) = nm"
  by (induction nm) (auto simp: starts_with_def)

text \<open>
  C35: The name of a declaration survives its encoding as a path component, whatever characters it has, and the encoding has no
  slash: every declaration is one file directly in its schema's directory, and different declarations have different files.
\<close>

theorem decl_name_roundtrip:
  "decode_decl_name (encode_decl_name nm) = nm \<and> CHR ''/'' \<notin> set (encode_decl_name nm)
    \<and> (encode_decl_name nm = encode_decl_name nm2 \<longleftrightarrow> nm = nm2)"
proof -
  have round: "decode_decl_name (encode_decl_name n) = n" for n
    unfolding decode_decl_name_def decode_slash decode_percent ..
  moreover have "CHR ''/'' \<notin> set (encode_decl_name nm)"
    unfolding encode_decl_name_tokens by auto
  ultimately show ?thesis by metis
qed

section \<open>Publications\<close>

text \<open>
  C30: A commit of schema changes keeps everything that was stored.  When the policy refuses the proposed tree, no operation is published.
  When it succeeds, exactly one operation is published: its view differs from that of the previous head in the bookmark alone,
  which points to the new commit; the tree of that commit is the one the policy has accepted; and the returned ids are those
  of the commit and of the operation.
\<close>

theorem publication_atomic:
  assumes "jj_store jl stored ok log root" and "ok s" and "\<forall>sn. obeys (calm jl stored ok log) (validate sn)"
    and "commit_schema_changes_validated jl project repo bookmark base_ref writes author message attributes validate s = (x, t)"
  defines "k \<equiv> jj_repo_key project repo"
  shows "ok t \<and> keeps jl stored s t \<and>
    (case x of
       Inl e \<Rightarrow> (case e of Stop (PuRejected _) \<Rightarrow> log t = log s | _ \<Rightarrow> True)
     | Inr w \<Rightarrow> \<exists>c r sn u v. publishes jl stored ok log k r s t \<and> describes jl t w c r
         \<and> moves_bookmark (rd_view (head_repo root (log s k))) bookmark (cm_id c) (rd_view r)
         \<and> validate sn u = (Inr (), v) \<and> sn_final_tree sn = cm_tree c)"
proof -
  have policy: "\<And>sn. obeys (calm jl stored ok log) (validate sn)" using assms(3) by blast
  note keep = jj_store.commit_changes_keeps [OF assms(1,2) policy assms(4)]
  show ?thesis
  proof (cases x)
    case (Inl e)
    then show ?thesis using keep by (auto split: stop.splits publication_error.splits)
  next
    case (Inr w)
    then have "commit_schema_changes_validated jl project repo bookmark base_ref writes author message attributes validate s = (Inr w, t)"
      using assms(4) by simp
    from jj_store.commit_changes_result [OF assms(1,2) policy this, folded k_def] keep Inr show ?thesis by (simp only: sum.case) blast
  qed
qed

text \<open>
  C31: A committed write can be recovered from the attributes of its operation.  When a commit with the attributes \<open>attributes\<close> succeeds
  and no other operation of the repository carries those of \<open>required\<close>, then after any number of later operations
  \<open>find_correlated_write\<close> returns the receipt of that commit.
\<close>

theorem correlated_write_recovered:
  assumes "jj_store jl stored ok log root" and "ok s" and "\<forall>sn. obeys (calm jl stored ok log) (validate sn)"
    and attributes: "bt_ok attributes" "\<forall>(key, v) \<in> set required. key \<noteq> [] \<and> bt_get attributes key = Some v"
    and fresh: "\<forall>q \<in> set (log s (jj_repo_key project repo)). \<not> carries required q"
    and run: "commit_schema_changes_validated jl project repo bookmark base_ref writes author message attributes validate s = (Inr w, t)"
    and later: "ok u" "keeps jl stored t u" "log u (jj_repo_key project repo) = others @ log t (jj_repo_key project repo)"
      "\<forall>q \<in> set others. \<not> carries required q"
    and load: "load_repo jl (jj_repo_key project repo) u = (Inr h, u1)" "load_repo jl (jj_repo_key project repo) u1 = (Inr h1, u2)"
  shows "find_correlated_write jl project repo bookmark required u = (Inr (Some w), u2)"
proof -
  let ?k = "jj_repo_key project repo" and ?head = "head_repo root (log s (jj_repo_key project repo))"
  have policy: "\<And>sn. obeys (calm jl stored ok log) (validate sn)" using assms(3) by blast
  obtain c r where r: "publishes jl stored ok log ?k r s t" "describes jl t w c r" "moves_bookmark (rd_view ?head) bookmark (cm_id c) (rd_view r)"
      "op_attributes (rd_op r) = tx_attributes (set_attributes attributes (record_author author (start_transaction ?head)))"
    using jj_store.commit_changes_result [OF assms(1,2) policy run] by blast
  have t: "ok t" "log t ?k = r # log s ?k" using r(1) by (simp_all add: publishes_def)
  have marked: "carries required r" unfolding r(4) using attributes(2)
    by (auto simp: list_all_iff set_attributes_get [OF attributes(1)])
  have unique: "\<forall>q \<in> set (log u ?k). carries required q \<longrightarrow> q = r" using fresh later(3,4) t(2) by auto
  have stored: "stored t (cm_tree c)" using r(2) jj_store.commit_tree [OF assms(1) t(1)] unfolding describes_def by blast
  have "describes jl u w c r" using r(2) later(2) conflicted_decls_keeps [OF later(2) stored] unfolding describes_def keeps_def by blast
  moreover have "first (added_ids (get_local_bookmark (rd_view r) bookmark)) = Some (cm_id c)"
    using r(3) by (simp add: moves_bookmark_def first_def)
  ultimately show ?thesis
    using jj_store.find_correlated_log [OF assms(1) later(1) _ refl marked unique _ _ load] later(3) t(2) by simp
qed

section \<open>Undo\<close>

text \<open>
  C34: Repeated undo walks back through the history, one change per step, and ends.  From a log without undo operations,
  after \<open>n\<close> undos the repository shows the state that the operation \<open>n\<close> steps before the newest one has left (the initial
  state when all have been undone), and the next undo then reports that there is nothing to undo.
\<close>

theorem undo_walks_back:
  assumes "jj_store jl stored ok log root" and "ok s" and "\<forall>r \<in> set (log s (jj_repo_key project repo)). \<not> is_undo (rd_op r)"
    and policy: "\<forall>nm sn. obeys (calm jl stored ok log) (validate nm sn)"
    and run: "undo_times jl project repo author validate n s = (Inr (), t)"
  defines "k \<equiv> jj_repo_key project repo"
  shows "n \<le> length (log s k) \<and> rd_view (head_repo root (log t k)) = (map rd_view (log s k) @ [rd_view root]) ! n
    \<and> (n = length (log s k) \<longrightarrow> jl_publication_guard jl k t = Inr () \<longrightarrow> load_repo jl k t = (Inr h, u) \<longrightarrow>
        undo_validated jl project repo author validate t = (Inl (Stop (PuJj JNothingToUndo)), u))"
proof -
  have policy': "\<And>nm sn. obeys (calm jl stored ok log) (validate nm sn)" using policy by blast
  have "rd_view (head_repo root (log s k)) = (map rd_view (log s k) @ [rd_view root]) ! 0" by (cases "log s k") simp_all
  then obtain U where U: "ok t" "log t k = U @ log s k" "\<forall>r \<in> set U. is_undo (rd_op r)" "length U = n" "n \<le> length (log s k)"
      "rd_view (head_repo root (log t k)) = (map rd_view (log s k) @ [rd_view root]) ! n"
    using jj_store.undo_times_log [OF assms(1,2) _ _ _ k_def [THEN meta_eq_to_obj_eq] policy' _ _ run, of "[]" "log s k"] assms(3)
    unfolding k_def by auto
  show ?thesis
    using jj_store.undo_exhausted [OF assms(1) U(1-3) _ _ k_def [THEN meta_eq_to_obj_eq], of h u author validate] assms(3) U(4-)
    unfolding k_def by auto
qed

text \<open>
  C36: Undo does not restore the state before the newest write when that write follows an undo.  If the write \<open>w\<close> was made after \<open>b\<close>
  had been undone, undoing \<open>w\<close> brings back the state that \<open>b\<close> had left, not the state in which \<open>w\<close> was made.
\<close>

theorem undo_brings_back_undone:
  assumes "jj_store jl stored ok log root" and "ok s"
    and "log s (jj_repo_key project repo) = w # un # b # C" "\<not> is_undo (rd_op w)" "is_undo (rd_op un)"
      "\<forall>r \<in> set (b # C). \<not> is_undo (rd_op r)"
    and policy: "\<forall>nm sn. obeys (calm jl stored ok log) (validate nm sn)"
    and run: "undo_validated jl project repo author validate s = (Inr y, t)"
  defines "k \<equiv> jj_repo_key project repo"
  shows "rd_view (head_repo root (log t k)) = rd_view b"
proof -
  have policy': "\<And>nm sn. obeys (calm jl stored ok log) (validate nm sn)" using policy by blast
  have C: "content_log (log s k) = w # b # C" and u: "takeWhile (\<lambda>r. is_undo (rd_op r)) (log s k) = []"
    using assms(3-6) by (simp_all add: k_def filter_id_conv)
  have "log s k = [] \<or> \<not> is_undo (rd_op (last (log s k)))" using assms(3-6) by (auto simp: k_def)
  then show ?thesis using jj_store.undo_result [OF assms(1,2) _ k_def [THEN meta_eq_to_obj_eq] policy' run] C u
    by (auto simp: publishes_def)
qed

section \<open>Examples\<close>

definition sample_write :: "string \<Rightarrow> (ref_state, jj_error, write_result) publication" where
  "sample_write message = commit_schema_changes_validated reference_jj ''p'' ''r'' ''main'' (RefBookmark ''main'')
     [SwPatch ''a.proto'' \<lparr>me_meta = Some [7], me_upserts = [(''M'', ascii_bytes message)], me_removes = []\<rparr>] ''ann'' message
     [(''key'', message)] accept_all"

definition sample_one :: ref_state where "sample_one = snd (sample_write ''one'' empty_ref)"
definition sample_two :: ref_state where "sample_two = snd (sample_write ''two'' sample_one)"

definition sample_undone :: ref_state where
  "sample_undone = snd (undo_validated reference_jj ''p'' ''r'' ''ann'' (\<lambda>_. accept_all) sample_two)"
definition sample_three :: ref_state where "sample_three = snd (sample_write ''three'' sample_undone)"

text \<open>The content of declaration \<open>M\<close> that bookmark \<open>main\<close> shows.\<close>

definition sample_shows :: "ref_state \<Rightarrow> bytes option" where
  "sample_shows s = (case fst (load_schema reference_jj ''p'' ''r'' ''a.proto'' (RefBookmark ''main'') s) of
     Inr objs \<Rightarrow> bt_get (so_decls objs) ''M'' | Inl _ \<Rightarrow> None)"

lemma accept_all_calm: "\<forall>sn. obeys ref_calm (accept_all sn)" "\<forall>nm sn. obeys ref_calm ((\<lambda>_. accept_all) nm sn)"
  unfolding accept_all_def by (simp_all add: rjj.obeys_pure)

text \<open>The states written out.\<close>

definition sample_commit :: "nat \<Rightarrow> commit_id \<Rightarrow> int \<Rightarrow> string \<Rightarrow> ref_tree commit" where
  "sample_commit n parent time message = \<lparr>cm_id = replicate n 1, cm_change_id = replicate n 1, cm_parents = [parent],
     cm_tree = [(''a.proto/M'', resolved_file (ascii_bytes message)), (''a.proto/__meta__'', resolved_file [7])],
     cm_author = ''ann'', cm_author_time = time, cm_description = message\<rparr>"

definition sample_op :: "nat \<Rightarrow> operation_id \<Rightarrow> string \<Rightarrow> (string, string) btree \<Rightarrow> nat \<Rightarrow> readonly_repo" where
  "sample_op n parent description attributes commit = \<lparr>rd_op = \<lparr>op_id = replicate n 2, op_parents = [parent], op_view_id = replicate n 2,
     op_description = description, op_username = [], op_end_time = int n - 1, op_attributes = attributes @ [(''schemahub.author'', ''ann'')]\<rparr>,
     rd_view = \<lparr>vw_heads = [replicate commit 1], vw_bookmarks = [(''main'', mg_normal (replicate commit 1))], vw_tags = []\<rparr>\<rparr>"

lemma sample_two_value [code]:
  "sample_two = \<lparr>rf_commits = [sample_commit 1 [] 0 ''one'', sample_commit 3 [1] 2 ''two''],
     rf_logs = [(''p/r'', [sample_op 4 [2, 2] ''commit_write main: two'' [(''key'', ''two'')] 3,
       sample_op 2 [] ''commit_write main: one'' [(''key'', ''one'')] 1])], rf_count = 4\<rparr>"
  by code_simp

lemma sample_undone_value [code]:
  "sample_undone = sample_two\<lparr>rf_logs := [(''p/r'', sample_op 5 [2, 2, 2, 2] (''undo '' @ replicate 4 (char_of (2 :: nat))) [] 1
     # ref_log sample_two ''p/r'')], rf_count := 5\<rparr>"
  by code_simp

lemma sample_three_value [code]:
  "sample_three = \<lparr>rf_commits = rf_commits sample_two @ [sample_commit 6 [1] 5 ''three''],
     rf_logs = [(''p/r'', sample_op 7 [2, 2, 2, 2, 2] ''commit_write main: three'' [(''key'', ''three'')] 6 # ref_log sample_undone ''p/r'')],
     rf_count = 7\<rparr>"
  by code_simp

lemma sample_runs:
  "\<exists>w. sample_write ''one'' empty_ref = (Inr w, sample_one)" "\<exists>w. sample_write ''two'' sample_one = (Inr w, sample_two)"
  "\<exists>y. undo_validated reference_jj ''p'' ''r'' ''ann'' (\<lambda>_. accept_all) sample_two = (Inr y, sample_undone)"
  "\<exists>w. sample_write ''three'' sample_undone = (Inr w, sample_three)"
proof -
  have ran: "\<exists>y. p = (Inr y, snd p)" if "\<not> isl (fst p)" for p :: "('x + 'y) \<times> 'z"
    using that by (cases p; cases "fst p") auto
  show "\<exists>w. sample_write ''one'' empty_ref = (Inr w, sample_one)"
    unfolding sample_one_def by (rule ran) code_simp
  show "\<exists>w. sample_write ''two'' sample_one = (Inr w, sample_two)"
    unfolding sample_two_def by (rule ran) code_simp
  show "\<exists>y. undo_validated reference_jj ''p'' ''r'' ''ann'' (\<lambda>_. accept_all) sample_two = (Inr y, sample_undone)"
    unfolding sample_undone_def by (rule ran) code_simp
  show "\<exists>w. sample_write ''three'' sample_undone = (Inr w, sample_three)"
    unfolding sample_three_def by (rule ran) code_simp
qed

lemma sample_ok: "ref_ok sample_one" "ref_ok sample_two" "ref_ok sample_undone" "ref_ok sample_three"
proof -
  have wrote: "ref_ok t" if "ref_ok s" "sample_write m s = (x, t)" for m s x t
    using rjj.commit_changes_keeps [OF that(1) _ that(2) [unfolded sample_write_def]] accept_all_calm(1) by blast
  show "ref_ok sample_one" using wrote [OF ref_ok_empty] sample_runs(1) by blast
  then show two: "ref_ok sample_two" using wrote sample_runs(2) by blast
  have "ref_log sample_two (jj_repo_key ''p'' ''r'') = [] \<or> \<not> is_undo (rd_op (last (ref_log sample_two (jj_repo_key ''p'' ''r''))))"
    by code_simp
  moreover obtain y where "undo_validated reference_jj ''p'' ''r'' ''ann'' (\<lambda>_. accept_all) sample_two = (Inr y, sample_undone)"
    using sample_runs(3) by blast
  ultimately show "ref_ok sample_undone"
    using rjj.undo_result [OF two _ refl, where validate = "\<lambda>_. accept_all"] accept_all_calm(1) unfolding publishes_def by blast
  then show "ref_ok sample_three" using wrote sample_runs(4) by blast
qed

theorem publication_atomic_witness:
  "\<exists>w c r sn (u :: ref_state) v. sample_write ''one'' empty_ref = (Inr w, sample_one) \<and> ref_ok empty_ref \<and> ref_log sample_one ''p/r'' = [r]
     \<and> describes reference_jj sample_one w c r \<and> accept_all sn u = (Inr (), v) \<and> sn_final_tree sn = cm_tree c"
proof -
  obtain w where w: "sample_write ''one'' empty_ref = (Inr w, sample_one)" using sample_runs(1) by blast
  have "jj_repo_key ''p'' ''r'' = ''p/r''" "ref_log empty_ref ''p/r'' = []" by code_simp+
  moreover obtain c r sn v and u :: ref_state where "publishes reference_jj (\<lambda>s T. True) ref_ok ref_log (jj_repo_key ''p'' ''r'') r empty_ref sample_one"
      "describes reference_jj sample_one w c r" "accept_all sn u = (Inr (), v)" "sn_final_tree sn = cm_tree c"
    using publication_atomic [OF rjj.jj_store_axioms ref_ok_empty accept_all_calm(1) w [unfolded sample_write_def]]
    by (simp only: sum.case) blast
  ultimately have "ref_log sample_one ''p/r'' = [r]" "describes reference_jj sample_one w c r" "accept_all sn u = (Inr (), v)"
    "sn_final_tree sn = cm_tree c" by (simp_all add: publishes_def)
  then show ?thesis using w ref_ok_empty by blast
qed

theorem correlated_write_recovered_witness:
  "\<exists>w u. sample_write ''one'' empty_ref = (Inr w, sample_one)
     \<and> find_correlated_write reference_jj ''p'' ''r'' ''main'' [(''key'', ''one'')] sample_two = (Inr (Some w), u)"
proof -
  let ?k = "jj_repo_key ''p'' ''r''"
  obtain w where w: "sample_write ''one'' empty_ref = (Inr w, sample_one)" using sample_runs(1) by blast
  obtain w2 where w2: "sample_write ''two'' sample_one = (Inr w2, sample_two)" using sample_runs(2) by blast
  have keeps: "keeps reference_jj (\<lambda>s T. True) sample_one sample_two"
    using rjj.commit_changes_keeps [OF sample_ok(1) _ w2 [unfolded sample_write_def]] accept_all_calm(1) by blast
  have later: "ref_log sample_two ?k = [hd (ref_log sample_two ?k)] @ ref_log sample_one ?k"
      "\<forall>q \<in> set [hd (ref_log sample_two ?k)]. \<not> carries [(''key'', ''one'')] q" "\<forall>q \<in> set (ref_log empty_ref ?k). \<not> carries [(''key'', ''one'')] q"
    by code_simp+
  have "load_repo reference_jj ?k sample_two = (Inr (head_repo ref_root (ref_log sample_two ?k)), sample_two)"
    by (simp add: load_repo_def reference_jj_def io_bind_def jj_read_def map_jj_def io_return_def jj_do_def)
  note load = this this
  have "find_correlated_write reference_jj ''p'' ''r'' ''main'' [(''key'', ''one'')] sample_two = (Inr (Some w), sample_two)"
    by (rule correlated_write_recovered [OF rjj.jj_store_axioms ref_ok_empty accept_all_calm(1) _ _ later(3) w [unfolded sample_write_def]
        sample_ok(2) keeps later(1,2) load]) (simp_all add: bt_ok_def)
  then show ?thesis using w by blast
qed

theorem undo_walks_back_witness:
  "rd_view (head_repo ref_root (ref_log sample_undone ''p/r'')) = rd_view (head_repo ref_root (ref_log sample_one ''p/r''))
    \<and> sample_shows sample_two = Some (ascii_bytes ''two'') \<and> sample_shows sample_undone = Some (ascii_bytes ''one'')"
proof -
  have "\<forall>r \<in> set (ref_log sample_two (jj_repo_key ''p'' ''r'')). \<not> is_undo (rd_op r)" by code_simp
  moreover have "undo_times reference_jj ''p'' ''r'' ''ann'' (\<lambda>_. accept_all) 1 sample_two = (Inr (), sample_undone)"
    using sample_runs(3) by (auto simp: io_bind_def io_return_def)
  ultimately have "rd_view (head_repo ref_root (ref_log sample_undone (jj_repo_key ''p'' ''r'')))
      = (map rd_view (ref_log sample_two (jj_repo_key ''p'' ''r'')) @ [rd_view ref_root]) ! 1"
    using undo_walks_back [OF rjj.jj_store_axioms sample_ok(2) _ accept_all_calm(2)] by blast
  moreover have "(map rd_view (ref_log sample_two (jj_repo_key ''p'' ''r'')) @ [rd_view ref_root]) ! 1
      = rd_view (head_repo ref_root (ref_log sample_one ''p/r''))" "jj_repo_key ''p'' ''r'' = ''p/r''" by code_simp+
  moreover have "sample_shows sample_two = Some (ascii_bytes ''two'')" "sample_shows sample_undone = Some (ascii_bytes ''one'')" by code_simp+
  ultimately show ?thesis by simp
qed

theorem undo_brings_back_undone_witness:
  "\<exists>y t. undo_validated reference_jj ''p'' ''r'' ''ann'' (\<lambda>_. accept_all) sample_three = (Inr y, t)
     \<and> rd_view (head_repo ref_root (ref_log t ''p/r'')) = rd_view (head_repo ref_root (ref_log sample_two ''p/r''))
     \<and> sample_shows sample_undone = Some (ascii_bytes ''one'') \<and> sample_shows t = Some (ascii_bytes ''two'')"
proof -
  let ?k = "jj_repo_key ''p'' ''r''" and ?run = "undo_validated reference_jj ''p'' ''r'' ''ann'' (\<lambda>_. accept_all) sample_three"
  let ?L = "ref_log sample_three ?k"
  have log: "?L = ?L ! 0 # ?L ! 1 # ?L ! 2 # drop 3 ?L" "\<not> is_undo (rd_op (?L ! 0))" "is_undo (rd_op (?L ! 1))"
      "\<forall>r \<in> set (?L ! 2 # drop 3 ?L). \<not> is_undo (rd_op r)" by code_simp+
  have "\<not> isl (fst ?run)" by code_simp
  then obtain y t where t: "?run = (Inr y, t)" by (cases ?run; cases "fst ?run") auto
  have "rd_view (head_repo ref_root (ref_log t ?k)) = rd_view (?L ! 2)"
    by (rule undo_brings_back_undone [OF rjj.jj_store_axioms sample_ok(4) log accept_all_calm(2) t])
  moreover have "rd_view (?L ! 2) = rd_view (head_repo ref_root (ref_log sample_two ''p/r''))" "?k = ''p/r''" by code_simp+
  moreover have "sample_shows (snd ?run) = Some (ascii_bytes ''two'')" "sample_shows sample_undone = Some (ascii_bytes ''one'')" by code_simp+
  ultimately show ?thesis using t by simp
qed

end
