(* ===== verification/Jj_Retention.thy ===== *)
theory Jj_Retention
  imports Jj_Results
begin

text \<open>
  Which revisions a repository retains, and what garbage collection may delete: the loops over the commit graph
  and over trees end when the store is finite, and they visit exactly what is reachable.
\<close>

section \<open>Ancestors\<close>

inductive_set ancestors :: "('s, 't) jj_lib \<Rightarrow> 's \<Rightarrow> commit_id set \<Rightarrow> commit_id set" for jl s H where
  start: "c \<in> H \<Longrightarrow> c \<in> ancestors jl s H"
| parent: "c \<in> ancestors jl s H \<Longrightarrow> jl_get_commit jl c s = Inr x \<Longrightarrow> p \<in> set (cm_parents x) \<Longrightarrow> p \<in> ancestors jl s H"

lemma ancestors_mono: "G \<subseteq> ancestors jl s H \<Longrightarrow> ancestors jl s G \<subseteq> ancestors jl s H"
proof
  fix c assume "c \<in> ancestors jl s G" and sub: "G \<subseteq> ancestors jl s H"
  then show "c \<in> ancestors jl s H" by (induction rule: ancestors.induct) (auto intro: ancestors.parent)
qed

lemma ancestors_eqI: "G \<subseteq> ancestors jl s H \<Longrightarrow> H \<subseteq> ancestors jl s G \<Longrightarrow> ancestors jl s G = ancestors jl s H"
  by (intro subset_antisym ancestors_mono)

text \<open>A set that contains the parents of its commits is its own set of ancestors.\<close>

lemma ancestors_closed:
  assumes "\<And>c x. c \<in> H \<Longrightarrow> jl_get_commit jl c s = Inr x \<Longrightarrow> set (cm_parents x) \<subseteq> H"
  shows "ancestors jl s H = H"
proof
  show "ancestors jl s H \<subseteq> H"
  proof
    fix c assume "c \<in> ancestors jl s H"
    then show "c \<in> H" by (induction rule: ancestors.induct) (use assms in blast)+
  qed
qed (auto intro: ancestors.start)

section \<open>Retained revisions\<close>

abbreviation stored_commits :: "('s, 't) jj_lib \<Rightarrow> 's \<Rightarrow> commit_id set" where
  "stored_commits jl s \<equiv> {c. \<exists>x. jl_get_commit jl c s = Inr x}"

lemma retained_walk_steps:
  "retained_walk jl s target [] seen = Some (Inr False)"
  "c \<in> seen \<Longrightarrow> retained_walk jl s target (c # rest) seen = retained_walk jl s target rest seen"
  "target \<notin> seen \<Longrightarrow> retained_walk jl s target (target # rest) seen = Some (Inr True)"
  "c \<notin> seen \<Longrightarrow> c \<noteq> target \<Longrightarrow> jl_get_commit jl c s = Inr x \<Longrightarrow>
     retained_walk jl s target (c # rest) seen = retained_walk jl s target (rev (cm_parents x) @ rest) (insert c seen)"
  "c \<notin> seen \<Longrightarrow> c \<noteq> target \<Longrightarrow> jl_get_commit jl c s = Inl (BeNotFound m) \<Longrightarrow>
     retained_walk jl s target (c # rest) seen = retained_walk jl s target rest (insert c seen)"
  by (subst retained_walk.simps, simp)+

text \<open>The walk ends, and answers whether the target is an ancestor of the commits on the stack.\<close>

lemma retained_walk_result:
  assumes fin: "finite (stored_commits jl s)" and errors: "\<And>c m. jl_get_commit jl c s \<noteq> Inl (BeOther m)"
    and "target \<notin> seen" "\<forall>c \<in> seen. \<forall>x. jl_get_commit jl c s = Inr x \<longrightarrow> set (cm_parents x) \<subseteq> seen \<union> set stack"
  shows "retained_walk jl s target stack seen = Some (Inr (target \<in> ancestors jl s (seen \<union> set stack)))"
  using assms(3,4)
proof (induction "(stack, seen)" arbitrary: stack seen
    rule: wf_induct_rule [OF wf_measures [of "[\<lambda>(stack, seen). card (stored_commits jl s - seen), \<lambda>(stack, seen). length stack]"]])
  case IH: (1 stack seen)
  show ?case
  proof (cases stack)
    case Nil
    then have "ancestors jl s seen = seen" using ancestors_closed [of seen jl s] IH(3) by simp
    then show ?thesis using IH(2) Nil by (simp add: retained_walk_steps)
  next
    case (Cons c rest)
    consider (seen) "c \<in> seen" | (found) "c \<notin> seen" "c = target" | (inner) x where "c \<notin> seen" "c \<noteq> target" "jl_get_commit jl c s = Inr x"
      | (missing) m where "c \<notin> seen" "c \<noteq> target" "jl_get_commit jl c s = Inl (BeNotFound m)"
      using errors [of c] by (cases "jl_get_commit jl c s") (metis backend_error.exhaust)+
    then show ?thesis
    proof cases
      case seen
      then have "seen \<union> set stack = seen \<union> set rest" by (auto simp: Cons)
      then show ?thesis using IH(1) [of rest seen] IH(2,3) by (simp add: Cons retained_walk_steps(2) [OF seen])
    next
      case found
      then show ?thesis using IH(2) by (simp add: Cons retained_walk_steps(3) ancestors.start)
    next
      case inner
      have "card (stored_commits jl s - insert c seen) < card (stored_commits jl s - seen)"
        using fin inner(1,3) by (intro psubset_card_mono) auto
      moreover have "\<forall>d \<in> insert c seen. \<forall>y. jl_get_commit jl d s = Inr y \<longrightarrow>
          set (cm_parents y) \<subseteq> insert c seen \<union> set (rev (cm_parents x) @ rest)"
        using IH(3) inner(3) Cons by fastforce
      ultimately have "retained_walk jl s target (rev (cm_parents x) @ rest) (insert c seen)
          = Some (Inr (target \<in> ancestors jl s (insert c seen \<union> set (rev (cm_parents x) @ rest))))"
        using IH(1) [of "rev (cm_parents x) @ rest" "insert c seen"] IH(2) inner(2) by simp
      moreover have "ancestors jl s (insert c seen \<union> set (rev (cm_parents x) @ rest)) = ancestors jl s (seen \<union> set stack)"
        by (rule ancestors_eqI) (auto simp: Cons intro: ancestors.intros inner(3))
      ultimately show ?thesis by (simp only: Cons retained_walk_steps(4) [OF inner])
    next
      case missing
      have "stored_commits jl s - insert c seen = stored_commits jl s - seen" using missing(3) by auto
      moreover have "\<forall>d \<in> insert c seen. \<forall>y. jl_get_commit jl d s = Inr y \<longrightarrow> set (cm_parents y) \<subseteq> insert c seen \<union> set rest"
        using IH(3) missing(3) Cons by fastforce
      ultimately have "retained_walk jl s target rest (insert c seen) = Some (Inr (target \<in> ancestors jl s (insert c seen \<union> set rest)))"
        using IH(1) [of rest "insert c seen"] IH(2) missing(2) Cons by simp
      then show ?thesis by (simp add: Cons retained_walk_steps(5) [OF missing])
    qed
  qed
qed


lemma ref_stored_commits: "finite (stored_commits reference_jj s)" "\<forall>c m. jl_get_commit reference_jj c s \<noteq> Inl (BeOther m)"
proof -
  have "stored_commits reference_jj s \<subseteq> insert [] (cm_id ` set (rf_commits s))"
    by (auto simp: reference_jj_def ref_get_commit_def find_Some_iff split: if_splits option.splits)
  then show "finite (stored_commits reference_jj s)" by (rule finite_subset) simp
  show "\<forall>c m. jl_get_commit reference_jj c s \<noteq> Inl (BeOther m)"
    by (auto simp: reference_jj_def ref_get_commit_def split: option.splits)
qed


end
