(* ===== verification/Jj_Sweep.thy ===== *)
theory Jj_Sweep
  imports Jj_Retention
begin

text \<open>
  Garbage collection keeps what a retained operation reaches: its commits with their ancestors, and the trees and files
  of those commits.
\<close>

section \<open>Marked values\<close>

text \<open>What a set of tree entries reaches through the trees in the store.\<close>

inductive_set reach :: "('s, 't) jj_lib \<Rightarrow> 's \<Rightarrow> tree_value set \<Rightarrow> tree_value set" for jl s V where
  start: "v \<in> V \<Longrightarrow> v \<in> reach jl s V"
| inside: "TvTree i \<in> reach jl s V \<Longrightarrow> jl_tree_values jl i s = Inr vs \<Longrightarrow> v \<in> set vs \<Longrightarrow> v \<in> reach jl s V"

fun marked :: "('s, 't) jj_lib \<Rightarrow> string set \<Rightarrow> string set \<Rightarrow> tree_value \<Rightarrow> bool" where
  "marked jl T F (TvFile f) \<longleftrightarrow> jl_hex jl f \<in> F"
| "marked jl T F (TvTree i) \<longleftrightarrow> jl_hex jl i \<in> T"
| "marked jl T F TvOther \<longleftrightarrow> True"

lemma marked_mono: "T \<subseteq> T' \<Longrightarrow> F \<subseteq> F' \<Longrightarrow> marked jl T F v \<Longrightarrow> marked jl T' F' v"
  by (cases v) auto

text \<open>Every marked tree outside \<open>old\<close> has been read, and its entries are marked.\<close>

definition entries_marked :: "('s, 't) jj_lib \<Rightarrow> 's \<Rightarrow> string set \<Rightarrow> string set \<Rightarrow> string set \<Rightarrow> bool" where
  "entries_marked jl s old T F \<longleftrightarrow>
     (\<forall>i. jl_hex jl i \<in> T - old \<longrightarrow> (\<exists>vs. jl_tree_values jl i s = Inr vs \<and> (\<forall>v \<in> set vs. marked jl T F v)))"

lemma entries_marked_trans:
  assumes "entries_marked jl s old T F" "entries_marked jl s T T' F'" "T \<subseteq> T'" "F \<subseteq> F'"
  shows "entries_marked jl s old T' F'"
  using assms unfolding entries_marked_def by (metis DiffD2 DiffI DiffD1 marked_mono)

definition values_marked :: "('s, 't) jj_lib \<Rightarrow> 's \<Rightarrow> tree_value list \<Rightarrow> string set \<Rightarrow> string set \<Rightarrow> string set \<times> string set \<Rightarrow> bool" where
  "values_marked jl s stack trees files marks \<longleftrightarrow> (case marks of (T, F) \<Rightarrow>
     trees \<subseteq> T \<and> files \<subseteq> F \<and> (\<forall>v \<in> set stack. marked jl T F v) \<and> entries_marked jl s trees T F)"

lemma values_marked_steps:
  "values_marked jl s [] trees files (trees, files)"
  "values_marked jl s rest trees (insert (jl_hex jl f) files) m \<Longrightarrow> values_marked jl s (TvFile f # rest) trees files m"
  "values_marked jl s rest trees files m \<Longrightarrow> values_marked jl s (TvOther # rest) trees files m"
  "values_marked jl s rest trees files m \<Longrightarrow> jl_hex jl i \<in> trees \<Longrightarrow> values_marked jl s (TvTree i # rest) trees files m"
  by (auto simp: values_marked_def entries_marked_def)

lemma values_marked_tree:
  assumes "inj (jl_hex jl)" "jl_tree_values jl i s = Inr vs" "values_marked jl s (vs @ rest) (insert (jl_hex jl i) trees) files m"
  shows "values_marked jl s (TvTree i # rest) trees files m"
proof -
  obtain T F where m: "m = (T, F)" by (cases m)
  have T: "insert (jl_hex jl i) trees \<subseteq> T" "files \<subseteq> F" "\<forall>v \<in> set (vs @ rest). marked jl T F v" "entries_marked jl s (insert (jl_hex jl i) trees) T F"
    using assms(3) by (simp_all add: m values_marked_def)
  have "\<exists>us. jl_tree_values jl j s = Inr us \<and> (\<forall>v \<in> set us. marked jl T F v)" if "jl_hex jl j \<in> T - trees" for j
  proof (cases "j = i")
    case True
    then show ?thesis using assms(2) T(3) by simp
  next
    case False
    then have "jl_hex jl j \<noteq> jl_hex jl i" using assms(1) by (simp add: inj_eq)
    then show ?thesis using T(4) that unfolding entries_marked_def by blast
  qed
  then show ?thesis using T by (simp add: m values_marked_def entries_marked_def)
qed

lemma mark_values_result:
  assumes "inj (jl_hex jl)" and "mark_values jl s stack trees files = Some (Inr m)"
  shows "values_marked jl s stack trees files m"
proof -
  let ?P = "\<lambda>jl s stack trees files (r :: jj_error + _). inj (jl_hex jl) \<longrightarrow> r = Inr m \<longrightarrow> values_marked jl s stack trees files m"
  have "?P jl s stack trees files (Inr m)"
  proof (rule mark_values.raw_induct [where P = ?P, OF _ assms(2)])
    fix rec jl s stack trees files r
    assume rec: "\<And>jl s stack trees files r. rec jl s stack trees files = Some r \<Longrightarrow> ?P jl s stack trees files r"
      and step: "(case stack of [] \<Rightarrow> Some (Inr (trees, files))
        | v # rest \<Rightarrow> (case v of TvFile f \<Rightarrow> rec jl s rest trees (insert (jl_hex jl f) files)
            | TvTree t \<Rightarrow> if jl_hex jl t \<in> trees then rec jl s rest trees files
                else (case jl_tree_values jl t s of Inl e \<Rightarrow> Some (Inl (JOther e))
                  | Inr vs \<Rightarrow> rec jl s (vs @ rest) (insert (jl_hex jl t) trees) files)
            | TvOther \<Rightarrow> rec jl s rest trees files)) = Some r"
    show "?P jl s stack trees files r"
    proof (intro impI)
      assume inj: "inj (jl_hex jl)" and r: "r = Inr m"
      have IH: "values_marked jl s st tr fi m" if "rec jl s st tr fi = Some (Inr m)" for st tr fi
        using rec [OF that] inj by simp
      show "values_marked jl s stack trees files m"
        using step r IH values_marked_steps(1) values_marked_steps(2-4) [of jl s] values_marked_tree [OF inj]
        by (auto split: list.splits tree_value.splits if_splits sum.splits)
    qed
  qed
  then show ?thesis using assms(1) by blast
qed

section \<open>Marked commits\<close>

lemma push_parents_result:
  assumes "push_parents jl ps commits queue = (commits', queue')"
  shows "commits \<subseteq> commits' \<and> set queue \<subseteq> set queue' \<and> commits' - commits \<subseteq> set queue'
    \<and> (\<forall>p \<in> set ps. p = jl_root_commit jl \<or> jl_hex jl p \<in> commits')"
  using assms
proof (induction ps arbitrary: commits queue)
  case (Cons p ps)
  show ?case
  proof (cases "p \<noteq> jl_root_commit jl \<and> jl_hex jl p \<notin> commits")
    case True
    then show ?thesis using Cons.prems Cons.IH [of "insert (jl_hex jl p) commits" "jl_hex jl p # queue"] by auto
  next
    case False
    then show ?thesis using Cons.prems Cons.IH [of commits queue] by auto
  qed
qed simp

text \<open>The commit \<open>c\<close> has been visited: its parents and its trees are marked.\<close>

definition visited :: "('s, 't) jj_lib \<Rightarrow> 's \<Rightarrow> marks \<Rightarrow> commit_id \<Rightarrow> bool" where
  "visited jl s m c \<longleftrightarrow> c = jl_root_commit jl \<or> (\<exists>x. jl_get_commit jl c s = Inr x
     \<and> (\<forall>p \<in> set (cm_parents x). p = jl_root_commit jl \<or> jl_hex jl p \<in> mk_commits m)
     \<and> (\<forall>i \<in> set (jl_tree_ids jl (cm_tree x)). jl_hex jl i \<in> mk_trees m))"

definition commits_marked :: "('s, 't) jj_lib \<Rightarrow> 's \<Rightarrow> string list \<Rightarrow> marks \<Rightarrow> marks \<Rightarrow> bool" where
  "commits_marked jl s queue m m' \<longleftrightarrow> mk_commits m \<subseteq> mk_commits m' \<and> mk_trees m \<subseteq> mk_trees m' \<and> mk_files m \<subseteq> mk_files m'
     \<and> entries_marked jl s (mk_trees m) (mk_trees m') (mk_files m')
     \<and> (\<forall>c. jl_hex jl c \<in> mk_commits m' \<longrightarrow> jl_hex jl c \<in> mk_commits m - set queue \<or> visited jl s m' c)"

lemma visited_mono: "mk_commits m \<subseteq> mk_commits m' \<Longrightarrow> mk_trees m \<subseteq> mk_trees m' \<Longrightarrow> visited jl s m c \<Longrightarrow> visited jl s m' c"
  unfolding visited_def by blast

lemma commits_marked_nil: "commits_marked jl s [] m m"
  by (simp add: commits_marked_def entries_marked_def)

lemma commits_marked_root:
  assumes hex: "\<And>b. jl_from_hex jl (jl_hex jl b) = Some b" and root: "jl_from_hex jl h = Some (jl_root_commit jl)"
    and rest: "commits_marked jl s rest m m'"
  shows "commits_marked jl s (h # rest) m m'"
proof -
  have "visited jl s m' c" if "jl_hex jl c = h" for c
    using that hex [of c] root by (simp add: visited_def)
  then show ?thesis using rest unfolding commits_marked_def by auto
qed

lemma commits_marked_commit:
  assumes hex: "\<And>b. jl_from_hex jl (jl_hex jl b) = Some b" and h: "jl_from_hex jl h = Some cid"
    and x: "jl_get_commit jl cid s = Inr x"
    and trees: "values_marked jl s (map TvTree (jl_tree_ids jl (cm_tree x))) (mk_trees m) (mk_files m) (trees, files)"
    and push: "push_parents jl (cm_parents x) (mk_commits m) rest = (commits, queue)"
    and rest: "commits_marked jl s queue \<lparr>mk_commits = commits, mk_trees = trees, mk_files = files\<rparr> m'"
  shows "commits_marked jl s (h # rest) m m'"
proof -
  let ?m = "\<lparr>mk_commits = commits, mk_trees = trees, mk_files = files\<rparr>"
  note P = push_parents_result [OF push]
  have grow: "mk_commits m \<subseteq> mk_commits m'" "mk_trees m \<subseteq> trees" "mk_files m \<subseteq> files" "trees \<subseteq> mk_trees m'" "files \<subseteq> mk_files m'"
      "commits \<subseteq> mk_commits m'"
    using P trees rest by (auto simp: commits_marked_def values_marked_def)
  have "visited jl s ?m cid" using x P trees unfolding visited_def values_marked_def by auto
  then have cid: "visited jl s m' cid" using visited_mono [of ?m m'] grow by simp
  have "jl_hex jl c \<in> mk_commits m - set (h # rest) \<or> visited jl s m' c" if "jl_hex jl c \<in> mk_commits m'" for c
  proof (cases "jl_hex jl c = h")
    case True
    then show ?thesis using cid h hex [of c] by simp
  next
    case False
    then show ?thesis using that rest P unfolding commits_marked_def by auto
  qed
  moreover have "entries_marked jl s (mk_trees m) (mk_trees m') (mk_files m')"
    using trees rest grow entries_marked_trans [of jl s "mk_trees m" trees files "mk_trees m'" "mk_files m'"]
    by (simp add: values_marked_def commits_marked_def)
  ultimately show ?thesis using grow unfolding commits_marked_def by blast
qed

lemma mark_commits_result:
  assumes hex: "\<And>b. jl_from_hex jl (jl_hex jl b) = Some b" and run: "mark_commits jl s queue m = Some (Inr m')"
  shows "commits_marked jl s queue m m'"
proof -
  let ?P = "\<lambda>jl s queue m (r :: jj_error + _). (\<forall>b. jl_from_hex jl (jl_hex jl b) = Some b) \<longrightarrow> r = Inr m' \<longrightarrow> commits_marked jl s queue m m'"
  have "?P jl s queue m (Inr m')"
  proof (rule mark_commits.raw_induct [where P = ?P, OF _ run])
    fix rec jl s queue m r
    assume rec: "\<And>jl s queue m r. rec jl s queue m = Some r \<Longrightarrow> ?P jl s queue m r"
      and step: "(case queue of [] \<Rightarrow> Some (Inr m)
        | c_hex # rest \<Rightarrow> (case jl_from_hex jl c_hex of None \<Rightarrow> Some (Inl (JCorrupt (''malformed reachable commit hex: '' @ c_hex)))
           | Some cid \<Rightarrow> if cid = jl_root_commit jl then rec jl s rest m
               else (case jl_get_commit jl cid s of Inl e \<Rightarrow> Some (Inl (JOther (be_message e)))
                 | Inr commit \<Rightarrow>
                     (case mark_values jl s (map TvTree (jl_tree_ids jl (cm_tree commit))) (mk_trees m) (mk_files m) of None \<Rightarrow> None
                      | Some (Inl e) \<Rightarrow> Some (Inl e)
                      | Some (Inr (trees, files)) \<Rightarrow>
                          (case push_parents jl (cm_parents commit) (mk_commits m) rest of
                             (commits, queue') \<Rightarrow> rec jl s queue' \<lparr>mk_commits = commits, mk_trees = trees, mk_files = files\<rparr>))))) = Some r"
    show "?P jl s queue m r"
    proof (intro impI)
      assume hex: "\<forall>b. jl_from_hex jl (jl_hex jl b) = Some b" and r: "r = Inr m'"
      then have inj: "inj (jl_hex jl)" by (metis injI option.inject)
      have IH: "commits_marked jl s q n m'" if "rec jl s q n = Some (Inr m')" for q n
        using rec [OF that] hex by simp
      show "commits_marked jl s queue m m'"
        using step r hex IH commits_marked_nil commits_marked_root [of jl] commits_marked_commit [of jl] mark_values_result [OF inj]
        by (fastforce split: list.splits option.splits if_splits sum.splits prod.splits)
    qed
  qed
  then show ?thesis using hex by blast
qed

section \<open>Sweeping\<close>

text \<open>Commits, trees and files whose ids are in the given sets read the same.\<close>

definition spares :: "('s, 't) jj_lib \<Rightarrow> marks \<Rightarrow> 's \<Rightarrow> 's \<Rightarrow> bool" where
  "spares jl m s t \<longleftrightarrow> (\<forall>c. jl_hex jl c \<in> mk_commits m \<longrightarrow> jl_get_commit jl c t = jl_get_commit jl c s)
     \<and> (\<forall>i. jl_hex jl i \<in> mk_trees m \<longrightarrow> jl_tree_values jl i t = jl_tree_values jl i s)
     \<and> (\<forall>f. jl_hex jl f \<in> mk_files m \<longrightarrow> jl_read_file jl f t = jl_read_file jl f s)"

lemma spares_steps: "step_relation (spares jl m)"
  by unfold_locales (simp_all add: spares_def)

text \<open>Deleting an object of some kind affects no other object.\<close>

definition deletes :: "('s, 't) jj_lib \<Rightarrow> object_kind \<Rightarrow> bytes \<Rightarrow> 's \<Rightarrow> 's \<Rightarrow> bool" where
  "deletes jl kind i s t \<longleftrightarrow> (\<forall>c. (kind, i) \<noteq> (KCommit, c) \<longrightarrow> jl_get_commit jl c t = jl_get_commit jl c s)
     \<and> (\<forall>j. (kind, i) \<noteq> (KTree, j) \<longrightarrow> jl_tree_values jl j t = jl_tree_values jl j s)
     \<and> (\<forall>f. (kind, i) \<noteq> (KFile, f) \<longrightarrow> jl_read_file jl f t = jl_read_file jl f s)"

locale jj_objects = jj_store +
  assumes list_ops: "ok s \<Longrightarrow> jl_list_ops jl k s = Inr ids \<Longrightarrow> r \<in> set (log s k) \<Longrightarrow> rd_id r \<in> set ids"
    and operation_view: "ok s \<Longrightarrow> r \<in> set (log s k) \<Longrightarrow> jl_operation_view jl (rd_op r) s = Inr (rd_view r)"
    and root_commit: "jl_get_commit jl (jl_root_commit jl) s = Inr x \<Longrightarrow> cm_parents x = []"
    and delete_object: "jl_delete_object jl kind i s = (y, t) \<Longrightarrow> deletes jl kind i s t"
begin

lemma hex_inj: "inj (jl_hex jl)"
  by (metis hex injI option.inject)

lemma sweep_objects_spares:
  assumes keep: "kind = KCommit \<Longrightarrow> mk_commits m \<subseteq> keep" "kind = KTree \<Longrightarrow> mk_trees m \<subseteq> keep" "kind = KFile \<Longrightarrow> mk_files m \<subseteq> keep"
  shows "obeys (spares jl m) (sweep_objects jl kind keep ids)"
proof (induction ids)
  case Nil
  then show ?case by (simp add: step_relation.obeys_pure [OF spares_steps])
next
  case (Cons i ids)
  have "obeys (spares jl m) (jj_db_do (jl_delete_object jl kind i))" if "jl_hex jl i \<notin> keep"
  proof (rule step_relation.obeys_do(2) [OF spares_steps])
    fix s y t assume "jl_delete_object jl kind i s = (y, t)"
    from delete_object [OF this] show "spares jl m s t"
      using keep that unfolding deletes_def spares_def by (cases kind) auto
  qed
  then show ?case using Cons.IH
    by (auto intro!: step_relation.obeys_bind [OF spares_steps] step_relation.obeys_pure [OF spares_steps])
qed

lemma sweep_spares:
  assumes "kind = KCommit \<Longrightarrow> mk_commits m \<subseteq> keep" "kind = KTree \<Longrightarrow> mk_trees m \<subseteq> keep" "kind = KFile \<Longrightarrow> mk_files m \<subseteq> keep"
  shows "obeys (spares jl m) (sweep jl kind keep)"
  unfolding sweep_def
  by (intro step_relation.obeys_bind [OF spares_steps] step_relation.obeys_reads(2) [OF spares_steps] sweep_objects_spares assms)

section \<open>Roots\<close>

lemma operation_roots_result:
  assumes "operation_roots jl k ids s = (Inr (views, commits), t)" and "i \<in> set ids" "i \<noteq> jl_root_op jl"
    "jl_load_operation jl k i s = Inr op" "jl_operation_view jl op s = Inr v"
  shows "jl_hex jl ` set (view_commits v) \<subseteq> set commits"
  using assms(1,2)
proof (induction ids arbitrary: views commits)
  case (Cons j ids)
  show ?case
  proof (cases "j = jl_root_op jl")
    case True
    then show ?thesis using Cons.prems Cons.IH assms(3) by auto
  next
    case False
    obtain op' v' views' commits' where j: "jl_load_operation jl k j s = Inr op'" "jl_operation_view jl op' s = Inr v'"
        "operation_roots jl k ids s = (Inr (views', commits'), t)" "commits = map (jl_hex jl) (view_commits v') @ commits'"
      using Cons.prems(1) False by (auto elim!: io_InrE simp: jj_run io_run)
    show ?thesis
    proof (cases "i = j")
      case True
      then show ?thesis using j assms(4,5) by auto
    next
      case False
      then show ?thesis using Cons.IH [OF j(3)] Cons.prems(2) j(4) by auto
    qed
  qed
qed simp

lemma operation_roots_same: "operation_roots jl k ids s = (x, t) \<Longrightarrow> t = s"
proof -
  have "step_relation ((=) :: 'a \<Rightarrow> 'a \<Rightarrow> bool)" by unfold_locales auto
  note [intro!] = step_relation.obeys_bind [OF this] step_relation.obeys_pure [OF this] step_relation.obeys_reads [OF this] step_relation.obeys_prod [OF this]
  have "obeys (=) (operation_roots jl k ids)" by (induction ids) auto
  then show "operation_roots jl k ids s = (x, t) \<Longrightarrow> t = s" by (auto dest: obeysD)
qed

lemma repository_roots_result:
  assumes "ok s" and "repository_roots jl ks s = (Inr (views, commits), t)"
  shows "calm jl stored ok log s t" and "k \<in> set ks \<Longrightarrow> r \<in> set (log s k) \<Longrightarrow> jl_hex jl ` set (view_commits (rd_view r)) \<subseteq> set commits"
proof -
  have "calm jl stored ok log s t \<and> (k \<in> set ks \<longrightarrow> r \<in> set (log s k) \<longrightarrow> jl_hex jl ` set (view_commits (rd_view r)) \<subseteq> set commits)"
    using assms
  proof (induction ks arbitrary: s views commits)
    case Nil
    then show ?case by (simp add: io_run calm_def)
  next
    case (Cons j ks)
    obtain h s1 ids vw cs views' commits' where j: "load_repo jl j s = (Inr h, s1)" "jl_list_ops jl j s1 = Inr ids"
        "operation_roots jl j ids s1 = (Inr (vw, cs), s1)" "repository_roots jl ks s1 = (Inr (views', commits'), t)" "commits = cs @ commits'"
      using Cons.prems(2) operation_roots_same
      by (auto elim!: io_InrE case_prod_runE simp: jj_db_def map_err_Inr io_run) blast
    note L = load_repo_head [OF Cons.prems(1) j(1)]
    note IH = Cons.IH [OF L(2) j(4)]
    have "calm jl stored ok log s t" using IH step_trans [OF obeysD [OF calm_load_repo j(1)]] by blast
    moreover have "jl_hex jl ` set (view_commits (rd_view r)) \<subseteq> set cs" if r: "k = j" "r \<in> set (log s k)"
    proof -
      have r1: "r \<in> set (log s1 j)" using r L(4) by simp
      show ?thesis
        using operation_roots_result [OF j(3) list_ops [OF L(2) j(2) r1] linked_ids [OF log_linked [OF L(2)] r1] load_operation [OF L(2)]
            operation_view [OF L(2) r1]] r1 by blast
    qed
    ultimately show ?case using IH L(4) j(5) by auto
  qed
  then show "calm jl stored ok log s t" "k \<in> set ks \<Longrightarrow> r \<in> set (log s k) \<Longrightarrow> jl_hex jl ` set (view_commits (rd_view r)) \<subseteq> set commits"
    by blast+
qed

section \<open>Collection\<close>

lemma gc_result:
  assumes ok: "ok s" and run: "gc jl repos s = (Inr n, t)" and keys: "jl_list_repo_keys jl s = Inr keys"
    and k: "k \<in> set keys \<union> (\<lambda>(project, repo). jj_repo_key project repo) ` set repos" and r: "r \<in> set (log s k)"
  obtains m s1 where "calm jl stored ok log s s1" "spares jl m s1 t" "\<forall>c. jl_hex jl c \<in> mk_commits m \<longrightarrow> visited jl s1 m c"
    "entries_marked jl s1 {} (mk_trees m) (mk_files m)" "jl_hex jl ` set (view_commits (rd_view r)) \<subseteq> mk_commits m"
proof -
  let ?keys = "remdups_adj (sort (keys @ map (\<lambda>(project, repo). jj_repo_key project repo) repos))"
  have kin: "k \<in> set ?keys" using k by simp
  then have "?keys \<noteq> []" by (metis empty_iff empty_set)
  then obtain views commits s1 m n1 s2 n2 s3 n3 s4 n4 where roots: "repository_roots jl ?keys s = (Inr (views, commits), s1)"
      and mark: "mark_commits jl s1 (remdups commits) \<lparr>mk_commits = set commits, mk_trees = {}, mk_files = {}\<rparr> = Some (Inr m)"
      and sweeps: "sweep jl KCommit (mk_commits m) s1 = (Inr n1, s2)" "sweep jl KTree (mk_trees m) s2 = (Inr n2, s3)"
        "sweep jl KFile (mk_files m) s3 = (Inr n3, s4)" "sweep jl KView (set views) s4 = (Inr n4, t)"
    using run unfolding gc_def Let_def
    by (auto elim!: io_InrE case_prod_runE simp: jj_db_def keys map_err_Inr jj_loop_def io_run split: option.splits)
  note R = repository_roots_result [OF ok roots]
  note M = mark_commits_result [OF hex mark]
  have sp: "spares jl m s1 s2" "spares jl m s2 s3" "spares jl m s3 s4" "spares jl m s4 t"
    by (rule obeysD [OF sweep_spares sweeps(1)] obeysD [OF sweep_spares sweeps(2)] obeysD [OF sweep_spares sweeps(3)]
        obeysD [OF sweep_spares sweeps(4)]; simp)+
  have "spares jl m s1 t" using sp step_relation.step_trans [OF spares_steps] by metis
  moreover have "\<forall>c. jl_hex jl c \<in> mk_commits m \<longrightarrow> visited jl s1 m c" "entries_marked jl s1 {} (mk_trees m) (mk_files m)"
    "jl_hex jl ` set (view_commits (rd_view r)) \<subseteq> mk_commits m"
    using M R(2) [OF kin r] unfolding commits_marked_def by auto
  ultimately show thesis using that R(1) by blast
qed

lemma ancestors_marked:
  assumes s1: "keeps jl stored s s1" and m: "\<forall>c. jl_hex jl c \<in> mk_commits m \<longrightarrow> visited jl s1 m c" "jl_hex jl ` H \<subseteq> mk_commits m"
    and "c \<in> ancestors jl s H"
  shows "c = jl_root_commit jl \<or> jl_hex jl c \<in> mk_commits m"
  using assms(4)
proof (induction rule: ancestors.induct)
  case (start c)
  then show ?case using m(2) by blast
next
  case (parent c x p)
  then have "c \<noteq> jl_root_commit jl" using root_commit [of s x] by auto
  then have "visited jl s1 m c" "jl_get_commit jl c s1 = Inr x" using parent m(1) s1 unfolding keeps_def by blast+
  then show ?case using parent(3) \<open>c \<noteq> jl_root_commit jl\<close> unfolding visited_def by auto
qed

lemma reach_marked:
  assumes s1: "keeps jl stored s s1" and m: "entries_marked jl s1 {} T F" "\<forall>v \<in> V. marked jl T F v" and "v \<in> reach jl s V"
  shows "marked jl T F v"
  using assms(4)
proof (induction rule: reach.induct)
  case (inside i vs v)
  then have "jl_tree_values jl i s1 = Inr vs" "jl_hex jl i \<in> T" using s1 unfolding keeps_def by auto
  then show ?case using m(1) inside(3) unfolding entries_marked_def by auto
qed (use m(2) in blast)

end


section \<open>The in-memory implementation\<close>

lemma ref_operation_view:
  assumes "ref_ok s" "r \<in> set (ref_log s k)"
  shows "jl_operation_view reference_jj (rd_op r) s = Inr (rd_view r)"
proof -
  let ?all = "concat (map snd (rf_logs s)) @ [ref_root]"
  have all: "q \<in> set ?all \<longleftrightarrow> q = ref_root \<or> (\<exists>j. q \<in> set (ref_log s j))" for q
  proof -
    have "(\<exists>j. q \<in> set (ref_log s j)) \<longleftrightarrow> (\<exists>j L. (j, L) \<in> set (rf_logs s) \<and> q \<in> set L)"
      unfolding ref_log_def using bt_ok_distinct [OF ref_okD(7) [OF assms(1)]]
      by (fastforce split: option.splits dest: map_of_SomeD)
    then show ?thesis by fastforce
  qed
  have "find (\<lambda>q. rd_op q = rd_op r) ?all = Some r"
  proof (rule find_unique)
    show "r \<in> set ?all" using all assms(2) by blast
    show "\<forall>q \<in> set ?all. rd_op q = rd_op r \<longrightarrow> q = r"
    proof (intro ballI impI)
      fix q assume "q \<in> set ?all" and same: "rd_op q = rd_op r"
      then consider "q = ref_root" | j where "q \<in> set (ref_log s j)" using all by blast
      then show "q = r"
      proof cases
        case 1
        then have "rd_id r = []" using same by (metis ref_root_id(1))
        then show ?thesis using ref_okD(2) [OF assms] by simp
      next
        case 2
        then show ?thesis using ref_okD(6) [OF assms(1) 2 assms(2)] same by simp
      qed
    qed
  qed simp
  then show ?thesis by (simp add: reference_jj_def ref_find_def)
qed

interpretation rjo: jj_objects reference_jj "\<lambda>s T. True" ref_ok ref_log ref_root
proof unfold_locales
  fix kind i s y t assume "jl_delete_object reference_jj kind i s = (y, t)"
  moreover have "find (\<lambda>c. cm_id c = d) (filter (\<lambda>c. cm_id c \<noteq> i) cs) = find (\<lambda>c. cm_id c = d) cs" if "d \<noteq> i" for d and cs :: "ref_tree commit list"
    using that by (induction cs) auto
  ultimately show "deletes reference_jj kind i s t"
    by (auto simp: deletes_def reference_jj_def ref_get_commit_def split: if_splits)
qed (auto simp: ref_operation_view, auto simp: reference_jj_def ref_get_commit_def ref_root_commit_def)

text \<open>A commit that no operation has published, as a failed publication leaves it behind.\<close>

definition sample_garbage :: ref_state where
  "sample_garbage = sample_three\<lparr>rf_commits := (sample_commit 6 [1] 5 ''lost'')\<lparr>cm_id := [9]\<rparr> # rf_commits sample_three\<rparr>"


end
