(* ===== verification/Proto_Types.thy ===== *)
theory Proto_Types
  imports Core_Error Effects Strings
begin

text \<open>
  The protobuf descriptors that the protobuf compiler (\<open>schemahub-compiler-protobuf\<close>) stores and edits.  Their types
  belong to the package \<open>protoc-rs-schema\<close>; the records have the fields that \<open>codec.rs\<close> writes, which are
  all but the parser-only \<open>source_span\<close>.  What the code calls of that package is the record \<open>proto_lib\<close>.
  An \<open>i32\<close> is a \<open>32 word\<close> read with \<open>sint\<close>, a \<open>String\<close> is the list of its bytes.
\<close>

type_synonym i32 = "32 word"
type_synonym i64 = "64 word"
type_synonym u64 = "64 word"

section \<open>Enumerations\<close>

text \<open>The field types that the code names; the others, all scalars, are numbered.\<close>

datatype field_type = FtMessage | FtEnum | FtGroup | FtScalar "8 word"

datatype field_label = LOptional | LRequired | LRepeated
datatype proto_visibility = VExport | VLocal
datatype optimize_mode = OSpeed | OCodeSize | OLiteRuntime
datatype field_ctype = CtString | CtCord | CtStringPiece
datatype field_js_type = JsNormal | JsString | JsNumber
datatype idempotency_level = IdempotencyUnknown | NoSideEffects | IdIdempotent

datatype wire_type = LengthDelimited | WireOther nat

record proto_lib =
  pl_type_int :: "field_type \<Rightarrow> i32"
  pl_type_from_int :: "i32 \<Rightarrow> field_type option"
  pl_type_name :: "field_type \<Rightarrow> string"
  pl_type_from_name :: "string \<Rightarrow> field_type option"
  pl_wire_type :: "field_type \<Rightarrow> wire_type"
  pl_label_int :: "field_label \<Rightarrow> i32"
  pl_label_from_int :: "i32 \<Rightarrow> field_label option"
  pl_visibility_int :: "proto_visibility \<Rightarrow> i32"
  pl_optimize_int :: "optimize_mode \<Rightarrow> i32"
  pl_ctype_int :: "field_ctype \<Rightarrow> i32"
  pl_jstype_int :: "field_js_type \<Rightarrow> i32"
  pl_idempotency_int :: "idempotency_level \<Rightarrow> i32"
  pl_camel_case :: "string \<Rightarrow> string"

section \<open>Options\<close>

record name_part =
  np_name_part :: string
  np_is_extension :: bool

record uninterpreted_option =
  uo_name :: "name_part list"
  uo_identifier_value :: "string option"
  uo_positive_int_value :: "u64 option"
  uo_negative_int_value :: "i64 option"
  uo_double_value :: "string option"
  uo_string_value :: "bytes option"
  uo_aggregate_value :: "string option"

record file_options =
  fo_java_package :: "string option"
  fo_java_outer_classname :: "string option"
  fo_java_multiple_files :: "bool option"
  fo_java_generate_equals_and_hash :: "bool option"
  fo_java_string_check_utf8 :: "bool option"
  fo_optimize_for :: "optimize_mode option"
  fo_go_package :: "string option"
  fo_cc_generic_services :: "bool option"
  fo_java_generic_services :: "bool option"
  fo_py_generic_services :: "bool option"
  fo_deprecated :: "bool option"
  fo_cc_enable_arenas :: "bool option"
  fo_objc_class_prefix :: "string option"
  fo_csharp_namespace :: "string option"
  fo_swift_prefix :: "string option"
  fo_php_class_prefix :: "string option"
  fo_php_namespace :: "string option"
  fo_php_metadata_namespace :: "string option"
  fo_ruby_package :: "string option"
  fo_uninterpreted_option :: "uninterpreted_option list"

record message_options =
  mo_message_set_wire_format :: "bool option"
  mo_no_standard_descriptor_accessor :: "bool option"
  mo_deprecated :: "bool option"
  mo_map_entry :: "bool option"
  mo_uninterpreted_option :: "uninterpreted_option list"

record field_options =
  fp_ctype :: "field_ctype option"
  fp_packed :: "bool option"
  fp_jstype :: "field_js_type option"
  fp_lazy :: "bool option"
  fp_deprecated :: "bool option"
  fp_weak :: "bool option"
  fp_uninterpreted_option :: "uninterpreted_option list"

record oneof_options =
  oo_uninterpreted_option :: "uninterpreted_option list"

record enum_options =
  eo_allow_alias :: "bool option"
  eo_deprecated :: "bool option"
  eo_uninterpreted_option :: "uninterpreted_option list"

record enum_value_options =
  vo_deprecated :: "bool option"
  vo_uninterpreted_option :: "uninterpreted_option list"

record service_options =
  so_deprecated :: "bool option"
  so_uninterpreted_option :: "uninterpreted_option list"

record method_options =
  to_deprecated :: "bool option"
  to_idempotency_level :: "idempotency_level option"
  to_uninterpreted_option :: "uninterpreted_option list"

record extension_range_options =
  xo_uninterpreted_option :: "uninterpreted_option list"

section \<open>Declarations\<close>

record extension_range =
  xr_start :: "i32 option"
  xr_end :: "i32 option"
  xr_options :: "extension_range_options option"

record reserved_range =
  rr_start :: "i32 option"
  rr_end :: "i32 option"

record oneof_descriptor =
  od_name :: "string option"
  od_options :: "oneof_options option"

record field_descriptor =
  fd_name :: "string option"
  fd_number :: "i32 option"
  fd_label :: "field_label option"
  fd_type :: "field_type option"
  fd_type_name :: "string option"
  fd_extendee :: "string option"
  fd_default_value :: "string option"
  fd_oneof_index :: "i32 option"
  fd_json_name :: "string option"
  fd_options :: "field_options option"
  fd_proto3_optional :: "bool option"

record enum_value_descriptor =
  ev_name :: "string option"
  ev_number :: "i32 option"
  ev_options :: "enum_value_options option"

record enum_descriptor =
  ed_name :: "string option"
  ed_value :: "enum_value_descriptor list"
  ed_options :: "enum_options option"
  ed_reserved_range :: "reserved_range list"
  ed_reserved_name :: "string list"
  ed_visibility :: "proto_visibility option"

record method_descriptor =
  md_name :: "string option"
  md_input_type :: "string option"
  md_output_type :: "string option"
  md_options :: "method_options option"
  md_client_streaming :: "bool option"
  md_server_streaming :: "bool option"

record service_descriptor =
  sd_name :: "string option"
  sd_method :: "method_descriptor list"
  sd_options :: "service_options option"

text \<open>A message descriptor contains message descriptors; it has an updating function per field that the code assigns.\<close>

datatype descriptor = Descriptor
  (dp_name: "string option")
  (dp_field: "field_descriptor list")
  (dp_extension: "field_descriptor list")
  (dp_nested_type: "descriptor list")
  (dp_enum_type: "enum_descriptor list")
  (dp_extension_range: "extension_range list")
  (dp_oneof_decl: "oneof_descriptor list")
  (dp_options: "message_options option")
  (dp_reserved_range: "reserved_range list")
  (dp_reserved_name: "string list")
  (dp_visibility: "proto_visibility option")

primrec dp_set_name :: "string option \<Rightarrow> descriptor \<Rightarrow> descriptor" where
  "dp_set_name v (Descriptor n f x ns e r od o' rr rn vis) = Descriptor v f x ns e r od o' rr rn vis"

primrec dp_set_field :: "field_descriptor list \<Rightarrow> descriptor \<Rightarrow> descriptor" where
  "dp_set_field v (Descriptor n f x ns e r od o' rr rn vis) = Descriptor n v x ns e r od o' rr rn vis"

primrec dp_set_oneof_decl :: "oneof_descriptor list \<Rightarrow> descriptor \<Rightarrow> descriptor" where
  "dp_set_oneof_decl v (Descriptor n f x ns e r od o' rr rn vis) = Descriptor n f x ns e r v o' rr rn vis"

primrec dp_set_reserved_range :: "reserved_range list \<Rightarrow> descriptor \<Rightarrow> descriptor" where
  "dp_set_reserved_range v (Descriptor n f x ns e r od o' rr rn vis) = Descriptor n f x ns e r od o' v rn vis"

primrec dp_set_reserved_name :: "string list \<Rightarrow> descriptor \<Rightarrow> descriptor" where
  "dp_set_reserved_name v (Descriptor n f x ns e r od o' rr rn vis) = Descriptor n f x ns e r od o' rr v vis"

lemma dp_set_simps [simp]:
  "dp_name (dp_set_name v m) = v" "dp_field (dp_set_name v m) = dp_field m" "dp_reserved_range (dp_set_name v m) = dp_reserved_range m"
  "dp_name (dp_set_field fs m) = dp_name m" "dp_field (dp_set_field fs m) = fs" "dp_reserved_range (dp_set_field fs m) = dp_reserved_range m"
  "dp_reserved_name (dp_set_field fs m) = dp_reserved_name m"
  "dp_name (dp_set_oneof_decl os m) = dp_name m" "dp_field (dp_set_oneof_decl os m) = dp_field m"
  "dp_reserved_range (dp_set_oneof_decl os m) = dp_reserved_range m"
  "dp_name (dp_set_reserved_range rs m) = dp_name m" "dp_field (dp_set_reserved_range rs m) = dp_field m"
  "dp_reserved_range (dp_set_reserved_range rs m) = rs"
  "dp_name (dp_set_reserved_name ns m) = dp_name m" "dp_field (dp_set_reserved_name ns m) = dp_field m"
  "dp_reserved_range (dp_set_reserved_name ns m) = dp_reserved_range m"
  by (cases m; simp)+

definition empty_descriptor :: descriptor where
  "empty_descriptor = Descriptor None [] [] [] [] [] [] None [] [] None"

record source_location =
  sl_path :: "i32 list"
  sl_span :: "i32 list"
  sl_leading_comments :: "string option"
  sl_trailing_comments :: "string option"
  sl_leading_detached_comments :: "string list"

record source_code_info =
  si_location :: "source_location list"

end
