(* ===== verification/Proto_Codec.thy ===== *)
theory Proto_Codec
  imports Proto_Types
begin

text \<open>
  The binary codec of the protobuf compiler (\<open>codec.rs\<close>).  Writing appends to a buffer: an encoder yields the bytes it appends.
  A \<open>Reader\<close> is kept as the length of its buffer and the bytes after its cursor, so its position is
  the difference of the two.  \<open>usize\<close> is 64 bits wide; where the code would overflow it or cut a slice out
  of range, which ends the process, the model ends with \<open>CodecPanic\<close>.  Allocation always succeeds.

  Decoding a message calls itself on nested messages as deep as the bytes ask for; the model takes the number of calls
  the stack holds and ends with \<open>CodecPanic\<close> when it is exceeded.
\<close>

unbundle bit_operations_syntax

section \<open>Writer\<close>

definition write_u8 :: "8 word \<Rightarrow> bytes" where
  "write_u8 v = [v]"

function write_uvarint :: "u64 \<Rightarrow> bytes" where
  "write_uvarint v =
     (let byte = ucast (v AND 0x7f) :: 8 word; v' = drop_bit 7 v in
      if v' = 0 then [byte] else (byte OR 0x80) # write_uvarint v')"
  by pat_completeness auto
termination
proof (relation "measure unat")
  fix v :: u64 and byte :: "8 word" and v' assume "v' = drop_bit 7 v" "v' \<noteq> 0"
  moreover have "unat (drop_bit 7 v) = unat v div 2 ^ 7" by (simp add: drop_bit_eq_div unat_div)
  ultimately show "(v', v) \<in> measure unat" by (cases "unat v = 0") (auto simp: unat_eq_0 intro!: div_less_dividend simp: unat_gt_0)
qed simp

declare write_uvarint.simps [simp del]

definition write_ivarint :: "i64 \<Rightarrow> bytes" where
  "write_ivarint v = write_uvarint (push_bit 1 v XOR signed_drop_bit 63 v)"

definition write_bool :: "bool \<Rightarrow> bytes" where
  "write_bool v = write_u8 (if v then 1 else 0)"

definition write_bytes :: "bytes \<Rightarrow> bytes" where
  "write_bytes b = write_uvarint (word_of_nat (length b)) @ b"

definition write_str :: "string \<Rightarrow> bytes" where
  "write_str s = write_uvarint (word_of_nat (length s)) @ ascii_bytes s"

definition write_opt_str :: "string option \<Rightarrow> bytes" where
  "write_opt_str s = (case s of Some v \<Rightarrow> write_u8 1 @ write_str v | None \<Rightarrow> write_u8 0)"

definition write_opt_bool :: "bool option \<Rightarrow> bytes" where
  "write_opt_bool v = (case v of Some b \<Rightarrow> write_u8 1 @ write_bool b | None \<Rightarrow> write_u8 0)"

definition write_opt_i32 :: "i32 option \<Rightarrow> bytes" where
  "write_opt_i32 v = (case v of Some n \<Rightarrow> write_u8 1 @ write_ivarint (scast n) | None \<Rightarrow> write_u8 0)"

definition write_opt_u64 :: "u64 option \<Rightarrow> bytes" where
  "write_opt_u64 v = (case v of Some n \<Rightarrow> write_u8 1 @ write_uvarint n | None \<Rightarrow> write_u8 0)"

definition write_opt_i64 :: "i64 option \<Rightarrow> bytes" where
  "write_opt_i64 v = (case v of Some n \<Rightarrow> write_u8 1 @ write_ivarint n | None \<Rightarrow> write_u8 0)"

definition write_opt_bytes :: "bytes option \<Rightarrow> bytes" where
  "write_opt_bytes v = (case v of Some b \<Rightarrow> write_u8 1 @ write_bytes b | None \<Rightarrow> write_u8 0)"

section \<open>Reader\<close>

datatype codec_error =
    UnexpectedEnd
  | VarintTooLong
  | StringTooLong
  | BytesTooLong
  | InvalidUtf8
  | UnknownEnumValue string u64
  | CodecPanic

type_synonym reader = "nat \<times> bytes"
type_synonym 'a decoder = "(reader, codec_error, 'a) prog"

definition new_reader :: "bytes \<Rightarrow> reader" where
  "new_reader buf = (length buf, buf)"

definition rd_pos :: "reader \<Rightarrow> nat" where
  "rd_pos r = fst r - length (snd r)"

definition is_at_end :: "reader \<Rightarrow> bool" where
  "is_at_end r \<longleftrightarrow> snd r = []"

definition read_u8 :: "8 word decoder" where
  "read_u8 r = (case snd r of [] \<Rightarrow> (Inl UnexpectedEnd, r) | b # rest \<Rightarrow> (Inr b, (fst r, rest)))"

text \<open>The loop of \<open>read_uvarint\<close>: one byte is read before the shift is checked.\<close>

fun uvarint_loop :: "nat \<Rightarrow> bytes \<Rightarrow> nat \<Rightarrow> u64 \<Rightarrow> (codec_error + u64) \<times> reader" where
  "uvarint_loop n [] shift result = (Inl UnexpectedEnd, (n, []))"
| "uvarint_loop n (byte # rest) shift result =
     (if shift \<ge> 64 then (Inl VarintTooLong, (n, rest))
      else
        let result' = result OR push_bit shift (ucast (byte AND 0x7f)) in
        if byte AND 0x80 = 0 then (Inr result', (n, rest)) else uvarint_loop n rest (shift + 7) result')"

definition read_uvarint :: "u64 decoder" where
  "read_uvarint r = uvarint_loop (fst r) (snd r) 0 0"

definition read_ivarint :: "i64 decoder" where
  "read_ivarint = io_bind read_uvarint (\<lambda>zz. io_return (drop_bit 1 zz XOR - (zz AND 1)))"

definition read_bool :: "bool decoder" where
  "read_bool = io_bind read_u8 (\<lambda>b. io_return (b \<noteq> 0))"

text \<open>
  The slice of the next \<open>len\<close> bytes.  Where \<open>pos + len\<close> overflows, it wraps below \<open>pos\<close> and the slice panics; otherwise it exceeds
  the buffer exactly when \<open>len\<close> exceeds what is left of it.
\<close>

definition read_slice :: "codec_error \<Rightarrow> u64 \<Rightarrow> bytes decoder" where
  "read_slice too_long len r =
     (if rd_pos r + unat len \<ge> 2 ^ 64 then (Inl CodecPanic, r)
      else if unat len > length (snd r) then (Inl too_long, r)
      else (Inr (take (unat len) (snd r)), (fst r, drop (unat len) (snd r))))"

text \<open>\<open>std::str::from_utf8\<close>: well-formed sequences of one to four bytes.\<close>

definition utf8_cont :: "nat \<Rightarrow> nat \<Rightarrow> 8 word \<Rightarrow> bool" where
  "utf8_cont lo hi b \<longleftrightarrow> lo \<le> unat b \<and> unat b \<le> hi"

fun utf8_valid :: "bytes \<Rightarrow> bool" where
  "utf8_valid [] \<longleftrightarrow> True"
| "utf8_valid (a # rest) \<longleftrightarrow>
     (if unat a < 0x80 then utf8_valid rest
      else case rest of
        [] \<Rightarrow> False
      | b # rest2 \<Rightarrow>
          if utf8_cont 0xC2 0xDF a then utf8_cont 0x80 0xBF b \<and> utf8_valid rest2
          else case rest2 of
            [] \<Rightarrow> False
          | c # rest3 \<Rightarrow>
              if utf8_cont 0xE0 0xEF a
              then utf8_cont (if unat a = 0xE0 then 0xA0 else 0x80) (if unat a = 0xED then 0x9F else 0xBF) b
                \<and> utf8_cont 0x80 0xBF c \<and> utf8_valid rest3
              else case rest3 of
                [] \<Rightarrow> False
              | d # rest4 \<Rightarrow>
                  utf8_cont 0xF0 0xF4 a
                  \<and> utf8_cont (if unat a = 0xF0 then 0x90 else 0x80) (if unat a = 0xF4 then 0x8F else 0xBF) b
                  \<and> utf8_cont 0x80 0xBF c \<and> utf8_cont 0x80 0xBF d \<and> utf8_valid rest4)"

definition str_of_bytes :: "bytes \<Rightarrow> string" where
  "str_of_bytes bs = map (\<lambda>b. char_of (unat b)) bs"

definition read_str :: "string decoder" where
  "read_str = io_bind read_uvarint (\<lambda>len. io_bind (read_slice StringTooLong len) (\<lambda>bs.
     if utf8_valid bs then io_return (str_of_bytes bs) else io_fail InvalidUtf8))"

definition read_bytes :: "bytes decoder" where
  "read_bytes = io_bind read_uvarint (read_slice BytesTooLong)"

definition read_present :: "'a decoder \<Rightarrow> 'a option decoder" where
  "read_present m = io_bind read_u8 (\<lambda>tag. if tag = 1 then io_bind m (\<lambda>x. io_return (Some x)) else io_return None)"

definition read_opt_str :: "string option decoder" where
  "read_opt_str = read_present read_str"

definition read_opt_bool :: "bool option decoder" where
  "read_opt_bool = read_present read_bool"

definition read_i32 :: "i32 decoder" where
  "read_i32 = io_bind read_ivarint (\<lambda>v. io_return (ucast v))"

definition read_opt_i32 :: "i32 option decoder" where
  "read_opt_i32 = read_present read_i32"

definition read_opt_u64 :: "u64 option decoder" where
  "read_opt_u64 = read_present read_uvarint"

definition read_opt_i64 :: "i64 option decoder" where
  "read_opt_i64 = read_present read_ivarint"

definition read_opt_bytes :: "bytes option decoder" where
  "read_opt_bytes = read_present read_bytes"

section \<open>Vectors and options\<close>

definition write_vec :: "('a \<Rightarrow> bytes) \<Rightarrow> 'a list \<Rightarrow> bytes" where
  "write_vec enc items = write_uvarint (word_of_nat (length items)) @ concat (map enc items)"

fun read_items :: "'a decoder \<Rightarrow> nat \<Rightarrow> 'a list decoder" where
  "read_items dec 0 = io_return []"
| "read_items dec (Suc n) = io_bind dec (\<lambda>x. io_bind (read_items dec n) (\<lambda>xs. io_return (x # xs)))"

definition read_vec :: "'a decoder \<Rightarrow> 'a list decoder" where
  "read_vec dec = io_bind read_uvarint (\<lambda>len. read_items dec (unat len))"

definition write_opt :: "('a \<Rightarrow> bytes) \<Rightarrow> 'a option \<Rightarrow> bytes" where
  "write_opt enc v = (case v of Some x \<Rightarrow> write_u8 1 @ enc x | None \<Rightarrow> write_u8 0)"

definition read_opt :: "'a decoder \<Rightarrow> 'a option decoder" where
  "read_opt dec = read_present dec"

definition write_str_vec :: "string list \<Rightarrow> bytes" where
  "write_str_vec items = write_uvarint (word_of_nat (length items)) @ concat (map write_str items)"

definition read_str_vec :: "string list decoder" where
  "read_str_vec = io_bind read_uvarint (\<lambda>len. read_items read_str (unat len))"

definition write_i32_vec :: "i32 list \<Rightarrow> bytes" where
  "write_i32_vec items = write_uvarint (word_of_nat (length items)) @ concat (map (\<lambda>it. write_ivarint (scast it)) items)"

definition read_i32_vec :: "i32 list decoder" where
  "read_i32_vec = io_bind read_uvarint (\<lambda>len. read_items read_i32 (unat len))"

section \<open>Enumerations\<close>

text \<open>\<open>*self as i32 as u64\<close>: the discriminant, sign-extended.\<close>

definition write_enum :: "i32 \<Rightarrow> bytes" where
  "write_enum d = write_uvarint (scast d)"

definition encode_visibility :: "proto_lib \<Rightarrow> proto_visibility \<Rightarrow> bytes" where
  "encode_visibility pl v = write_enum (pl_visibility_int pl v)"

definition decode_visibility :: "proto_visibility decoder" where
  "decode_visibility = io_bind read_uvarint (\<lambda>v.
     if v = 0 then io_return VExport else if v = 1 then io_return VLocal else io_fail (UnknownEnumValue ''Visibility'' v))"

definition encode_field_type :: "proto_lib \<Rightarrow> field_type \<Rightarrow> bytes" where
  "encode_field_type pl t = write_enum (pl_type_int pl t)"

definition decode_field_type :: "proto_lib \<Rightarrow> field_type decoder" where
  "decode_field_type pl = io_bind read_uvarint (\<lambda>v.
     io_of (ok_or (UnknownEnumValue ''FieldType'' (scast (ucast v :: i32))) (pl_type_from_int pl (ucast v))))"

definition encode_field_label :: "proto_lib \<Rightarrow> field_label \<Rightarrow> bytes" where
  "encode_field_label pl l = write_enum (pl_label_int pl l)"

definition decode_field_label :: "proto_lib \<Rightarrow> field_label decoder" where
  "decode_field_label pl = io_bind read_uvarint (\<lambda>v.
     io_of (ok_or (UnknownEnumValue ''FieldLabel'' (scast (ucast v :: i32))) (pl_label_from_int pl (ucast v))))"

definition encode_optimize_mode :: "proto_lib \<Rightarrow> optimize_mode \<Rightarrow> bytes" where
  "encode_optimize_mode pl v = write_enum (pl_optimize_int pl v)"

definition decode_optimize_mode :: "optimize_mode decoder" where
  "decode_optimize_mode = io_bind read_uvarint (\<lambda>v.
     if v = 1 then io_return OSpeed else if v = 2 then io_return OCodeSize else if v = 3 then io_return OLiteRuntime
     else io_fail (UnknownEnumValue ''OptimizeMode'' v))"

definition encode_field_ctype :: "proto_lib \<Rightarrow> field_ctype \<Rightarrow> bytes" where
  "encode_field_ctype pl v = write_enum (pl_ctype_int pl v)"

definition decode_field_ctype :: "field_ctype decoder" where
  "decode_field_ctype = io_bind read_uvarint (\<lambda>v.
     if v = 0 then io_return CtString else if v = 1 then io_return CtCord else if v = 2 then io_return CtStringPiece
     else io_fail (UnknownEnumValue ''FieldCType'' v))"

definition encode_field_js_type :: "proto_lib \<Rightarrow> field_js_type \<Rightarrow> bytes" where
  "encode_field_js_type pl v = write_enum (pl_jstype_int pl v)"

definition decode_field_js_type :: "field_js_type decoder" where
  "decode_field_js_type = io_bind read_uvarint (\<lambda>v.
     if v = 0 then io_return JsNormal else if v = 1 then io_return JsString else if v = 2 then io_return JsNumber
     else io_fail (UnknownEnumValue ''FieldJsType'' v))"

definition encode_idempotency_level :: "proto_lib \<Rightarrow> idempotency_level \<Rightarrow> bytes" where
  "encode_idempotency_level pl v = write_enum (pl_idempotency_int pl v)"

definition decode_idempotency_level :: "idempotency_level decoder" where
  "decode_idempotency_level = io_bind read_uvarint (\<lambda>v.
     if v = 0 then io_return IdempotencyUnknown else if v = 1 then io_return NoSideEffects else if v = 2 then io_return IdIdempotent
     else io_fail (UnknownEnumValue ''IdempotencyLevel'' v))"

section \<open>Option messages\<close>

definition encode_name_part :: "name_part \<Rightarrow> bytes" where
  "encode_name_part x =
     write_str (np_name_part x) @ write_bool (np_is_extension x)"

definition decode_name_part :: "name_part decoder" where
  "decode_name_part =
     io_bind read_str (\<lambda>name_part. io_bind read_bool (\<lambda>is_extension.
     io_return \<lparr>np_name_part = name_part, np_is_extension = is_extension\<rparr>))"

definition encode_uninterpreted_option :: "uninterpreted_option \<Rightarrow> bytes" where
  "encode_uninterpreted_option x =
     write_vec encode_name_part (uo_name x) @ write_opt_str (uo_identifier_value x) @
     write_opt_u64 (uo_positive_int_value x) @ write_opt_i64 (uo_negative_int_value x) @
     write_opt_str (uo_double_value x) @ write_opt_bytes (uo_string_value x) @ write_opt_str (uo_aggregate_value x)"

definition decode_uninterpreted_option :: "uninterpreted_option decoder" where
  "decode_uninterpreted_option =
     io_bind (read_vec decode_name_part) (\<lambda>name'. io_bind read_opt_str (\<lambda>identifier_value.
     io_bind read_opt_u64 (\<lambda>positive_int_value. io_bind read_opt_i64 (\<lambda>negative_int_value.
     io_bind read_opt_str (\<lambda>double_value. io_bind read_opt_bytes (\<lambda>string_value.
     io_bind read_opt_str (\<lambda>aggregate_value.
     io_return \<lparr>uo_name = name', uo_identifier_value = identifier_value, uo_positive_int_value = positive_int_value,
       uo_negative_int_value = negative_int_value, uo_double_value = double_value, uo_string_value = string_value,
       uo_aggregate_value = aggregate_value\<rparr>)))))))"

definition encode_file_options :: "proto_lib \<Rightarrow> file_options \<Rightarrow> bytes" where
  "encode_file_options pl x =
     write_opt_str (fo_java_package x) @ write_opt_str (fo_java_outer_classname x) @
     write_opt_bool (fo_java_multiple_files x) @ write_opt_bool (fo_java_generate_equals_and_hash x) @
     write_opt_bool (fo_java_string_check_utf8 x) @ write_opt (encode_optimize_mode pl) (fo_optimize_for x) @
     write_opt_str (fo_go_package x) @ write_opt_bool (fo_cc_generic_services x) @
     write_opt_bool (fo_java_generic_services x) @ write_opt_bool (fo_py_generic_services x) @
     write_opt_bool (fo_deprecated x) @ write_opt_bool (fo_cc_enable_arenas x) @
     write_opt_str (fo_objc_class_prefix x) @ write_opt_str (fo_csharp_namespace x) @
     write_opt_str (fo_swift_prefix x) @ write_opt_str (fo_php_class_prefix x) @ write_opt_str (fo_php_namespace x) @
     write_opt_str (fo_php_metadata_namespace x) @ write_opt_str (fo_ruby_package x) @
     write_vec encode_uninterpreted_option (fo_uninterpreted_option x)"

definition decode_file_options :: "file_options decoder" where
  "decode_file_options =
     io_bind read_opt_str (\<lambda>java_package. io_bind read_opt_str (\<lambda>java_outer_classname.
     io_bind read_opt_bool (\<lambda>java_multiple_files.
     io_bind read_opt_bool (\<lambda>java_generate_equals_and_hash.
     io_bind read_opt_bool (\<lambda>java_string_check_utf8.
     io_bind (read_opt decode_optimize_mode) (\<lambda>optimize_for. io_bind read_opt_str (\<lambda>go_package.
     io_bind read_opt_bool (\<lambda>cc_generic_services. io_bind read_opt_bool (\<lambda>java_generic_services.
     io_bind read_opt_bool (\<lambda>py_generic_services. io_bind read_opt_bool (\<lambda>deprecated.
     io_bind read_opt_bool (\<lambda>cc_enable_arenas. io_bind read_opt_str (\<lambda>objc_class_prefix.
     io_bind read_opt_str (\<lambda>csharp_namespace. io_bind read_opt_str (\<lambda>swift_prefix.
     io_bind read_opt_str (\<lambda>php_class_prefix. io_bind read_opt_str (\<lambda>php_namespace.
     io_bind read_opt_str (\<lambda>php_metadata_namespace. io_bind read_opt_str (\<lambda>ruby_package.
     io_bind (read_vec decode_uninterpreted_option) (\<lambda>uninterpreted_option.
     io_return \<lparr>fo_java_package = java_package, fo_java_outer_classname = java_outer_classname,
       fo_java_multiple_files = java_multiple_files, fo_java_generate_equals_and_hash = java_generate_equals_and_hash,
       fo_java_string_check_utf8 = java_string_check_utf8, fo_optimize_for = optimize_for, fo_go_package = go_package,
       fo_cc_generic_services = cc_generic_services, fo_java_generic_services = java_generic_services,
       fo_py_generic_services = py_generic_services, fo_deprecated = deprecated,
       fo_cc_enable_arenas = cc_enable_arenas, fo_objc_class_prefix = objc_class_prefix,
       fo_csharp_namespace = csharp_namespace, fo_swift_prefix = swift_prefix, fo_php_class_prefix = php_class_prefix,
       fo_php_namespace = php_namespace, fo_php_metadata_namespace = php_metadata_namespace,
       fo_ruby_package = ruby_package, fo_uninterpreted_option = uninterpreted_option\<rparr>))))))))))))))))))))"

definition encode_message_options :: "message_options \<Rightarrow> bytes" where
  "encode_message_options x =
     write_opt_bool (mo_message_set_wire_format x) @ write_opt_bool (mo_no_standard_descriptor_accessor x) @
     write_opt_bool (mo_deprecated x) @ write_opt_bool (mo_map_entry x) @
     write_vec encode_uninterpreted_option (mo_uninterpreted_option x)"

definition decode_message_options :: "message_options decoder" where
  "decode_message_options =
     io_bind read_opt_bool (\<lambda>message_set_wire_format.
     io_bind read_opt_bool (\<lambda>no_standard_descriptor_accessor. io_bind read_opt_bool (\<lambda>deprecated.
     io_bind read_opt_bool (\<lambda>map_entry.
     io_bind (read_vec decode_uninterpreted_option) (\<lambda>uninterpreted_option.
     io_return \<lparr>mo_message_set_wire_format = message_set_wire_format,
       mo_no_standard_descriptor_accessor = no_standard_descriptor_accessor, mo_deprecated = deprecated,
       mo_map_entry = map_entry, mo_uninterpreted_option = uninterpreted_option\<rparr>)))))"

definition encode_field_options :: "proto_lib \<Rightarrow> field_options \<Rightarrow> bytes" where
  "encode_field_options pl x =
     write_opt (encode_field_ctype pl) (fp_ctype x) @ write_opt_bool (fp_packed x) @
     write_opt (encode_field_js_type pl) (fp_jstype x) @ write_opt_bool (fp_lazy x) @
     write_opt_bool (fp_deprecated x) @ write_opt_bool (fp_weak x) @
     write_vec encode_uninterpreted_option (fp_uninterpreted_option x)"

definition decode_field_options :: "field_options decoder" where
  "decode_field_options =
     io_bind (read_opt decode_field_ctype) (\<lambda>ctype. io_bind read_opt_bool (\<lambda>packed.
     io_bind (read_opt decode_field_js_type) (\<lambda>jstype. io_bind read_opt_bool (\<lambda>lazy.
     io_bind read_opt_bool (\<lambda>deprecated. io_bind read_opt_bool (\<lambda>weak.
     io_bind (read_vec decode_uninterpreted_option) (\<lambda>uninterpreted_option.
     io_return \<lparr>fp_ctype = ctype, fp_packed = packed, fp_jstype = jstype, fp_lazy = lazy, fp_deprecated = deprecated,
       fp_weak = weak, fp_uninterpreted_option = uninterpreted_option\<rparr>)))))))"

definition encode_oneof_options :: "oneof_options \<Rightarrow> bytes" where
  "encode_oneof_options x =
     write_vec encode_uninterpreted_option (oo_uninterpreted_option x)"

definition decode_oneof_options :: "oneof_options decoder" where
  "decode_oneof_options =
     io_bind (read_vec decode_uninterpreted_option) (\<lambda>uninterpreted_option.
     io_return \<lparr>oo_uninterpreted_option = uninterpreted_option\<rparr>)"

definition encode_enum_options :: "enum_options \<Rightarrow> bytes" where
  "encode_enum_options x =
     write_opt_bool (eo_allow_alias x) @ write_opt_bool (eo_deprecated x) @
     write_vec encode_uninterpreted_option (eo_uninterpreted_option x)"

definition decode_enum_options :: "enum_options decoder" where
  "decode_enum_options =
     io_bind read_opt_bool (\<lambda>allow_alias. io_bind read_opt_bool (\<lambda>deprecated.
     io_bind (read_vec decode_uninterpreted_option) (\<lambda>uninterpreted_option.
     io_return \<lparr>eo_allow_alias = allow_alias, eo_deprecated = deprecated, eo_uninterpreted_option = uninterpreted_option\<rparr>)))"

definition encode_enum_value_options :: "enum_value_options \<Rightarrow> bytes" where
  "encode_enum_value_options x =
     write_opt_bool (vo_deprecated x) @ write_vec encode_uninterpreted_option (vo_uninterpreted_option x)"

definition decode_enum_value_options :: "enum_value_options decoder" where
  "decode_enum_value_options =
     io_bind read_opt_bool (\<lambda>deprecated.
     io_bind (read_vec decode_uninterpreted_option) (\<lambda>uninterpreted_option.
     io_return \<lparr>vo_deprecated = deprecated, vo_uninterpreted_option = uninterpreted_option\<rparr>))"

definition encode_service_options :: "service_options \<Rightarrow> bytes" where
  "encode_service_options x =
     write_opt_bool (so_deprecated x) @ write_vec encode_uninterpreted_option (so_uninterpreted_option x)"

definition decode_service_options :: "service_options decoder" where
  "decode_service_options =
     io_bind read_opt_bool (\<lambda>deprecated.
     io_bind (read_vec decode_uninterpreted_option) (\<lambda>uninterpreted_option.
     io_return \<lparr>so_deprecated = deprecated, so_uninterpreted_option = uninterpreted_option\<rparr>))"

definition encode_method_options :: "proto_lib \<Rightarrow> method_options \<Rightarrow> bytes" where
  "encode_method_options pl x =
     write_opt_bool (to_deprecated x) @ write_opt (encode_idempotency_level pl) (to_idempotency_level x) @
     write_vec encode_uninterpreted_option (to_uninterpreted_option x)"

definition decode_method_options :: "method_options decoder" where
  "decode_method_options =
     io_bind read_opt_bool (\<lambda>deprecated.
     io_bind (read_opt decode_idempotency_level) (\<lambda>idempotency_level.
     io_bind (read_vec decode_uninterpreted_option) (\<lambda>uninterpreted_option.
     io_return \<lparr>to_deprecated = deprecated, to_idempotency_level = idempotency_level,
       to_uninterpreted_option = uninterpreted_option\<rparr>)))"

definition encode_extension_range_options :: "extension_range_options \<Rightarrow> bytes" where
  "encode_extension_range_options x =
     write_vec encode_uninterpreted_option (xo_uninterpreted_option x)"

definition decode_extension_range_options :: "extension_range_options decoder" where
  "decode_extension_range_options =
     io_bind (read_vec decode_uninterpreted_option) (\<lambda>uninterpreted_option.
     io_return \<lparr>xo_uninterpreted_option = uninterpreted_option\<rparr>)"

section \<open>Structural messages\<close>

definition encode_extension_range :: "extension_range \<Rightarrow> bytes" where
  "encode_extension_range x =
     write_opt_i32 (xr_start x) @ write_opt_i32 (xr_end x) @ write_opt encode_extension_range_options (xr_options x)"

definition decode_extension_range :: "extension_range decoder" where
  "decode_extension_range =
     io_bind read_opt_i32 (\<lambda>start. io_bind read_opt_i32 (\<lambda>end'.
     io_bind (read_opt decode_extension_range_options) (\<lambda>options'.
     io_return \<lparr>xr_start = start, xr_end = end', xr_options = options'\<rparr>)))"

definition encode_reserved_range :: "reserved_range \<Rightarrow> bytes" where
  "encode_reserved_range x =
     write_opt_i32 (rr_start x) @ write_opt_i32 (rr_end x)"

definition decode_reserved_range :: "reserved_range decoder" where
  "decode_reserved_range =
     io_bind read_opt_i32 (\<lambda>start. io_bind read_opt_i32 (\<lambda>end'.
     io_return \<lparr>rr_start = start, rr_end = end'\<rparr>))"

definition encode_oneof_descriptor :: "oneof_descriptor \<Rightarrow> bytes" where
  "encode_oneof_descriptor x =
     write_opt_str (od_name x) @ write_opt encode_oneof_options (od_options x)"

definition decode_oneof_descriptor :: "oneof_descriptor decoder" where
  "decode_oneof_descriptor =
     io_bind read_opt_str (\<lambda>name'. io_bind (read_opt decode_oneof_options) (\<lambda>options'.
     io_return \<lparr>od_name = name', od_options = options'\<rparr>))"

definition encode_field_descriptor :: "proto_lib \<Rightarrow> field_descriptor \<Rightarrow> bytes" where
  "encode_field_descriptor pl x =
     write_opt_str (fd_name x) @ write_opt_i32 (fd_number x) @ write_opt (encode_field_label pl) (fd_label x) @
     write_opt (encode_field_type pl) (fd_type x) @ write_opt_str (fd_type_name x) @ write_opt_str (fd_extendee x) @
     write_opt_str (fd_default_value x) @ write_opt_i32 (fd_oneof_index x) @ write_opt_str (fd_json_name x) @
     write_opt (encode_field_options pl) (fd_options x) @ write_opt_bool (fd_proto3_optional x)"

definition decode_field_descriptor :: "proto_lib \<Rightarrow> field_descriptor decoder" where
  "decode_field_descriptor pl =
     io_bind read_opt_str (\<lambda>name'. io_bind read_opt_i32 (\<lambda>number.
     io_bind (read_opt (decode_field_label pl)) (\<lambda>label'.
     io_bind (read_opt (decode_field_type pl)) (\<lambda>type'. io_bind read_opt_str (\<lambda>type_name.
     io_bind read_opt_str (\<lambda>extendee. io_bind read_opt_str (\<lambda>default_value.
     io_bind read_opt_i32 (\<lambda>oneof_index. io_bind read_opt_str (\<lambda>json_name.
     io_bind (read_opt decode_field_options) (\<lambda>options'. io_bind read_opt_bool (\<lambda>proto3_optional.
     io_return \<lparr>fd_name = name', fd_number = number, fd_label = label', fd_type = type', fd_type_name = type_name,
       fd_extendee = extendee, fd_default_value = default_value, fd_oneof_index = oneof_index,
       fd_json_name = json_name, fd_options = options', fd_proto3_optional = proto3_optional\<rparr>)))))))))))"

definition encode_enum_value_descriptor :: "enum_value_descriptor \<Rightarrow> bytes" where
  "encode_enum_value_descriptor x =
     write_opt_str (ev_name x) @ write_opt_i32 (ev_number x) @ write_opt encode_enum_value_options (ev_options x)"

definition decode_enum_value_descriptor :: "enum_value_descriptor decoder" where
  "decode_enum_value_descriptor =
     io_bind read_opt_str (\<lambda>name'. io_bind read_opt_i32 (\<lambda>number.
     io_bind (read_opt decode_enum_value_options) (\<lambda>options'.
     io_return \<lparr>ev_name = name', ev_number = number, ev_options = options'\<rparr>)))"

definition encode_enum_descriptor :: "proto_lib \<Rightarrow> enum_descriptor \<Rightarrow> bytes" where
  "encode_enum_descriptor pl x =
     write_opt_str (ed_name x) @ write_vec encode_enum_value_descriptor (ed_value x) @
     write_opt encode_enum_options (ed_options x) @ write_vec encode_reserved_range (ed_reserved_range x) @
     write_str_vec (ed_reserved_name x) @ write_opt (encode_visibility pl) (ed_visibility x)"

definition decode_enum_descriptor :: "enum_descriptor decoder" where
  "decode_enum_descriptor =
     io_bind read_opt_str (\<lambda>name'. io_bind (read_vec decode_enum_value_descriptor) (\<lambda>value'.
     io_bind (read_opt decode_enum_options) (\<lambda>options'.
     io_bind (read_vec decode_reserved_range) (\<lambda>reserved_range. io_bind read_str_vec (\<lambda>reserved_name.
     io_bind (read_opt decode_visibility) (\<lambda>visibility.
     io_return \<lparr>ed_name = name', ed_value = value', ed_options = options', ed_reserved_range = reserved_range,
       ed_reserved_name = reserved_name, ed_visibility = visibility\<rparr>))))))"

definition encode_method_descriptor :: "proto_lib \<Rightarrow> method_descriptor \<Rightarrow> bytes" where
  "encode_method_descriptor pl x =
     write_opt_str (md_name x) @ write_opt_str (md_input_type x) @ write_opt_str (md_output_type x) @
     write_opt (encode_method_options pl) (md_options x) @ write_opt_bool (md_client_streaming x) @
     write_opt_bool (md_server_streaming x)"

definition decode_method_descriptor :: "method_descriptor decoder" where
  "decode_method_descriptor =
     io_bind read_opt_str (\<lambda>name'. io_bind read_opt_str (\<lambda>input_type.
     io_bind read_opt_str (\<lambda>output_type. io_bind (read_opt decode_method_options) (\<lambda>options'.
     io_bind read_opt_bool (\<lambda>client_streaming. io_bind read_opt_bool (\<lambda>server_streaming.
     io_return \<lparr>md_name = name', md_input_type = input_type, md_output_type = output_type, md_options = options',
       md_client_streaming = client_streaming, md_server_streaming = server_streaming\<rparr>))))))"

definition encode_service_descriptor :: "proto_lib \<Rightarrow> service_descriptor \<Rightarrow> bytes" where
  "encode_service_descriptor pl x =
     write_opt_str (sd_name x) @ write_vec (encode_method_descriptor pl) (sd_method x) @
     write_opt encode_service_options (sd_options x)"

definition decode_service_descriptor :: "service_descriptor decoder" where
  "decode_service_descriptor =
     io_bind read_opt_str (\<lambda>name'. io_bind (read_vec decode_method_descriptor) (\<lambda>method.
     io_bind (read_opt decode_service_options) (\<lambda>options'.
     io_return \<lparr>sd_name = name', sd_method = method, sd_options = options'\<rparr>)))"

text \<open>A message descriptor, with as many nested calls as the stack holds.\<close>

fun encode_descriptor :: "proto_lib \<Rightarrow> descriptor \<Rightarrow> bytes" where
  "encode_descriptor pl (Descriptor name field extension nested_type enum_type extension_range oneof_decl options' reserved_range
       reserved_name visibility) =
     write_opt_str name @ write_vec (encode_field_descriptor pl) field @ write_vec (encode_field_descriptor pl) extension @
     (write_uvarint (word_of_nat (length nested_type)) @ concat (map (encode_descriptor pl) nested_type)) @
     write_vec (encode_enum_descriptor pl) enum_type @ write_vec encode_extension_range extension_range @
     write_vec encode_oneof_descriptor oneof_decl @ write_opt encode_message_options options' @
     write_vec encode_reserved_range reserved_range @ write_str_vec reserved_name @ write_opt (encode_visibility pl) visibility"

fun decode_descriptor :: "proto_lib \<Rightarrow> nat \<Rightarrow> descriptor decoder" where
  "decode_descriptor pl 0 = io_fail CodecPanic"
| "decode_descriptor pl (Suc stack) =
     io_bind read_opt_str (\<lambda>name. io_bind (read_vec (decode_field_descriptor pl)) (\<lambda>field.
     io_bind (read_vec (decode_field_descriptor pl)) (\<lambda>extension. io_bind (read_vec (decode_descriptor pl stack)) (\<lambda>nested_type.
     io_bind (read_vec decode_enum_descriptor) (\<lambda>enum_type. io_bind (read_vec decode_extension_range) (\<lambda>extension_range.
     io_bind (read_vec decode_oneof_descriptor) (\<lambda>oneof_decl. io_bind (read_opt decode_message_options) (\<lambda>options'.
     io_bind (read_vec decode_reserved_range) (\<lambda>reserved_range. io_bind read_str_vec (\<lambda>reserved_name.
     io_bind (read_opt decode_visibility) (\<lambda>visibility.
     io_return (Descriptor name field extension nested_type enum_type extension_range oneof_decl options' reserved_range
       reserved_name visibility))))))))))))"

section \<open>Source information\<close>

definition encode_source_location :: "source_location \<Rightarrow> bytes" where
  "encode_source_location x =
     write_i32_vec (sl_path x) @ write_i32_vec (sl_span x) @ write_opt_str (sl_leading_comments x) @
     write_opt_str (sl_trailing_comments x) @ write_str_vec (sl_leading_detached_comments x)"

definition decode_source_location :: "source_location decoder" where
  "decode_source_location =
     io_bind read_i32_vec (\<lambda>path. io_bind read_i32_vec (\<lambda>span'.
     io_bind read_opt_str (\<lambda>leading_comments. io_bind read_opt_str (\<lambda>trailing_comments.
     io_bind read_str_vec (\<lambda>leading_detached_comments.
     io_return \<lparr>sl_path = path, sl_span = span', sl_leading_comments = leading_comments,
       sl_trailing_comments = trailing_comments, sl_leading_detached_comments = leading_detached_comments\<rparr>)))))"

definition encode_source_code_info :: "source_code_info \<Rightarrow> bytes" where
  "encode_source_code_info x =
     write_vec encode_source_location (si_location x)"

definition decode_source_code_info :: "source_code_info decoder" where
  "decode_source_code_info =
     io_bind (read_vec decode_source_location) (\<lambda>location.
     io_return \<lparr>si_location = location\<rparr>)"

end
