(* ===== verification/Proto_Codec_Laws.thy ===== *)
theory Proto_Codec_Laws
  imports Proto_Codec
begin

text \<open>
  Decoding reverses encoding.  The interface \<open>byte_codec\<close> is the promise of the trait \<open>Codec\<close>: what an encoder appends
  is read back by its decoder, which stops right behind it.  It holds of every type of \<open>codec.rs\<close>, for values whose
  strings are valid UTF-8 and whose sequences are shorter than the address space, as all values of the running program are.
\<close>

section \<open>Integers\<close>

lemma low_byte:
  fixes v :: u64
  shows "ucast (ucast (v AND 0x7f) AND 0x7f :: 8 word) = v AND 0x7f" "ucast (v AND 0x7f) AND (0x80 :: 8 word) = 0"
    "ucast ((ucast (v AND 0x7f) OR 0x80) AND 0x7f :: 8 word) = v AND 0x7f" "(ucast (v AND 0x7f) OR 0x80) AND (0x80 :: 8 word) \<noteq> 0"
proof -
  have mask: "(0x7f :: 'a::len word) = mask 7" by (simp add: mask_eq_exp_minus_1)
  let ?b = "ucast v :: 8 word"
  have low: "ucast (v AND 0x7f) = ?b AND 0x7f" unfolding mask by (rule bit_word_eqI) (auto simp: bit_simps)
  have high: "ucast (?b AND 0x7f) = v AND 0x7f" unfolding mask by (rule bit_word_eqI) (auto simp: bit_simps)
  show "ucast (ucast (v AND 0x7f) AND 0x7f :: 8 word) = v AND 0x7f" unfolding low by (simp add: and.assoc high)
  show "ucast (v AND 0x7f) AND (0x80 :: 8 word) = 0" unfolding low by (simp add: and.assoc)
  show "ucast ((ucast (v AND 0x7f) OR 0x80) AND 0x7f :: 8 word) = v AND 0x7f"
    unfolding low by (simp add: word_ao_dist and.assoc high)
  show "(ucast (v AND 0x7f) OR 0x80) AND (0x80 :: 8 word) \<noteq> 0"
    unfolding low by (simp add: word_ao_dist and.assoc)
qed

lemma join_groups:
  fixes v acc :: u64
  shows "(acc OR push_bit shift (v AND 0x7f)) OR push_bit (shift + 7) (drop_bit 7 v) = acc OR push_bit shift v"
proof (rule bit_word_eqI)
  fix n assume "n < LENGTH(64)"
  have mask: "(0x7f :: u64) = mask 7" by (simp add: mask_eq_exp_minus_1)
  have "7 + (n - (shift + 7)) = n - shift" if "\<not> n - shift < 7" using that by simp
  then show "bit ((acc OR push_bit shift (v AND 0x7f)) OR push_bit (shift + 7) (drop_bit 7 v)) n = bit (acc OR push_bit shift v) n"
    unfolding mask by (cases "n - shift < 7") (auto simp: bit_simps)
qed

lemma uvarint_loop_write:
  assumes "shift < 64" "unat v < 2 ^ (64 - shift)"
  shows "uvarint_loop n (write_uvarint v @ rest) shift acc = (Inr (acc OR push_bit shift v), (n, rest))"
  using assms
proof (induction v arbitrary: shift acc rule: write_uvarint.induct)
  case (1 v)
  have drop: "unat (drop_bit 7 v) = unat v div 2 ^ 7" by (simp add: drop_bit_eq_div unat_div)
  show ?case
  proof (cases "drop_bit 7 v = 0")
    case True
    then have "v AND 0x7f = v" using join_groups [of 0 0 v] by simp
    then show ?thesis using True 1(2) low_byte [of v] by (simp add: write_uvarint.simps [of v] Let_def)
  next
    case False
    then have "unat v div 2 ^ 7 \<noteq> 0" using drop by (metis unat_eq_zero)
    then have large: "2 ^ 7 \<le> unat v" by (simp add: div_eq_0_iff not_less)
    then have "(2 :: nat) ^ 7 < 2 ^ (64 - shift)" using 1(3) by linarith
    then have shift: "shift + 7 < 64" by (subst (asm) power_strict_increasing_iff) simp_all
    have "(2 :: nat) ^ (64 - shift) = 2 ^ (64 - (shift + 7)) * 2 ^ 7" using shift by (subst power_add [symmetric]) (simp add: add.commute)
    then have "unat (drop_bit 7 v) < 2 ^ (64 - (shift + 7))"
      using 1(3) unfolding drop by (simp add: div_less_iff_less_mult)
    then show ?thesis
      using 1(1) [OF refl refl False shift, of "acc OR push_bit shift (v AND 0x7f)"] 1(2) False low_byte [of v] join_groups [of acc shift v]
      by (simp add: write_uvarint.simps [of v] Let_def)
  qed
qed

lemma read_uvarint_write: "read_uvarint (n, write_uvarint v @ rest) = (Inr v, (n, rest))"
  using uvarint_loop_write [of 0 v n rest 0] unsigned_less [of v] by (simp add: read_uvarint_def)

lemma zigzag:
  fixes v :: i64
  defines "zz \<equiv> push_bit 1 v XOR signed_drop_bit 63 v"
  shows "drop_bit 1 zz XOR - (zz AND 1) = v"
proof -
  have sign: "signed_drop_bit 63 v = (if bit v 63 then - 1 else 0)"
  proof (rule bit_word_eqI)
    fix n assume "n < LENGTH(64)"
    then have "(if 64 - 63 \<le> n \<or> 64 - 63 = Suc n then 63 else 63 + n) = 63" by auto
    then show "bit (signed_drop_bit 63 v) n = bit (if bit v 63 then - 1 else 0 :: i64) n"
      using \<open>n < LENGTH(64)\<close> by (cases n) (auto simp: bit_simps)
  qed
  have zz0: "bit zz 0 \<longleftrightarrow> bit v 63" by (auto simp: zz_def sign bit_simps bit_0)
  have "zz AND 1 = (if bit v 63 then 1 else 0)"
    using zz0 by (auto simp: and_one_eq odd_iff_mod_2_eq_one bit_0 even_iff_mod_2_eq_zero)
  then have minus: "- (zz AND 1) = (if bit v 63 then - 1 else 0)" by simp
  have double: "bit (v * 2) n \<longleftrightarrow> n \<noteq> 0 \<and> n < 64 \<and> bit v (n - 1)" for n
    using bit_push_bit_iff [of 1 v n] by (auto simp: bit_simps)
  show ?thesis unfolding minus
  proof (rule bit_word_eqI)
    fix n assume "n < LENGTH(64)"
    then have "n < 63 \<or> n = 63" by auto
    then show "bit (drop_bit 1 zz XOR (if bit v 63 then - 1 else 0)) n = bit v n"
      by (auto simp: zz_def sign bit_simps double)
  qed
qed

lemma read_ivarint_write: "read_ivarint (n, write_ivarint v @ rest) = (Inr v, (n, rest))"
  by (simp add: read_ivarint_def write_ivarint_def io_bind_def read_uvarint_write io_return_def zigzag [simplified])

section \<open>The interface\<close>

definition fits_vec :: "('a \<Rightarrow> bool) \<Rightarrow> 'a list \<Rightarrow> bool" where
  "fits_vec ok xs \<longleftrightarrow> length xs < 2 ^ 63 \<and> list_all ok xs"

definition fits_str :: "string \<Rightarrow> bool" where
  "fits_str s \<longleftrightarrow> length s < 2 ^ 63 \<and> utf8_valid (ascii_bytes s)"

lemma io_bind_step: "m r = (Inr x, r') \<Longrightarrow> io_bind m k r = k x r'"
  by (simp add: io_bind_def)

lemma unat_length [simp]: "k < 2 ^ 63 \<Longrightarrow> unat (word_of_nat k :: u64) = k"
  by (simp add: unat_of_nat)

named_theorems codec_simps \<open>what a decoder returns on encoded values\<close>

lemma read_items_each:
  assumes "\<And>x rest. x \<in> set xs \<Longrightarrow> dec (n, enc x @ rest) = (Inr x, (n, rest))"
  shows "read_items dec (length xs) (n, concat (map enc xs) @ rest) = (Inr xs, (n, rest))"
  using assms by (induction xs arbitrary: rest) (simp_all add: io_return_def io_bind_def)

locale byte_codec =
  fixes enc :: "'a \<Rightarrow> bytes" and dec :: "'a decoder" and ok :: "'a \<Rightarrow> bool"
  assumes dec_enc: "n < 2 ^ 63 \<Longrightarrow> ok x \<Longrightarrow> dec (n, enc x @ rest) = (Inr x, (n, rest))"
begin

lemma vec_enc: "n < 2 ^ 63 \<Longrightarrow> fits_vec ok xs \<Longrightarrow> read_vec dec (n, write_vec enc xs @ rest) = (Inr xs, (n, rest))"
  by (simp add: read_vec_def write_vec_def io_bind_def read_uvarint_write fits_vec_def list_all_iff read_items_each dec_enc)

lemma present_enc:
  "n < 2 ^ 63 \<Longrightarrow> pred_option ok v \<Longrightarrow>
    read_present dec (n, (case v of Some x \<Rightarrow> write_u8 1 @ enc x | None \<Rightarrow> write_u8 0) @ rest) = (Inr v, (n, rest))"
  by (cases v) (simp_all add: read_present_def io_bind_def write_u8_def read_u8_def io_return_def dec_enc)

lemma opt_enc: "n < 2 ^ 63 \<Longrightarrow> pred_option ok v \<Longrightarrow> read_opt dec (n, write_opt enc v @ rest) = (Inr v, (n, rest))"
  unfolding read_opt_def write_opt_def by (rule present_enc)

end

section \<open>Basic types\<close>

lemma unat_of_char: "unat (of_char c :: 8 word) = of_char c"
  using nat_of_char_less_256 [of c] unat_of_nat [where 'a = 8, of "of_char c"] by (simp add: of_nat_of_char)

lemma str_of_ascii [simp]: "str_of_bytes (ascii_bytes s) = s"
  by (simp add: str_of_bytes_def ascii_bytes_def comp_def unat_of_char)

lemma read_slice_enc:
  assumes "n < 2 ^ 63" "length bs < 2 ^ 63"
  shows "read_slice e (word_of_nat (length bs)) (n, bs @ rest) = (Inr bs, (n, rest))"
  using assms by (simp add: read_slice_def rd_pos_def)

interpretation str_codec: byte_codec write_str read_str fits_str
proof
  fix n :: nat and s rest assume "n < 2 ^ 63" "fits_str s"
  moreover have "length (ascii_bytes s) = length s" by (simp add: ascii_bytes_def)
  ultimately show "read_str (n, write_str s @ rest) = (Inr s, (n, rest))"
    using read_slice_enc [of n "ascii_bytes s" StringTooLong rest]
    by (simp add: read_str_def write_str_def fits_str_def io_bind_def read_uvarint_write io_return_def)
qed

interpretation bytes_codec: byte_codec write_bytes read_bytes "\<lambda>b. length b < 2 ^ 63"
  by unfold_locales (simp add: read_bytes_def write_bytes_def io_bind_def read_uvarint_write read_slice_enc)

interpretation bool_codec: byte_codec write_bool read_bool "\<lambda>b. True"
  by unfold_locales (simp add: read_bool_def write_bool_def write_u8_def read_u8_def io_bind_def io_return_def)

interpretation u64_codec: byte_codec write_uvarint read_uvarint "\<lambda>v. True"
  by unfold_locales (simp add: read_uvarint_write)

interpretation i64_codec: byte_codec write_ivarint read_ivarint "\<lambda>v. True"
  by unfold_locales (simp add: read_ivarint_write)

interpretation i32_codec: byte_codec "\<lambda>v. write_ivarint (scast v)" read_i32 "\<lambda>v. True"
proof
  fix n :: nat and v :: i32 and rest
  have "ucast (scast v :: i64) = v" by (rule bit_word_eqI) (simp add: bit_simps)
  then show "read_i32 (n, write_ivarint (scast v) @ rest) = (Inr v, (n, rest))"
    by (simp add: read_i32_def io_bind_def read_ivarint_write io_return_def)
qed

lemma basic_opt_enc [codec_simps]:
  assumes "n < 2 ^ 63"
  shows "pred_option fits_str s \<Longrightarrow> read_opt_str (n, write_opt_str s @ rest) = (Inr s, (n, rest))"
    "read_opt_bool (n, write_opt_bool b @ rest) = (Inr b, (n, rest))"
    "read_opt_i32 (n, write_opt_i32 i @ rest) = (Inr i, (n, rest))"
    "read_opt_u64 (n, write_opt_u64 u @ rest) = (Inr u, (n, rest))"
    "read_opt_i64 (n, write_opt_i64 j @ rest) = (Inr j, (n, rest))"
    "pred_option (\<lambda>b. length b < 2 ^ 63) bs \<Longrightarrow> read_opt_bytes (n, write_opt_bytes bs @ rest) = (Inr bs, (n, rest))"
  unfolding read_opt_str_def write_opt_str_def read_opt_bool_def write_opt_bool_def read_opt_i32_def write_opt_i32_def read_opt_u64_def
    write_opt_u64_def read_opt_i64_def write_opt_i64_def read_opt_bytes_def write_opt_bytes_def
  using str_codec.present_enc [OF assms, of s rest] bool_codec.present_enc [OF assms, of b rest]
    i32_codec.present_enc [OF assms, of i rest] u64_codec.present_enc [OF assms, of u rest]
    i64_codec.present_enc [OF assms, of j rest] bytes_codec.present_enc [OF assms, of bs rest]
  by (simp_all only: option.pred_True simp_thms)

lemma basic_vec_enc [codec_simps]:
  assumes "n < 2 ^ 63"
  shows "fits_vec fits_str ss \<Longrightarrow> read_str_vec (n, write_str_vec ss @ rest) = (Inr ss, (n, rest))"
    "length is < 2 ^ 63 \<Longrightarrow> read_i32_vec (n, write_i32_vec is @ rest) = (Inr is, (n, rest))"
  using str_codec.vec_enc [OF assms, of ss rest] i32_codec.vec_enc [OF assms, of "is" rest]
  by (simp_all add: read_str_vec_def write_str_vec_def read_i32_vec_def write_i32_vec_def read_vec_def write_vec_def fits_vec_def
      list_all_iff)

section \<open>Values that fit\<close>

text \<open>What \<open>fits_str\<close> and \<open>fits_vec\<close> ask of the strings and sequences of a value.\<close>

definition fits_name_part :: "name_part \<Rightarrow> bool" where
  "fits_name_part x \<longleftrightarrow>
     fits_str (np_name_part x)"

definition fits_uninterpreted_option :: "uninterpreted_option \<Rightarrow> bool" where
  "fits_uninterpreted_option x \<longleftrightarrow>
     fits_vec fits_name_part (uo_name x) \<and> pred_option fits_str (uo_identifier_value x) \<and>
     pred_option fits_str (uo_double_value x) \<and>
     pred_option (\<lambda>b. length b < 2 ^ 63) (uo_string_value x) \<and> pred_option fits_str (uo_aggregate_value x)"

definition fits_file_options :: "file_options \<Rightarrow> bool" where
  "fits_file_options x \<longleftrightarrow>
     pred_option fits_str (fo_java_package x) \<and> pred_option fits_str (fo_java_outer_classname x) \<and>
     pred_option fits_str (fo_go_package x) \<and> pred_option fits_str (fo_objc_class_prefix x) \<and>
     pred_option fits_str (fo_csharp_namespace x) \<and> pred_option fits_str (fo_swift_prefix x) \<and>
     pred_option fits_str (fo_php_class_prefix x) \<and> pred_option fits_str (fo_php_namespace x) \<and>
     pred_option fits_str (fo_php_metadata_namespace x) \<and> pred_option fits_str (fo_ruby_package x) \<and>
     fits_vec fits_uninterpreted_option (fo_uninterpreted_option x)"

definition fits_message_options :: "message_options \<Rightarrow> bool" where
  "fits_message_options x \<longleftrightarrow>
     fits_vec fits_uninterpreted_option (mo_uninterpreted_option x)"

definition fits_field_options :: "field_options \<Rightarrow> bool" where
  "fits_field_options x \<longleftrightarrow>
     fits_vec fits_uninterpreted_option (fp_uninterpreted_option x)"

definition fits_oneof_options :: "oneof_options \<Rightarrow> bool" where
  "fits_oneof_options x \<longleftrightarrow>
     fits_vec fits_uninterpreted_option (oo_uninterpreted_option x)"

definition fits_enum_options :: "enum_options \<Rightarrow> bool" where
  "fits_enum_options x \<longleftrightarrow>
     fits_vec fits_uninterpreted_option (eo_uninterpreted_option x)"

definition fits_enum_value_options :: "enum_value_options \<Rightarrow> bool" where
  "fits_enum_value_options x \<longleftrightarrow>
     fits_vec fits_uninterpreted_option (vo_uninterpreted_option x)"

definition fits_service_options :: "service_options \<Rightarrow> bool" where
  "fits_service_options x \<longleftrightarrow>
     fits_vec fits_uninterpreted_option (so_uninterpreted_option x)"

definition fits_method_options :: "method_options \<Rightarrow> bool" where
  "fits_method_options x \<longleftrightarrow>
     fits_vec fits_uninterpreted_option (to_uninterpreted_option x)"

definition fits_extension_range_options :: "extension_range_options \<Rightarrow> bool" where
  "fits_extension_range_options x \<longleftrightarrow>
     fits_vec fits_uninterpreted_option (xo_uninterpreted_option x)"

definition fits_extension_range :: "extension_range \<Rightarrow> bool" where
  "fits_extension_range x \<longleftrightarrow>
     pred_option fits_extension_range_options (xr_options x)"

definition fits_reserved_range :: "reserved_range \<Rightarrow> bool" where
  "fits_reserved_range x \<longleftrightarrow>
     True"

definition fits_oneof_descriptor :: "oneof_descriptor \<Rightarrow> bool" where
  "fits_oneof_descriptor x \<longleftrightarrow>
     pred_option fits_str (od_name x) \<and> pred_option fits_oneof_options (od_options x)"

definition fits_field_descriptor :: "field_descriptor \<Rightarrow> bool" where
  "fits_field_descriptor x \<longleftrightarrow>
     pred_option fits_str (fd_name x) \<and> pred_option fits_str (fd_type_name x) \<and>
     pred_option fits_str (fd_extendee x) \<and> pred_option fits_str (fd_default_value x) \<and>
     pred_option fits_str (fd_json_name x) \<and> pred_option fits_field_options (fd_options x)"

definition fits_enum_value_descriptor :: "enum_value_descriptor \<Rightarrow> bool" where
  "fits_enum_value_descriptor x \<longleftrightarrow>
     pred_option fits_str (ev_name x) \<and> pred_option fits_enum_value_options (ev_options x)"

definition fits_enum_descriptor :: "enum_descriptor \<Rightarrow> bool" where
  "fits_enum_descriptor x \<longleftrightarrow>
     pred_option fits_str (ed_name x) \<and> fits_vec fits_enum_value_descriptor (ed_value x) \<and>
     pred_option fits_enum_options (ed_options x) \<and> fits_vec fits_reserved_range (ed_reserved_range x) \<and>
     fits_vec fits_str (ed_reserved_name x)"

definition fits_method_descriptor :: "method_descriptor \<Rightarrow> bool" where
  "fits_method_descriptor x \<longleftrightarrow>
     pred_option fits_str (md_name x) \<and> pred_option fits_str (md_input_type x) \<and>
     pred_option fits_str (md_output_type x) \<and> pred_option fits_method_options (md_options x)"

definition fits_service_descriptor :: "service_descriptor \<Rightarrow> bool" where
  "fits_service_descriptor x \<longleftrightarrow>
     pred_option fits_str (sd_name x) \<and> fits_vec fits_method_descriptor (sd_method x) \<and>
     pred_option fits_service_options (sd_options x)"

fun fits_descriptor :: "descriptor \<Rightarrow> bool" where
  "fits_descriptor (Descriptor name field extension nested_type enum_type extension_range oneof_decl options' reserved_range
       reserved_name visibility) \<longleftrightarrow>
     pred_option fits_str name \<and> fits_vec fits_field_descriptor field \<and> fits_vec fits_field_descriptor extension \<and>
     length nested_type < 2 ^ 63 \<and> (\<forall>m \<in> set nested_type. fits_descriptor m) \<and> fits_vec fits_enum_descriptor enum_type \<and>
     fits_vec fits_extension_range extension_range \<and> fits_vec fits_oneof_descriptor oneof_decl \<and>
     pred_option fits_message_options options' \<and> fits_vec fits_reserved_range reserved_range \<and> fits_vec fits_str reserved_name"

text \<open>How deep messages are nested.\<close>

fun nesting :: "descriptor \<Rightarrow> nat" where
  "nesting (Descriptor name field extension nested_type enum_type extension_range oneof_decl options' reserved_range
       reserved_name visibility) = Suc (fold max (map nesting nested_type) 0)"

definition fits_source_location :: "source_location \<Rightarrow> bool" where
  "fits_source_location x \<longleftrightarrow>
     length (sl_path x) < 2 ^ 63 \<and> length (sl_span x) < 2 ^ 63 \<and>
     pred_option fits_str (sl_leading_comments x) \<and> pred_option fits_str (sl_trailing_comments x) \<and>
     fits_vec fits_str (sl_leading_detached_comments x)"

definition fits_source_code_info :: "source_code_info \<Rightarrow> bool" where
  "fits_source_code_info x \<longleftrightarrow>
     fits_vec fits_source_location (si_location x)"

section \<open>Types without library enumerations\<close>

lemmas basic_enc [codec_simps] = str_codec.dec_enc bool_codec.dec_enc

interpretation name_part_codec: byte_codec encode_name_part decode_name_part fits_name_part
  by unfold_locales (simp add: encode_name_part_def decode_name_part_def fits_name_part_def io_bind_step io_return_def codec_simps)

lemmas name_part_enc [codec_simps] = name_part_codec.vec_enc name_part_codec.opt_enc name_part_codec.dec_enc

interpretation uninterpreted_option_codec: byte_codec encode_uninterpreted_option decode_uninterpreted_option fits_uninterpreted_option
  by unfold_locales (simp add: encode_uninterpreted_option_def decode_uninterpreted_option_def fits_uninterpreted_option_def io_bind_step io_return_def codec_simps)

lemmas uninterpreted_option_enc [codec_simps] = uninterpreted_option_codec.vec_enc uninterpreted_option_codec.opt_enc uninterpreted_option_codec.dec_enc

interpretation message_options_codec: byte_codec encode_message_options decode_message_options fits_message_options
  by unfold_locales (simp add: encode_message_options_def decode_message_options_def fits_message_options_def io_bind_step io_return_def codec_simps)

lemmas message_options_enc [codec_simps] = message_options_codec.vec_enc message_options_codec.opt_enc message_options_codec.dec_enc

interpretation oneof_options_codec: byte_codec encode_oneof_options decode_oneof_options fits_oneof_options
  by unfold_locales (simp add: encode_oneof_options_def decode_oneof_options_def fits_oneof_options_def io_bind_step io_return_def codec_simps)

lemmas oneof_options_enc [codec_simps] = oneof_options_codec.vec_enc oneof_options_codec.opt_enc oneof_options_codec.dec_enc

interpretation enum_options_codec: byte_codec encode_enum_options decode_enum_options fits_enum_options
  by unfold_locales (simp add: encode_enum_options_def decode_enum_options_def fits_enum_options_def io_bind_step io_return_def codec_simps)

lemmas enum_options_enc [codec_simps] = enum_options_codec.vec_enc enum_options_codec.opt_enc enum_options_codec.dec_enc

interpretation enum_value_options_codec: byte_codec encode_enum_value_options decode_enum_value_options fits_enum_value_options
  by unfold_locales (simp add: encode_enum_value_options_def decode_enum_value_options_def fits_enum_value_options_def io_bind_step io_return_def codec_simps)

lemmas enum_value_options_enc [codec_simps] = enum_value_options_codec.vec_enc enum_value_options_codec.opt_enc enum_value_options_codec.dec_enc

interpretation service_options_codec: byte_codec encode_service_options decode_service_options fits_service_options
  by unfold_locales (simp add: encode_service_options_def decode_service_options_def fits_service_options_def io_bind_step io_return_def codec_simps)

lemmas service_options_enc [codec_simps] = service_options_codec.vec_enc service_options_codec.opt_enc service_options_codec.dec_enc

interpretation extension_range_options_codec: byte_codec encode_extension_range_options decode_extension_range_options fits_extension_range_options
  by unfold_locales (simp add: encode_extension_range_options_def decode_extension_range_options_def fits_extension_range_options_def io_bind_step io_return_def codec_simps)

lemmas extension_range_options_enc [codec_simps] = extension_range_options_codec.vec_enc extension_range_options_codec.opt_enc extension_range_options_codec.dec_enc

interpretation extension_range_codec: byte_codec encode_extension_range decode_extension_range fits_extension_range
  by unfold_locales (simp add: encode_extension_range_def decode_extension_range_def fits_extension_range_def io_bind_step io_return_def codec_simps)

lemmas extension_range_enc [codec_simps] = extension_range_codec.vec_enc extension_range_codec.opt_enc extension_range_codec.dec_enc

interpretation reserved_range_codec: byte_codec encode_reserved_range decode_reserved_range fits_reserved_range
  by unfold_locales (simp add: encode_reserved_range_def decode_reserved_range_def fits_reserved_range_def io_bind_step io_return_def codec_simps)

lemmas reserved_range_enc [codec_simps] = reserved_range_codec.vec_enc reserved_range_codec.opt_enc reserved_range_codec.dec_enc

interpretation oneof_descriptor_codec: byte_codec encode_oneof_descriptor decode_oneof_descriptor fits_oneof_descriptor
  by unfold_locales (simp add: encode_oneof_descriptor_def decode_oneof_descriptor_def fits_oneof_descriptor_def io_bind_step io_return_def codec_simps)

lemmas oneof_descriptor_enc [codec_simps] = oneof_descriptor_codec.vec_enc oneof_descriptor_codec.opt_enc oneof_descriptor_codec.dec_enc

interpretation enum_value_descriptor_codec: byte_codec encode_enum_value_descriptor decode_enum_value_descriptor fits_enum_value_descriptor
  by unfold_locales (simp add: encode_enum_value_descriptor_def decode_enum_value_descriptor_def fits_enum_value_descriptor_def io_bind_step io_return_def codec_simps)

lemmas enum_value_descriptor_enc [codec_simps] = enum_value_descriptor_codec.vec_enc enum_value_descriptor_codec.opt_enc enum_value_descriptor_codec.dec_enc

interpretation source_location_codec: byte_codec encode_source_location decode_source_location fits_source_location
  by unfold_locales (simp add: encode_source_location_def decode_source_location_def fits_source_location_def io_bind_step io_return_def codec_simps)

lemmas source_location_enc [codec_simps] = source_location_codec.vec_enc source_location_codec.opt_enc source_location_codec.dec_enc

interpretation source_code_info_codec: byte_codec encode_source_code_info decode_source_code_info fits_source_code_info
  by unfold_locales (simp add: encode_source_code_info_def decode_source_code_info_def fits_source_code_info_def io_bind_step io_return_def codec_simps)

lemmas source_code_info_enc [codec_simps] = source_code_info_codec.vec_enc source_code_info_codec.opt_enc source_code_info_codec.dec_enc

section \<open>Descriptors\<close>

text \<open>
  The enumerations of the library: a discriminant names its variant, and those that \<open>codec.rs\<close> decodes itself are
  the numbers of the protobuf language definition.
\<close>

locale proto_enums =
  fixes pl :: proto_lib
  assumes type_int: "pl_type_from_int pl (pl_type_int pl t) = Some t"
    and label_int: "pl_label_from_int pl (pl_label_int pl l) = Some l"
    and visibility_int: "pl_visibility_int pl VExport = 0" "pl_visibility_int pl VLocal = 1"
    and optimize_int: "pl_optimize_int pl OSpeed = 1" "pl_optimize_int pl OCodeSize = 2" "pl_optimize_int pl OLiteRuntime = 3"
    and ctype_int: "pl_ctype_int pl CtString = 0" "pl_ctype_int pl CtCord = 1" "pl_ctype_int pl CtStringPiece = 2"
    and jstype_int: "pl_jstype_int pl JsNormal = 0" "pl_jstype_int pl JsString = 1" "pl_jstype_int pl JsNumber = 2"
    and idempotency_int: "pl_idempotency_int pl IdempotencyUnknown = 0" "pl_idempotency_int pl NoSideEffects = 1"
      "pl_idempotency_int pl IdIdempotent = 2"
begin

lemma narrow: "ucast (scast d :: u64) = (d :: i32)"
  by (rule bit_word_eqI) (simp add: bit_simps)

lemma visibility_codec: "byte_codec (encode_visibility pl) (decode_visibility) (\<lambda>x. True)"
proof
  fix n :: nat and x :: proto_visibility and rest
  show "decode_visibility (n, encode_visibility pl x @ rest) = (Inr x, (n, rest))"
    by (cases x) (simp_all add: encode_visibility_def decode_visibility_def write_enum_def io_bind_def read_uvarint_write io_return_def visibility_int)
qed

lemmas visibility_enc [codec_simps] = byte_codec.opt_enc [OF visibility_codec, simplified option.pred_True, OF _ TrueI]

lemma field_type_codec: "byte_codec (encode_field_type pl) (decode_field_type pl) (\<lambda>x. True)"
  by unfold_locales (simp add: encode_field_type_def decode_field_type_def write_enum_def io_bind_def read_uvarint_write io_of_def narrow type_int)

lemmas field_type_enc [codec_simps] = byte_codec.opt_enc [OF field_type_codec, simplified option.pred_True, OF _ TrueI]

lemma field_label_codec: "byte_codec (encode_field_label pl) (decode_field_label pl) (\<lambda>x. True)"
  by unfold_locales (simp add: encode_field_label_def decode_field_label_def write_enum_def io_bind_def read_uvarint_write io_of_def narrow label_int)

lemmas field_label_enc [codec_simps] = byte_codec.opt_enc [OF field_label_codec, simplified option.pred_True, OF _ TrueI]

lemma optimize_mode_codec: "byte_codec (encode_optimize_mode pl) (decode_optimize_mode) (\<lambda>x. True)"
proof
  fix n :: nat and x :: optimize_mode and rest
  show "decode_optimize_mode (n, encode_optimize_mode pl x @ rest) = (Inr x, (n, rest))"
    by (cases x) (simp_all add: encode_optimize_mode_def decode_optimize_mode_def write_enum_def io_bind_def read_uvarint_write io_return_def optimize_int)
qed

lemmas optimize_mode_enc [codec_simps] = byte_codec.opt_enc [OF optimize_mode_codec, simplified option.pred_True, OF _ TrueI]

lemma field_ctype_codec: "byte_codec (encode_field_ctype pl) (decode_field_ctype) (\<lambda>x. True)"
proof
  fix n :: nat and x :: field_ctype and rest
  show "decode_field_ctype (n, encode_field_ctype pl x @ rest) = (Inr x, (n, rest))"
    by (cases x) (simp_all add: encode_field_ctype_def decode_field_ctype_def write_enum_def io_bind_def read_uvarint_write io_return_def ctype_int)
qed

lemmas field_ctype_enc [codec_simps] = byte_codec.opt_enc [OF field_ctype_codec, simplified option.pred_True, OF _ TrueI]

lemma field_js_type_codec: "byte_codec (encode_field_js_type pl) (decode_field_js_type) (\<lambda>x. True)"
proof
  fix n :: nat and x :: field_js_type and rest
  show "decode_field_js_type (n, encode_field_js_type pl x @ rest) = (Inr x, (n, rest))"
    by (cases x) (simp_all add: encode_field_js_type_def decode_field_js_type_def write_enum_def io_bind_def read_uvarint_write io_return_def jstype_int)
qed

lemmas field_js_type_enc [codec_simps] = byte_codec.opt_enc [OF field_js_type_codec, simplified option.pred_True, OF _ TrueI]

lemma idempotency_level_codec: "byte_codec (encode_idempotency_level pl) (decode_idempotency_level) (\<lambda>x. True)"
proof
  fix n :: nat and x :: idempotency_level and rest
  show "decode_idempotency_level (n, encode_idempotency_level pl x @ rest) = (Inr x, (n, rest))"
    by (cases x) (simp_all add: encode_idempotency_level_def decode_idempotency_level_def write_enum_def io_bind_def read_uvarint_write io_return_def idempotency_int)
qed

lemmas idempotency_level_enc [codec_simps] = byte_codec.opt_enc [OF idempotency_level_codec, simplified option.pred_True, OF _ TrueI]

lemma file_options_codec: "byte_codec (encode_file_options pl) (decode_file_options) fits_file_options"
  by unfold_locales (simp add: encode_file_options_def decode_file_options_def fits_file_options_def io_bind_step io_return_def codec_simps)

lemmas file_options_enc [codec_simps] = byte_codec.vec_enc [OF file_options_codec] byte_codec.opt_enc [OF file_options_codec] byte_codec.dec_enc [OF file_options_codec]

lemma field_options_codec: "byte_codec (encode_field_options pl) (decode_field_options) fits_field_options"
  by unfold_locales (simp add: encode_field_options_def decode_field_options_def fits_field_options_def io_bind_step io_return_def codec_simps)

lemmas field_options_enc [codec_simps] = byte_codec.vec_enc [OF field_options_codec] byte_codec.opt_enc [OF field_options_codec] byte_codec.dec_enc [OF field_options_codec]

lemma method_options_codec: "byte_codec (encode_method_options pl) (decode_method_options) fits_method_options"
  by unfold_locales (simp add: encode_method_options_def decode_method_options_def fits_method_options_def io_bind_step io_return_def codec_simps)

lemmas method_options_enc [codec_simps] = byte_codec.vec_enc [OF method_options_codec] byte_codec.opt_enc [OF method_options_codec] byte_codec.dec_enc [OF method_options_codec]

lemma field_descriptor_codec: "byte_codec (encode_field_descriptor pl) (decode_field_descriptor pl) fits_field_descriptor"
  by unfold_locales (simp add: encode_field_descriptor_def decode_field_descriptor_def fits_field_descriptor_def io_bind_step io_return_def codec_simps)

lemmas field_descriptor_enc [codec_simps] = byte_codec.vec_enc [OF field_descriptor_codec] byte_codec.opt_enc [OF field_descriptor_codec] byte_codec.dec_enc [OF field_descriptor_codec]

lemma enum_descriptor_codec: "byte_codec (encode_enum_descriptor pl) (decode_enum_descriptor) fits_enum_descriptor"
  by unfold_locales (simp add: encode_enum_descriptor_def decode_enum_descriptor_def fits_enum_descriptor_def io_bind_step io_return_def codec_simps)

lemmas enum_descriptor_enc [codec_simps] = byte_codec.vec_enc [OF enum_descriptor_codec] byte_codec.opt_enc [OF enum_descriptor_codec] byte_codec.dec_enc [OF enum_descriptor_codec]

lemma method_descriptor_codec: "byte_codec (encode_method_descriptor pl) (decode_method_descriptor) fits_method_descriptor"
  by unfold_locales (simp add: encode_method_descriptor_def decode_method_descriptor_def fits_method_descriptor_def io_bind_step io_return_def codec_simps)

lemmas method_descriptor_enc [codec_simps] = byte_codec.vec_enc [OF method_descriptor_codec] byte_codec.opt_enc [OF method_descriptor_codec] byte_codec.dec_enc [OF method_descriptor_codec]

lemma service_descriptor_codec: "byte_codec (encode_service_descriptor pl) (decode_service_descriptor) fits_service_descriptor"
  by unfold_locales (simp add: encode_service_descriptor_def decode_service_descriptor_def fits_service_descriptor_def io_bind_step io_return_def codec_simps)

lemmas service_descriptor_enc [codec_simps] = byte_codec.vec_enc [OF service_descriptor_codec] byte_codec.opt_enc [OF service_descriptor_codec] byte_codec.dec_enc [OF service_descriptor_codec]

lemma fold_max_le: "k \<le> fold max xs k \<and> (\<forall>x \<in> set xs. x \<le> fold max xs (k :: nat))"
proof (induction xs arbitrary: k)
  case (Cons x xs)
  show ?case using Cons.IH [of "max x k"] by auto
qed simp

lemma decode_descriptor_enc:
  assumes "n < 2 ^ 63" "fits_descriptor m" "nesting m \<le> stack"
  shows "decode_descriptor pl stack (n, encode_descriptor pl m @ rest) = (Inr m, (n, rest))"
  using assms(2,3)
proof (induction m arbitrary: stack rest)
  case (Descriptor name field extension nested_type enum_type extension_range oneof_decl options' reserved_range reserved_name visibility)
  obtain k where k: "stack = Suc k" "\<forall>m \<in> set nested_type. nesting m \<le> k"
  proof (cases stack)
    case (Suc k)
    have "nesting m \<le> k" if "m \<in> set nested_type" for m
      using fold_max_le [of 0 "map nesting nested_type"] Descriptor.prems(2) that Suc by fastforce
    then show thesis using that Suc by blast
  qed (use Descriptor.prems(2) in simp)
  have "decode_descriptor pl k (n, encode_descriptor pl m @ rest) = (Inr m, (n, rest))" if "m \<in> set nested_type" for m rest
    using Descriptor.IH(1) [OF that] Descriptor.prems(1) k(2) that by simp
  then have nested: "read_vec (decode_descriptor pl k) (n, write_uvarint (word_of_nat (length nested_type)) @
      concat (map (encode_descriptor pl) nested_type) @ rest) = (Inr nested_type, (n, rest))" for rest
    using Descriptor.prems(1) by (simp add: read_vec_def io_bind_def read_uvarint_write read_items_each)
  show ?case using Descriptor.prems(1) assms(1) by (simp add: k(1) io_bind_step nested codec_simps io_return_def)
qed

lemma descriptor_codec: "byte_codec (encode_descriptor pl) (decode_descriptor pl stack) (\<lambda>m. fits_descriptor m \<and> nesting m \<le> stack)"
  by unfold_locales (simp add: decode_descriptor_enc)

lemmas descriptor_enc [codec_simps] = byte_codec.dec_enc [OF descriptor_codec]

end

end
