(* ===== verification/Proto_Blob.thy ===== *)
theory Proto_Blob
  imports Proto_Codec_Laws
begin

text \<open>
  The stored form of a protobuf schema (\<open>blob.rs\<close>): one versioned blob per top-level declaration and one for what the file
  has besides them.
\<close>

section \<open>Declarations\<close>

definition blob_version :: "8 word" where "blob_version = 1"
definition tag_message :: "8 word" where "tag_message = 1"
definition tag_enum :: "8 word" where "tag_enum = 2"
definition tag_service :: "8 word" where "tag_service = 3"

datatype decl_payload = PMessage descriptor | PEnum enum_descriptor | PService service_descriptor

datatype blob_error = UnsupportedBlobVersion "8 word" | UnknownDeclTag "8 word" | MalformedBlob codec_error

definition encode_decl :: "proto_lib \<Rightarrow> decl_payload \<Rightarrow> bytes" where
  "encode_decl pl payload =
     write_u8 blob_version @
     (case payload of
        PMessage m \<Rightarrow> write_u8 tag_message @ encode_descriptor pl m
      | PEnum e \<Rightarrow> write_u8 tag_enum @ encode_enum_descriptor pl e
      | PService s \<Rightarrow> write_u8 tag_service @ encode_service_descriptor pl s)"

definition malformed :: "'a decoder \<Rightarrow> (reader, blob_error, 'a) prog" where
  "malformed m = io_map_err MalformedBlob m"

definition check_version :: "(reader, blob_error, unit) prog" where
  "check_version = io_bind (malformed read_u8) (\<lambda>version.
     if version \<noteq> blob_version then io_fail (UnsupportedBlobVersion version) else io_return ())"

definition decode_decl :: "proto_lib \<Rightarrow> nat \<Rightarrow> bytes \<Rightarrow> blob_error + decl_payload" where
  "decode_decl pl stack bs =
     fst (io_bind check_version (\<lambda>_.
       io_bind (malformed read_u8) (\<lambda>tag.
       if tag = tag_message then io_bind (malformed (decode_descriptor pl stack)) (\<lambda>m. io_return (PMessage m))
       else if tag = tag_enum then io_bind (malformed decode_enum_descriptor) (\<lambda>e. io_return (PEnum e))
       else if tag = tag_service then io_bind (malformed decode_service_descriptor) (\<lambda>s. io_return (PService s))
       else io_fail (UnknownDeclTag tag))) (new_reader bs))"

section \<open>File metadata\<close>

record meta_payload =
  mp_name :: "string option"
  mp_package :: "string option"
  mp_dependency :: "string list"
  mp_public_dependency :: "i32 list"
  mp_weak_dependency :: "i32 list"
  mp_option_dependency :: "string list"
  mp_options :: "file_options option"
  mp_syntax :: "string option"
  mp_edition :: "string option"
  mp_source_code_info :: "source_code_info option"
  mp_message_order :: "string list"
  mp_enum_order :: "string list"
  mp_service_order :: "string list"
  mp_extension :: "field_descriptor list"
  mp_dependency_commit :: "string list"

definition default_meta :: meta_payload where
  "default_meta = \<lparr>mp_name = None, mp_package = None, mp_dependency = [], mp_public_dependency = [], mp_weak_dependency = [],
     mp_option_dependency = [], mp_options = None, mp_syntax = None, mp_edition = None, mp_source_code_info = None,
     mp_message_order = [], mp_enum_order = [], mp_service_order = [], mp_extension = [], mp_dependency_commit = []\<rparr>"

text \<open>The fields of the first layout; \<open>dependency_commit\<close> has been appended to it.\<close>

definition encode_meta_fields :: "proto_lib \<Rightarrow> meta_payload \<Rightarrow> bytes" where
  "encode_meta_fields pl meta =
     write_opt_str (mp_name meta) @ write_opt_str (mp_package meta) @ write_str_vec (mp_dependency meta) @
     write_i32_vec (mp_public_dependency meta) @ write_i32_vec (mp_weak_dependency meta) @
     write_str_vec (mp_option_dependency meta) @ write_opt (encode_file_options pl) (mp_options meta) @
     write_opt_str (mp_syntax meta) @ write_opt_str (mp_edition meta) @
     write_opt encode_source_code_info (mp_source_code_info meta) @ write_str_vec (mp_message_order meta) @
     write_str_vec (mp_enum_order meta) @ write_str_vec (mp_service_order meta) @
     write_vec (encode_field_descriptor pl) (mp_extension meta)"

definition encode_meta :: "proto_lib \<Rightarrow> meta_payload \<Rightarrow> bytes" where
  "encode_meta pl meta = write_u8 blob_version @ encode_meta_fields pl meta @ write_str_vec (mp_dependency_commit meta)"

definition decode_meta_fields :: "proto_lib \<Rightarrow> meta_payload decoder" where
  "decode_meta_fields pl =
     io_bind read_opt_str (\<lambda>name'. io_bind read_opt_str (\<lambda>package. io_bind read_str_vec (\<lambda>dependency.
     io_bind read_i32_vec (\<lambda>public_dependency. io_bind read_i32_vec (\<lambda>weak_dependency.
     io_bind read_str_vec (\<lambda>option_dependency. io_bind (read_opt decode_file_options) (\<lambda>options'.
     io_bind read_opt_str (\<lambda>syntax. io_bind read_opt_str (\<lambda>edition.
     io_bind (read_opt decode_source_code_info) (\<lambda>source_code_info. io_bind read_str_vec (\<lambda>message_order.
     io_bind read_str_vec (\<lambda>enum_order. io_bind read_str_vec (\<lambda>service_order.
     io_bind (read_vec (decode_field_descriptor pl)) (\<lambda>extension.
     io_bind (\<lambda>r. if is_at_end r then io_return [] r else read_str_vec r) (\<lambda>dependency_commit.
     io_return \<lparr>mp_name = name', mp_package = package, mp_dependency = dependency, mp_public_dependency = public_dependency,
       mp_weak_dependency = weak_dependency, mp_option_dependency = option_dependency, mp_options = options', mp_syntax = syntax,
       mp_edition = edition, mp_source_code_info = source_code_info, mp_message_order = message_order, mp_enum_order = enum_order,
       mp_service_order = service_order, mp_extension = extension, mp_dependency_commit = dependency_commit\<rparr>)))))))))))))))"

definition decode_meta :: "proto_lib \<Rightarrow> bytes \<Rightarrow> blob_error + meta_payload" where
  "decode_meta pl bs =
     (if bs = [] then Inr default_meta
      else fst (io_bind check_version (\<lambda>_. malformed (decode_meta_fields pl)) (new_reader bs)))"

section \<open>Round trips\<close>

definition fits_payload :: "nat \<Rightarrow> decl_payload \<Rightarrow> bool" where
  "fits_payload stack payload \<longleftrightarrow>
     (case payload of PMessage m \<Rightarrow> fits_descriptor m \<and> nesting m \<le> stack | PEnum e \<Rightarrow> fits_enum_descriptor e
      | PService s \<Rightarrow> fits_service_descriptor s)"

definition fits_meta :: "meta_payload \<Rightarrow> bool" where
  "fits_meta x \<longleftrightarrow>
     pred_option fits_str (mp_name x) \<and> pred_option fits_str (mp_package x) \<and> fits_vec fits_str (mp_dependency x) \<and>
     length (mp_public_dependency x) < 2 ^ 63 \<and> length (mp_weak_dependency x) < 2 ^ 63 \<and>
     fits_vec fits_str (mp_option_dependency x) \<and> pred_option fits_file_options (mp_options x) \<and>
     pred_option fits_str (mp_syntax x) \<and> pred_option fits_str (mp_edition x) \<and>
     pred_option fits_source_code_info (mp_source_code_info x) \<and> fits_vec fits_str (mp_message_order x) \<and>
     fits_vec fits_str (mp_enum_order x) \<and> fits_vec fits_str (mp_service_order x) \<and>
     fits_vec fits_field_descriptor (mp_extension x) \<and> fits_vec fits_str (mp_dependency_commit x)"

lemma malformed_run: "m r = (Inr x, r') \<Longrightarrow> malformed m r = (Inr x, r')"
  by (simp add: malformed_def io_map_err_def)

lemma read_u8_write [codec_simps]: "read_u8 (n, write_u8 b @ rest) = (Inr b, (n, rest))"
  by (simp add: read_u8_def write_u8_def)

lemma check_version_write: "check_version (n, write_u8 blob_version @ rest) = (Inr (), (n, rest))"
  by (simp add: check_version_def io_bind_step malformed_run codec_simps io_return_def)

lemma write_str_vec_nonempty: "write_str_vec xs \<noteq> []"
  by (simp add: write_str_vec_def write_uvarint.simps Let_def)

context proto_enums
begin

lemma decode_decl_encode:
  assumes "fits_payload stack p" "length (encode_decl pl p) < 2 ^ 63"
  shows "decode_decl pl stack (encode_decl pl p) = Inr p"
proof -
  note small = assms(2)
  have tags: "tag_enum \<noteq> tag_message" "tag_service \<noteq> tag_message" "tag_service \<noteq> tag_enum"
    by (simp_all add: tag_message_def tag_enum_def tag_service_def)
  define n where "n = length (encode_decl pl p)"
  have n: "n < 2 ^ 63" using small by (simp add: n_def)
  have tail: "decode_descriptor pl stack (n, encode_descriptor pl m) = (Inr m, (n, []))" if "p = PMessage m" for m
    using descriptor_enc [OF n, of m stack "[]"] assms(1) that by (simp add: fits_payload_def)
  have tail2: "decode_enum_descriptor (n, encode_enum_descriptor pl e) = (Inr e, (n, []))" if "p = PEnum e" for e
    using enum_descriptor_enc(3) [OF n, of e "[]"] assms(1) that by (simp add: fits_payload_def)
  have tail3: "decode_service_descriptor (n, encode_service_descriptor pl s) = (Inr s, (n, []))" if "p = PService s" for s
    using service_descriptor_enc(3) [OF n, of s "[]"] assms(1) that by (simp add: fits_payload_def)
  show ?thesis unfolding decode_decl_def new_reader_def n_def [symmetric]
    using tail tail2 tail3 tags
    by (cases p) (simp_all add: encode_decl_def io_bind_step check_version_write malformed_run codec_simps io_return_def)
qed

lemma decode_meta_fields_encode:
  assumes "fits_meta m" "n < 2 ^ 63"
  shows "decode_meta_fields pl (n, encode_meta_fields pl m @ write_str_vec (mp_dependency_commit m)) = (Inr m, (n, []))"
    "decode_meta_fields pl (n, encode_meta_fields pl m) = (Inr (m\<lparr>mp_dependency_commit := []\<rparr>), (n, []))"
proof -
  have commits: "read_str_vec (n, write_str_vec (mp_dependency_commit m)) = (Inr (mp_dependency_commit m), (n, []))"
    using basic_vec_enc(1) [OF assms(2), of "mp_dependency_commit m" "[]"] assms(1) by (simp add: fits_meta_def)
  have ext: "read_vec (decode_field_descriptor pl) (n, write_vec (encode_field_descriptor pl) (mp_extension m)) = (Inr (mp_extension m), (n, []))"
    using field_descriptor_enc(1) [OF assms(2), of "mp_extension m" "[]"] assms(1) by (simp add: fits_meta_def)
  show "decode_meta_fields pl (n, encode_meta_fields pl m @ write_str_vec (mp_dependency_commit m)) = (Inr m, (n, []))"
    using assms by (simp add: encode_meta_fields_def decode_meta_fields_def fits_meta_def io_bind_step io_return_def codec_simps is_at_end_def
        write_str_vec_nonempty commits)
  show "decode_meta_fields pl (n, encode_meta_fields pl m) = (Inr (m\<lparr>mp_dependency_commit := []\<rparr>), (n, []))"
    using assms by (simp add: encode_meta_fields_def decode_meta_fields_def fits_meta_def io_bind_step io_return_def codec_simps is_at_end_def ext)
qed

lemma decode_meta_encode:
  assumes "fits_meta m" "length (encode_meta pl m) < 2 ^ 63"
  shows "decode_meta pl (encode_meta pl m) = Inr m"
    "decode_meta pl (write_u8 blob_version @ encode_meta_fields pl m) = Inr (m\<lparr>mp_dependency_commit := []\<rparr>)"
proof -
  have "write_u8 blob_version \<noteq> []" by (simp add: write_u8_def)
  moreover have "length (write_u8 blob_version @ encode_meta_fields pl m) < 2 ^ 63" using assms(2) by (simp add: encode_meta_def)
  ultimately show "decode_meta pl (encode_meta pl m) = Inr m"
    "decode_meta pl (write_u8 blob_version @ encode_meta_fields pl m) = Inr (m\<lparr>mp_dependency_commit := []\<rparr>)"
    using decode_meta_fields_encode [OF assms(1)] assms(2)
    by (simp_all add: decode_meta_def new_reader_def encode_meta_def io_bind_step check_version_write malformed_run)
qed

end

section \<open>An instance of the library\<close>

definition reference_proto :: proto_lib where
  "reference_proto = \<lparr>
     pl_type_int = (\<lambda>t. case t of FtMessage \<Rightarrow> 1 | FtEnum \<Rightarrow> 2 | FtGroup \<Rightarrow> 3 | FtScalar b \<Rightarrow> ucast b + 4),
     pl_type_from_int = (\<lambda>i. if 4 \<le> i \<and> i < 260 then Some (FtScalar (ucast (i - 4)))
       else if i = 1 then Some FtMessage else if i = 2 then Some FtEnum else if i = 3 then Some FtGroup else None),
     pl_type_name = (\<lambda>t. case t of
         FtScalar b \<Rightarrow> (if b = 0 then ''int32'' else if b = 1 then ''int64'' else if b = 2 then ''string'' else [char_of (unat b)])
       | _ \<Rightarrow> ''message''),
     pl_type_from_name = (\<lambda>n. if n = ''int32'' then Some (FtScalar 0) else if n = ''int64'' then Some (FtScalar 1)
       else if n = ''string'' then Some (FtScalar 2)
       else (case n of [c] \<Rightarrow> if (of_char c :: nat) \<ge> 3 then Some (FtScalar (of_char c)) else None | _ \<Rightarrow> None)),
     pl_wire_type = (\<lambda>t. case t of FtScalar b \<Rightarrow> (if b = 2 then LengthDelimited else WireOther 0) | FtEnum \<Rightarrow> WireOther 0 | _ \<Rightarrow> LengthDelimited),
     pl_label_int = (\<lambda>l. case l of LOptional \<Rightarrow> 1 | LRequired \<Rightarrow> 2 | LRepeated \<Rightarrow> 3),
     pl_label_from_int = (\<lambda>i. if i = 1 then Some LOptional else if i = 2 then Some LRequired else if i = 3 then Some LRepeated else None),
     pl_visibility_int = (\<lambda>v. case v of VExport \<Rightarrow> 0 | VLocal \<Rightarrow> 1),
     pl_optimize_int = (\<lambda>v. case v of OSpeed \<Rightarrow> 1 | OCodeSize \<Rightarrow> 2 | OLiteRuntime \<Rightarrow> 3),
     pl_ctype_int = (\<lambda>v. case v of CtString \<Rightarrow> 0 | CtCord \<Rightarrow> 1 | CtStringPiece \<Rightarrow> 2),
     pl_jstype_int = (\<lambda>v. case v of JsNormal \<Rightarrow> 0 | JsString \<Rightarrow> 1 | JsNumber \<Rightarrow> 2),
     pl_idempotency_int = (\<lambda>v. case v of IdempotencyUnknown \<Rightarrow> 0 | NoSideEffects \<Rightarrow> 1 | IdIdempotent \<Rightarrow> 2),
     pl_camel_case = id\<rparr>"

interpretation rpe: proto_enums reference_proto
proof
  fix t
  have "unat (ucast b + 4 :: i32) = unat b + 4" for b :: "8 word"
    using unsigned_less [of b, where 'a = nat] by (simp add: unat_word_ariths unsigned_ucast_eq take_bit_eq_mod)
  then have "4 \<le> (ucast b + 4 :: i32) \<and> (ucast b + 4 :: i32) < 260" for b :: "8 word"
    using unsigned_less [of b, where 'a = nat] by (simp add: word_le_nat_alt word_less_nat_alt)
  moreover have "ucast (ucast b :: i32) = b" for b :: "8 word" by (rule bit_word_eqI) (simp add: bit_simps)
  ultimately show "pl_type_from_int reference_proto (pl_type_int reference_proto t) = Some t"
    by (cases t) (auto simp: reference_proto_def word_le_nat_alt)
next
  fix l
  show "pl_label_from_int reference_proto (pl_label_int reference_proto l) = Some l" by (cases l) (simp_all add: reference_proto_def)
qed (simp_all add: reference_proto_def)

text \<open>
  C40: What the compiler stores it reads back.  Every declaration is decoded from its blob as it was encoded, given a stack as deep as its messages
  are nested; so are the file's metadata; and a metadata blob of the first layout, without the pinned commits, is read
  with the same fields and no pins.
\<close>

theorem blob_roundtrip:
  assumes "proto_enums pl" and "fits_payload stack p" "length (encode_decl pl p) < 2 ^ 63"
    and "fits_meta m" "length (encode_meta pl m) < 2 ^ 63"
  shows "decode_decl pl stack (encode_decl pl p) = Inr p \<and> decode_meta pl (encode_meta pl m) = Inr m
    \<and> decode_meta pl (write_u8 blob_version @ encode_meta_fields pl m) = Inr (m\<lparr>mp_dependency_commit := []\<rparr>)"
  using proto_enums.decode_decl_encode [OF assms(1-3)] proto_enums.decode_meta_encode [OF assms(1,4,5)] by blast

definition sample_field :: "string \<Rightarrow> i32 \<Rightarrow> field_type \<Rightarrow> field_descriptor" where
  "sample_field n i t = \<lparr>fd_name = Some n, fd_number = Some i, fd_label = None, fd_type = Some t, fd_type_name = None, fd_extendee = None,
     fd_default_value = None, fd_oneof_index = None, fd_json_name = Some n, fd_options = None, fd_proto3_optional = None\<rparr>"

definition sample_message :: descriptor where
  "sample_message = Descriptor (Some ''Outer'') [sample_field ''a'' 1 (FtScalar 1), sample_field ''b'' (- 3) FtMessage] []
     [Descriptor (Some ''Inner'') [sample_field ''c'' 300 (FtScalar 2)] [] [] [] [] [] None [] [] None] [] [] [] None
     [\<lparr>rr_start = Some 7, rr_end = Some 9\<rparr>] [''old''] (Some VLocal)"

definition sample_meta :: meta_payload where
  "sample_meta = default_meta\<lparr>mp_package := Some ''a.b'', mp_dependency := [''x.proto''], mp_syntax := Some ''proto3'',
     mp_message_order := [''Outer''], mp_dependency_commit := [''abc123'']\<rparr>"

lemma sample_text_fits [simp]:
  "fits_str ''Outer''" "fits_str ''Inner''" "fits_str ''a''" "fits_str ''b''" "fits_str ''c''" "fits_str ''old''" "fits_str ''a.b''"
  "fits_str ''x.proto''" "fits_str ''proto3''" "fits_str ''abc123''"
  unfolding fits_str_def by (rule conjI, simp, code_simp)+

theorem blob_roundtrip_witness:
  "decode_decl reference_proto 2 (encode_decl reference_proto (PMessage sample_message)) = Inr (PMessage sample_message)
    \<and> decode_meta reference_proto (encode_meta reference_proto sample_meta) = Inr sample_meta"
proof -
  have fits: "fits_payload 2 (PMessage sample_message)" "fits_meta sample_meta"
    by (simp_all add: fits_payload_def fits_meta_def sample_message_def sample_meta_def sample_field_def default_meta_def
        fits_vec_def fits_field_descriptor_def fits_reserved_range_def)
  have "length (encode_decl reference_proto (PMessage sample_message)) \<le> 200" "length (encode_meta reference_proto sample_meta) \<le> 200"
    by code_simp+
  then have "length (encode_decl reference_proto (PMessage sample_message)) < 2 ^ 63"
    "length (encode_meta reference_proto sample_meta) < 2 ^ 63" by simp_all
  then show ?thesis using blob_roundtrip [OF rpe.proto_enums_axioms] fits by blast
qed

end
