(* ===== verification/Proto_Ops.thy ===== *)
theory Proto_Ops
  imports Proto_Blob
begin

text \<open>
  The operations on a protobuf schema and the envelope in which they travel (\<open>operations.rs\<close>).  The payload of an operation is a
  message of the \<open>prost\<close> package: the model keeps the tags and types its attributes declare, and takes the encoding of
  such a message from the package.
\<close>

section \<open>Messages of the package\<close>

type_synonym u32 = "32 word"

datatype prost_type = TString | TStrings | TUint32 | TInt32 | TBool | TBytes

datatype prost_value = VString string | VStrings "string list" | VUint32 u32 | VInt32 i32 | VBool bool | VBytes bytes

fun prost_type_of :: "prost_value \<Rightarrow> prost_type" where
  "prost_type_of (VString _) = TString"
| "prost_type_of (VStrings _) = TStrings"
| "prost_type_of (VUint32 _) = TUint32"
| "prost_type_of (VInt32 _) = TInt32"
| "prost_type_of (VBool _) = TBool"
| "prost_type_of (VBytes _) = TBytes"

text \<open>A message is the list of its fields in the order of the declaration, each with its tag.\<close>

type_synonym prost_message = "(nat \<times> prost_value) list"
type_synonym prost_schema = "(nat \<times> prost_type) list"

definition prost_schema_of :: "prost_message \<Rightarrow> prost_schema" where
  "prost_schema_of m = map (\<lambda>(t, v). (t, prost_type_of v)) m"

record prost_lib =
  pr_encode_to_vec :: "prost_message \<Rightarrow> bytes"
  pr_decode :: "prost_schema \<Rightarrow> bytes \<Rightarrow> string + prost_message"

section \<open>Operations\<close>

datatype proto_op =
    AddField string string string u32 string
  | RemoveField string string
  | RenameField string string string
  | ChangeFieldType string string string
  | ChangeCardinality string string string
  | ReorderFields string "string list"
  | ChangeFieldNumber string string i32
  | CreateMessage string
  | RenameMessage string string
  | DeleteMessage string
  | CreateEnum string
  | DeleteEnum string
  | AddEnumValue string string i32
  | RemoveEnumValue string string
  | RenameEnumValue string string string
  | AddService string
  | RemoveService string
  | RenameService string string
  | AddRpc string string string string bool bool
  | RemoveRpc string string
  | RenameRpc string string string
  | ChangeRpcType string string string string
  | UpdateImport string string bool

fun op_tag :: "proto_op \<Rightarrow> u32" where
  "op_tag (AddField _ _ _ _ _) = 1"
| "op_tag (RemoveField _ _) = 2"
| "op_tag (RenameField _ _ _) = 3"
| "op_tag (ChangeFieldType _ _ _) = 4"
| "op_tag (ChangeCardinality _ _ _) = 5"
| "op_tag (ReorderFields _ _) = 6"
| "op_tag (ChangeFieldNumber _ _ _) = 7"
| "op_tag (CreateMessage _) = 10"
| "op_tag (RenameMessage _ _) = 11"
| "op_tag (DeleteMessage _) = 12"
| "op_tag (CreateEnum _) = 20"
| "op_tag (DeleteEnum _) = 21"
| "op_tag (AddEnumValue _ _ _) = 22"
| "op_tag (RemoveEnumValue _ _) = 23"
| "op_tag (RenameEnumValue _ _ _) = 24"
| "op_tag (AddService _) = 30"
| "op_tag (RemoveService _) = 31"
| "op_tag (RenameService _ _) = 32"
| "op_tag (AddRpc _ _ _ _ _ _) = 33"
| "op_tag (RemoveRpc _ _) = 34"
| "op_tag (RenameRpc _ _ _) = 35"
| "op_tag (ChangeRpcType _ _ _ _) = 36"
| "op_tag (UpdateImport _ _ _) = 40"

fun op_payload :: "proto_op \<Rightarrow> prost_message" where
  "op_payload (AddField message_name field_name field_type field_number cardinality) = [(1, VString message_name), (2, VString field_name), (3, VString field_type), (4, VUint32 field_number), (5, VString cardinality)]"
| "op_payload (RemoveField message_name field_name) = [(1, VString message_name), (2, VString field_name)]"
| "op_payload (RenameField message_name old_field_name new_field_name) = [(1, VString message_name), (2, VString old_field_name), (3, VString new_field_name)]"
| "op_payload (ChangeFieldType message_name field_name new_type) = [(1, VString message_name), (2, VString field_name), (3, VString new_type)]"
| "op_payload (ChangeCardinality message_name field_name new_cardinality) = [(1, VString message_name), (2, VString field_name), (3, VString new_cardinality)]"
| "op_payload (ReorderFields message_name field_order) = [(1, VString message_name), (2, VStrings field_order)]"
| "op_payload (ChangeFieldNumber message_name field_name new_number) = [(1, VString message_name), (2, VString field_name), (3, VInt32 new_number)]"
| "op_payload (CreateMessage message_name) = [(1, VString message_name)]"
| "op_payload (RenameMessage old_name new_name) = [(1, VString old_name), (2, VString new_name)]"
| "op_payload (DeleteMessage message_name) = [(1, VString message_name)]"
| "op_payload (CreateEnum enum_name) = [(1, VString enum_name)]"
| "op_payload (DeleteEnum enum_name) = [(1, VString enum_name)]"
| "op_payload (AddEnumValue enum_name value_name number) = [(1, VString enum_name), (2, VString value_name), (3, VInt32 number)]"
| "op_payload (RemoveEnumValue enum_name value_name) = [(1, VString enum_name), (2, VString value_name)]"
| "op_payload (RenameEnumValue enum_name old_value_name new_value_name) = [(1, VString enum_name), (2, VString old_value_name), (3, VString new_value_name)]"
| "op_payload (AddService service_name) = [(1, VString service_name)]"
| "op_payload (RemoveService service_name) = [(1, VString service_name)]"
| "op_payload (RenameService old_name new_name) = [(1, VString old_name), (2, VString new_name)]"
| "op_payload (AddRpc service_name rpc_name request_type response_type client_streaming server_streaming) = [(1, VString service_name), (2, VString rpc_name), (3, VString request_type), (4, VString response_type), (5, VBool client_streaming), (6, VBool server_streaming)]"
| "op_payload (RemoveRpc service_name rpc_name) = [(1, VString service_name), (2, VString rpc_name)]"
| "op_payload (RenameRpc service_name old_rpc_name new_rpc_name) = [(1, VString service_name), (2, VString old_rpc_name), (3, VString new_rpc_name)]"
| "op_payload (ChangeRpcType service_name rpc_name new_request_type new_response_type) = [(1, VString service_name), (2, VString rpc_name), (3, VString new_request_type), (4, VString new_response_type)]"
| "op_payload (UpdateImport import_path resolved_commit remove) = [(1, VString import_path), (2, VString resolved_commit), (3, VBool remove)]"

text \<open>What \<open>OpX::decode\<close> expects for each tag, and the operation it makes of the fields.\<close>

definition op_schemas :: "(u32 \<times> prost_schema) list" where
  "op_schemas =
    [(1, [(1, TString), (2, TString), (3, TString), (4, TUint32), (5, TString)]),
     (2, [(1, TString), (2, TString)]),
     (3, [(1, TString), (2, TString), (3, TString)]),
     (4, [(1, TString), (2, TString), (3, TString)]),
     (5, [(1, TString), (2, TString), (3, TString)]),
     (6, [(1, TString), (2, TStrings)]),
     (7, [(1, TString), (2, TString), (3, TInt32)]),
     (10, [(1, TString)]),
     (11, [(1, TString), (2, TString)]),
     (12, [(1, TString)]),
     (20, [(1, TString)]),
     (21, [(1, TString)]),
     (22, [(1, TString), (2, TString), (3, TInt32)]),
     (23, [(1, TString), (2, TString)]),
     (24, [(1, TString), (2, TString), (3, TString)]),
     (30, [(1, TString)]),
     (31, [(1, TString)]),
     (32, [(1, TString), (2, TString)]),
     (33, [(1, TString), (2, TString), (3, TString), (4, TString), (5, TBool), (6, TBool)]),
     (34, [(1, TString), (2, TString)]),
     (35, [(1, TString), (2, TString), (3, TString)]),
     (36, [(1, TString), (2, TString), (3, TString), (4, TString)]),
     (40, [(1, TString), (2, TString), (3, TBool)])]"

definition op_of_payload :: "u32 \<Rightarrow> prost_message \<Rightarrow> proto_op option" where
  "op_of_payload tag payload =
    (case map snd payload of
       [VString a, VString b, VString c, VUint32 d, VString e] \<Rightarrow>
          if tag = 1 then Some (AddField a b c d e) else None
     | [VString a, VString b] \<Rightarrow>
          if tag = 2 then Some (RemoveField a b) else if tag = 11 then Some (RenameMessage a b) else if tag = 23 then Some (RemoveEnumValue a b) else if tag = 32 then Some (RenameService a b) else if tag = 34 then Some (RemoveRpc a b) else None
     | [VString a, VString b, VString c] \<Rightarrow>
          if tag = 3 then Some (RenameField a b c) else if tag = 4 then Some (ChangeFieldType a b c) else if tag = 5 then Some (ChangeCardinality a b c) else if tag = 24 then Some (RenameEnumValue a b c) else if tag = 35 then Some (RenameRpc a b c) else None
     | [VString a, VStrings b] \<Rightarrow>
          if tag = 6 then Some (ReorderFields a b) else None
     | [VString a, VString b, VInt32 c] \<Rightarrow>
          if tag = 7 then Some (ChangeFieldNumber a b c) else if tag = 22 then Some (AddEnumValue a b c) else None
     | [VString a] \<Rightarrow>
          if tag = 10 then Some (CreateMessage a) else if tag = 12 then Some (DeleteMessage a) else if tag = 20 then Some (CreateEnum a) else if tag = 21 then Some (DeleteEnum a) else if tag = 30 then Some (AddService a) else if tag = 31 then Some (RemoveService a) else None
     | [VString a, VString b, VString c, VString d, VBool e, VBool f] \<Rightarrow>
          if tag = 33 then Some (AddRpc a b c d e f) else None
     | [VString a, VString b, VString c, VString d] \<Rightarrow>
          if tag = 36 then Some (ChangeRpcType a b c d) else None
     | [VString a, VString b, VBool c] \<Rightarrow>
          if tag = 40 then Some (UpdateImport a b c) else None
     | _ \<Rightarrow> None)"

definition envelope :: "u32 \<Rightarrow> bytes \<Rightarrow> prost_message" where
  "envelope tag payload = [(1, VUint32 tag), (2, VBytes payload)]"

definition encode_op :: "prost_lib \<Rightarrow> proto_op \<Rightarrow> bytes" where
  "encode_op pr op = pr_encode_to_vec pr (envelope (op_tag op) (pr_encode_to_vec pr (op_payload op)))"

text \<open>A decoder of the package that returns fields of other types than it was asked for has no counterpart in the code.\<close>

definition decode_op :: "prost_lib \<Rightarrow> bytes \<Rightarrow> mutation_error + proto_op" where
  "decode_op pr bs =
     and_then (map_err InvalidOperationBytes (pr_decode pr [(1, TUint32), (2, TBytes)] bs)) (\<lambda>env.
     case map snd env of
       [VUint32 tag, VBytes p] \<Rightarrow>
         (case map_of op_schemas tag of
            Some schema \<Rightarrow>
              and_then (map_err InvalidOperationBytes (pr_decode pr schema p)) (\<lambda>payload.
              ok_or (InvalidOperationBytes ''ill-typed message'') (op_of_payload tag payload))
          | None \<Rightarrow> Inl (InvalidOperationBytes (''unknown op tag: '' @ show_nat (unat tag))))
     | _ \<Rightarrow> Inl (InvalidOperationBytes ''ill-typed message''))"

locale prost_package =
  fixes pr :: prost_lib
  assumes pr_roundtrip: "distinct (map fst m) \<Longrightarrow> pr_decode pr (prost_schema_of m) (pr_encode_to_vec pr m) = Inr m"
begin

lemma decode_encode_op: "decode_op pr (encode_op pr op) = Inr op"
proof -
  have "pr_decode pr [(1, TUint32), (2, TBytes)] (encode_op pr op) = Inr (envelope (op_tag op) (pr_encode_to_vec pr (op_payload op)))"
    using pr_roundtrip [of "envelope (op_tag op) (pr_encode_to_vec pr (op_payload op))"]
    by (simp add: encode_op_def envelope_def prost_schema_of_def)
  moreover have "map_of op_schemas (op_tag op) = Some (prost_schema_of (op_payload op)) \<and> distinct (map fst (op_payload op))
      \<and> op_of_payload (op_tag op) (op_payload op) = Some op"
    by (cases op) (simp_all add: op_schemas_def prost_schema_of_def op_of_payload_def)
  ultimately show ?thesis using pr_roundtrip [of "op_payload op"] by (simp add: decode_op_def envelope_def)
qed

end

section \<open>An instance of the package\<close>

text \<open>Every text ends with a zero byte, and every byte of it follows a one.\<close>

fun ref_write :: "bytes \<Rightarrow> bytes" where
  "ref_write [] = [0]"
| "ref_write (b # bs) = 1 # b # ref_write bs"

fun ref_read :: "bytes \<Rightarrow> bytes \<times> bytes" where
  "ref_read (b # c # bs) = (if b = 1 then (case ref_read bs of (xs, rest) \<Rightarrow> (c # xs, rest)) else ([], c # bs))"
| "ref_read bs = ([], tl bs)"

fun ref_write_all :: "bytes list \<Rightarrow> bytes" where
  "ref_write_all [] = [0]"
| "ref_write_all (x # xs) = 1 # ref_write x @ ref_write_all xs"

fun ref_read_all :: "nat \<Rightarrow> bytes \<Rightarrow> bytes list" where
  "ref_read_all (Suc k) (b # bs) = (if b = 1 then (case ref_read bs of (x, rest) \<Rightarrow> x # ref_read_all k rest) else [])"
| "ref_read_all _ _ = []"

definition ref_word :: "32 word \<Rightarrow> bytes" where
  "ref_word w = map (\<lambda>i. of_bool (bit w i)) [0..<32]"

definition ref_unword :: "bytes \<Rightarrow> 32 word" where
  "ref_unword bs = horner_sum of_bool 2 (map (\<lambda>b. b = 1) bs)"

fun ref_value :: "prost_value \<Rightarrow> bytes" where
  "ref_value (VString s) = ascii_bytes s"
| "ref_value (VStrings ss) = ref_write_all (map ascii_bytes ss)"
| "ref_value (VUint32 w) = ref_word w"
| "ref_value (VInt32 w) = ref_word w"
| "ref_value (VBool b) = [of_bool b]"
| "ref_value (VBytes bs) = bs"

fun ref_unvalue :: "prost_type \<Rightarrow> bytes \<Rightarrow> prost_value" where
  "ref_unvalue TString bs = VString (str_of_bytes bs)"
| "ref_unvalue TStrings bs = VStrings (map str_of_bytes (ref_read_all (length bs) bs))"
| "ref_unvalue TUint32 bs = VUint32 (ref_unword bs)"
| "ref_unvalue TInt32 bs = VInt32 (ref_unword bs)"
| "ref_unvalue TBool bs = VBool (bs = [1])"
| "ref_unvalue TBytes bs = VBytes bs"

definition reference_prost :: prost_lib where
  "reference_prost = \<lparr>pr_encode_to_vec = (\<lambda>m. ref_write_all (map (\<lambda>(_, v). ref_value v) m)),
     pr_decode = (\<lambda>schema bs. Inr (map2 (\<lambda>(t, ty) b. (t, ref_unvalue ty b)) schema (ref_read_all (length bs) bs)))\<rparr>"

lemma ref_read_write: "ref_read (ref_write xs @ rest) = (xs, rest)"
  by (induction xs) (cases rest; simp)+

lemma ref_read_write_all: "length (ref_write_all xs) \<le> k \<Longrightarrow> ref_read_all k (ref_write_all xs) = xs"
proof (induction xs arbitrary: k)
  case (Cons x xs)
  then show ?case by (cases k) (simp_all add: ref_read_write)
next
  case Nil
  then show ?case by (cases k) simp_all
qed

lemma ref_word_roundtrip: "ref_unword (ref_word w) = w"
proof -
  have "map (\<lambda>b. b = 1) (map (\<lambda>i. of_bool (bit w i) :: 8 word) is) = map (bit w) is" for "is" by (induction "is") auto
  then have "ref_unword (ref_word w) = take_bit 32 w" unfolding ref_unword_def ref_word_def by (simp only: horner_sum_bit_eq_take_bit)
  also have "\<dots> = w" by (rule bit_word_eqI) (simp add: bit_simps)
  finally show ?thesis .
qed

lemma ref_value_roundtrip: "ref_unvalue (prost_type_of v) (ref_value v) = v"
  by (cases v) (simp_all add: ref_word_roundtrip ref_read_write_all comp_def)

interpretation rpr: prost_package reference_prost
proof
  fix m :: prost_message
  have "map2 (\<lambda>(t, ty) b. (t, ref_unvalue ty b)) (prost_schema_of m) (map (\<lambda>(_, v). ref_value v) m) = m"
    by (induction m) (auto simp: prost_schema_of_def ref_value_roundtrip)
  then show "pr_decode reference_prost (prost_schema_of m) (pr_encode_to_vec reference_prost m) = Inr m"
    by (simp add: reference_prost_def ref_read_write_all)
qed

end
