(* ===== verification/Proto_Typecompat.thy ===== *)
theory Proto_Typecompat
  imports Proto_Ops
begin

text \<open>
  Which changes of a field's type the protobuf compiler accepts (\<open>typecompat.rs\<close>).  The arrow in its messages is written \<open>->\<close>.
\<close>

datatype type_change_compat = FullyCompat | BackwardOnly | Breaking

definition scalar_field_type :: "proto_lib \<Rightarrow> string \<Rightarrow> field_type option" where
  "scalar_field_type pl name = pl_type_from_name pl name"

definition wire_of_field :: "proto_lib \<Rightarrow> string \<Rightarrow> field_type option \<Rightarrow> wire_type" where
  "wire_of_field pl name field_type =
     (case field_type of
        Some t \<Rightarrow> pl_wire_type pl t
      | None \<Rightarrow> (case scalar_field_type pl name of Some t \<Rightarrow> pl_wire_type pl t | None \<Rightarrow> LengthDelimited))"

definition is_cross_wire_type_typed :: "proto_lib \<Rightarrow> string \<Rightarrow> field_type option \<Rightarrow> string \<Rightarrow> field_type option \<Rightarrow> bool" where
  "is_cross_wire_type_typed pl from from_ty to to_ty \<longleftrightarrow> wire_of_field pl from from_ty \<noteq> wire_of_field pl to to_ty"

definition allowlist_key :: "string \<Rightarrow> field_type option \<Rightarrow> string" where
  "allowlist_key name field_type = (case field_type of Some FtEnum \<Rightarrow> ''enum'' | _ \<Rightarrow> name)"

definition fully_changes :: "(string \<times> string) list" where
  "fully_changes =
     [(''int32'', ''int64''), (''uint32'', ''uint64''), (''sint32'', ''sint64''), (''string'', ''bytes''), (''bytes'', ''string''),
      (''int32'', ''uint32''), (''int32'', ''bool''), (''uint32'', ''int32''), (''enum'', ''int32''), (''int32'', ''enum''),
      (''enum'', ''uint32''), (''uint32'', ''enum''), (''enum'', ''int64''), (''enum'', ''uint64'')]"

definition backward_only_changes :: "(string \<times> string) list" where
  "backward_only_changes = [(''int64'', ''int32''), (''sint64'', ''sint32''), (''uint64'', ''uint32'')]"

definition classify_type_change_typed ::
    "proto_lib \<Rightarrow> string \<Rightarrow> field_type option \<Rightarrow> string \<Rightarrow> field_type option \<Rightarrow> type_change_compat" where
  "classify_type_change_typed pl from from_ty to to_ty =
     (if from = to then FullyCompat
      else if is_cross_wire_type_typed pl from from_ty to to_ty then Breaking
      else
        let from_key = allowlist_key from from_ty; to_key = allowlist_key to to_ty in
        if (from_key, to_key) \<in> set fully_changes then FullyCompat
        else if (from_key, to_key) \<in> set backward_only_changes then BackwardOnly
        else Breaking)"

definition type_change_allowed_typed ::
    "proto_lib \<Rightarrow> string \<Rightarrow> field_type option \<Rightarrow> string \<Rightarrow> field_type option \<Rightarrow> message + unit" where
  "type_change_allowed_typed pl from from_ty to to_ty =
     (if from = to then Inr ()
      else if is_cross_wire_type_typed pl from from_ty to to_ty
      then Inl (Msg ''type change '{}'->'{}' crosses the wire-type boundary (always breaking)'' [from, to])
      else case classify_type_change_typed pl from from_ty to to_ty of
        Breaking \<Rightarrow> Inl (Msg ''type change '{}'->'{}' is not in the allowlist'' [from, to])
      | _ \<Rightarrow> Inr ())"

text \<open>A mutation may change a type exactly where the classification does not call the change breaking.\<close>

lemma type_change_allowed_iff:
  "type_change_allowed_typed pl from from_ty to to_ty = Inr () \<longleftrightarrow> classify_type_change_typed pl from from_ty to to_ty \<noteq> Breaking"
  by (auto simp: type_change_allowed_typed_def classify_type_change_typed_def split: type_change_compat.splits)

lemma accepted_keeps_wire_type:
  "classify_type_change_typed pl from from_ty to to_ty \<noteq> Breaking \<Longrightarrow> from = to \<or> wire_of_field pl from from_ty = wire_of_field pl to to_ty"
  by (auto simp: classify_type_change_typed_def is_cross_wire_type_typed_def split: if_splits)

end
