(* ===== verification/Proto_Refs.thy ===== *)
theory Proto_Refs
  imports Proto_Typecompat
begin

text \<open>
  References between the declarations of a protobuf schema: which declaration names what, and the rewriting of references when a
  declaration or an enum value is renamed (the helper functions of \<open>mutations.rs\<close>).
\<close>

section \<open>Type references\<close>

text \<open>\<open>rsplit('.').next()\<close>: what follows the last dot.\<close>

definition last_segment :: "string \<Rightarrow> string" where
  "last_segment s = last (split_on (CHR ''.'') s)"

definition type_ref_matches :: "string \<Rightarrow> string \<Rightarrow> bool" where
  "type_ref_matches type_ref target \<longleftrightarrow> last_segment type_ref = target"

definition ref_names :: "string \<Rightarrow> string option \<Rightarrow> bool" where
  "ref_names target reference \<longleftrightarrow> (case reference of Some name \<Rightarrow> type_ref_matches name target | None \<Rightarrow> False)"

definition rename_type_ref :: "string \<Rightarrow> string \<Rightarrow> string \<Rightarrow> string option" where
  "rename_type_ref type_ref old new =
     (let (pre, simple) = (case rsplit_once (CHR ''.'') type_ref of Some (a, b) \<Rightarrow> (a @ ''.'', b) | None \<Rightarrow> ([], type_ref)) in
      if simple = old then Some (pre @ new) else None)"

definition field_references_type :: "string \<Rightarrow> field_descriptor \<Rightarrow> bool" where
  "field_references_type target field \<longleftrightarrow>
     ref_names target (fd_type_name field) \<or> ref_names target (fd_extendee field)"

fun message_references_type :: "string \<Rightarrow> descriptor \<Rightarrow> bool" where
  "message_references_type target (Descriptor name field extension nested_type enum_type extension_range oneof_decl options' reserved_range
       reserved_name visibility) \<longleftrightarrow>
     list_ex (field_references_type target) (field @ extension) \<or> list_ex (message_references_type target) nested_type"

definition service_references_type :: "string \<Rightarrow> service_descriptor \<Rightarrow> bool" where
  "service_references_type target service \<longleftrightarrow>
     list_ex (\<lambda>m. ref_names target (md_input_type m)
       \<or> ref_names target (md_output_type m)) (sd_method service)"

section \<open>References to enum values\<close>

definition field_references_enum_value :: "string \<Rightarrow> string \<Rightarrow> field_descriptor \<Rightarrow> bool" where
  "field_references_enum_value enum_name value_name field \<longleftrightarrow>
     ref_names enum_name (fd_type_name field) \<and> fd_default_value field = Some value_name"

fun message_references_enum_value :: "string \<Rightarrow> string \<Rightarrow> descriptor \<Rightarrow> bool" where
  "message_references_enum_value enum_name value_name (Descriptor name field extension nested_type enum_type extension_range oneof_decl
       options' reserved_range reserved_name visibility) \<longleftrightarrow>
     list_ex (field_references_enum_value enum_name value_name) (field @ extension)
     \<or> list_ex (message_references_enum_value enum_name value_name) nested_type"

section \<open>Renaming\<close>

text \<open>A function that changes its argument in place returns the new value and whether anything changed.\<close>

definition rename_ref :: "string \<Rightarrow> string \<Rightarrow> string option \<Rightarrow> string option \<times> bool" where
  "rename_ref old new reference =
     (case reference of
        None \<Rightarrow> (None, False)
      | Some r \<Rightarrow> (case rename_type_ref r old new of Some renamed \<Rightarrow> (Some renamed, True) | None \<Rightarrow> (Some r, False)))"

definition rename_refs_in_field :: "string \<Rightarrow> string \<Rightarrow> field_descriptor \<Rightarrow> field_descriptor \<times> bool" where
  "rename_refs_in_field old new field =
     (let (type_name, c1) = rename_ref old new (fd_type_name field); (extendee, c2) = rename_ref old new (fd_extendee field) in
      (field\<lparr>fd_type_name := type_name, fd_extendee := extendee\<rparr>, c1 \<or> c2))"

fun rename_refs_in_message :: "string \<Rightarrow> string \<Rightarrow> descriptor \<Rightarrow> descriptor \<times> bool" where
  "rename_refs_in_message old new (Descriptor name field extension nested_type enum_type extension_range oneof_decl options' reserved_range
       reserved_name visibility) =
     (let fs = map (rename_refs_in_field old new) field;
          xs = map (rename_refs_in_field old new) extension;
          ns = map (rename_refs_in_message old new) nested_type in
      (Descriptor name (map fst fs) (map fst xs) (map fst ns) enum_type extension_range oneof_decl options' reserved_range reserved_name
         visibility,
       list_ex snd fs \<or> list_ex snd xs \<or> list_ex snd ns))"

definition rename_enum_value_ref_in_field :: "string \<Rightarrow> string \<Rightarrow> string \<Rightarrow> field_descriptor \<Rightarrow> field_descriptor \<times> bool" where
  "rename_enum_value_ref_in_field enum_name old_value_name new_value_name field =
     (if field_references_enum_value enum_name old_value_name field
      then (field\<lparr>fd_default_value := Some new_value_name\<rparr>, True) else (field, False))"

fun rename_enum_value_refs_in_message :: "string \<Rightarrow> string \<Rightarrow> string \<Rightarrow> descriptor \<Rightarrow> descriptor \<times> bool" where
  "rename_enum_value_refs_in_message enum_name old_value new_value (Descriptor name field extension nested_type enum_type extension_range
       oneof_decl options' reserved_range reserved_name visibility) =
     (let fs = map (rename_enum_value_ref_in_field enum_name old_value new_value) field;
          xs = map (rename_enum_value_ref_in_field enum_name old_value new_value) extension;
          ns = map (rename_enum_value_refs_in_message enum_name old_value new_value) nested_type in
      (Descriptor name (map fst fs) (map fst xs) (map fst ns) enum_type extension_range oneof_decl options' reserved_range reserved_name
         visibility,
       list_ex snd fs \<or> list_ex snd xs \<or> list_ex snd ns))"

definition rename_refs_in_method :: "string \<Rightarrow> string \<Rightarrow> method_descriptor \<Rightarrow> method_descriptor \<times> bool" where
  "rename_refs_in_method old new m =
     (let (input, c1) = rename_ref old new (md_input_type m); (output, c2) = rename_ref old new (md_output_type m) in
      (m\<lparr>md_input_type := input, md_output_type := output\<rparr>, c1 \<or> c2))"

definition rename_refs_in_service :: "string \<Rightarrow> string \<Rightarrow> service_descriptor \<Rightarrow> service_descriptor \<times> bool" where
  "rename_refs_in_service old new svc =
     (let ms = map (rename_refs_in_method old new) (sd_method svc) in (svc\<lparr>sd_method := map fst ms\<rparr>, list_ex snd ms))"

section \<open>What renaming does\<close>

lemma split_on_delim: "\<exists>v ws. split_on d (p @ d # s) = v # ws \<and> ws \<noteq> [] \<and> last ws = last (split_on d s)"
  by (induction p) auto

lemma last_segment_simps [simp]: "CHR ''.'' \<notin> set s \<Longrightarrow> last_segment s = s" "last_segment (p @ CHR ''.'' # s) = last_segment s"
  using split_on_delim [of "CHR ''.''" p s] by (auto simp: last_segment_def)

lemma split_once_first: "d \<notin> set a \<Longrightarrow> split_once d (a @ d # b) = Some (a, b)" "d \<notin> set a \<Longrightarrow> split_once d a = None"
  by (induction a) auto

lemma rename_type_ref_cases:
  obtains (plain) "CHR ''.'' \<notin> set r" "last_segment r = r" "\<And>old new. rename_type_ref r old new = (if r = old then Some new else None)"
  | (dotted) p q where "CHR ''.'' \<notin> set q" "r = p @ CHR ''.'' # q" "last_segment r = q"
      "\<And>old new. rename_type_ref r old new = (if q = old then Some (p @ CHR ''.'' # new) else None)"
proof (cases "CHR ''.'' \<in> set r")
  case True
  then obtain p q where "r = p @ CHR ''.'' # q" "CHR ''.'' \<notin> set q" by (meson split_list_last)
  then show ?thesis
    using dotted split_once_first(1) [of "CHR ''.''" "rev q" "rev p"] by (simp add: rename_type_ref_def rsplit_once_def)
next
  case False
  then show ?thesis
    using plain split_once_first(2) [of "CHR ''.''" "rev r"] by (simp add: rename_type_ref_def rsplit_once_def)
qed

text \<open>Every reference to the old name is rewritten to one that ends with the new name, and nothing else is touched.\<close>

lemma rename_type_ref_iff: "rename_type_ref r old new = None \<longleftrightarrow> \<not> type_ref_matches r old"
  by (cases r rule: rename_type_ref_cases) (auto simp: type_ref_matches_def)

lemma rename_type_ref_segment: "rename_type_ref r old new = Some r' \<Longrightarrow> last_segment r' = last_segment new"
  by (cases r rule: rename_type_ref_cases) (auto split: if_splits)

lemma rename_ref_names:
  "ref_names t (fst (rename_ref old new r)) \<longleftrightarrow> (if ref_names old r then last_segment new = t else ref_names t r)"
proof (cases r)
  case (Some n)
  then show ?thesis
    using rename_type_ref_iff [of n old new] rename_type_ref_segment [of n old new]
    by (cases "rename_type_ref n old new") (auto simp: rename_ref_def ref_names_def type_ref_matches_def)
qed (simp add: rename_ref_def ref_names_def)

lemma rename_ref_changed: "snd (rename_ref old new r) \<longleftrightarrow> ref_names old r" "\<not> ref_names old r \<Longrightarrow> fst (rename_ref old new r) = r"
  using rename_type_ref_iff [of _ old new]
  by (auto simp: rename_ref_def ref_names_def split: option.splits) (metis option.distinct(1))+

lemma rename_refs_in_field_simps [simp]:
  "fd_type_name (fst (rename_refs_in_field old new f)) = fst (rename_ref old new (fd_type_name f))"
  "fd_extendee (fst (rename_refs_in_field old new f)) = fst (rename_ref old new (fd_extendee f))"
  "fd_name (fst (rename_refs_in_field old new f)) = fd_name f"
  "fd_number (fst (rename_refs_in_field old new f)) = fd_number f"
  by (simp_all add: rename_refs_in_field_def split: prod.splits)

lemma rename_refs_in_field_clean: "last_segment new \<noteq> old \<Longrightarrow> \<not> field_references_type old (fst (rename_refs_in_field old new f))"
  by (simp add: field_references_type_def rename_ref_names)

lemma rename_refs_in_message_clean: "last_segment new \<noteq> old \<Longrightarrow> \<not> message_references_type old (fst (rename_refs_in_message old new m))"
  by (induction m) (auto simp: Let_def list_ex_iff rename_refs_in_field_clean)

lemma rename_refs_in_service_clean: "last_segment new \<noteq> old \<Longrightarrow> \<not> service_references_type old (fst (rename_refs_in_service old new s))"
  by (auto simp: service_references_type_def rename_refs_in_service_def list_ex_iff rename_refs_in_method_def rename_ref_names
      split: prod.splits) (metis fst_conv rename_ref_names)+

text \<open>A declaration that is reported unchanged has not changed.\<close>

lemma rename_refs_in_field_same: "\<not> snd (rename_refs_in_field old new f) \<Longrightarrow> fst (rename_refs_in_field old new f) = f"
  using rename_ref_changed(1) [of old new "fd_type_name f"] rename_ref_changed(1) [of old new "fd_extendee f"]
    rename_ref_changed(2) [of old "fd_type_name f" new] rename_ref_changed(2) [of old "fd_extendee f" new]
  by (auto simp: rename_refs_in_field_def split: prod.splits)

lemma map_fst_same: "(\<And>x. x \<in> set xs \<Longrightarrow> \<not> snd (f x) \<Longrightarrow> fst (f x) = x) \<Longrightarrow> \<not> list_ex snd (map f xs) \<Longrightarrow> map fst (map f xs) = xs"
  by (induction xs) auto

lemma rename_refs_in_message_same: "\<not> snd (rename_refs_in_message old new m) \<Longrightarrow> fst (rename_refs_in_message old new m) = m"
  by (induction m) (auto simp: Let_def intro!: map_fst_same simp del: map_map intro: rename_refs_in_field_same)

lemma rename_enum_value_ref_same:
  "\<not> snd (rename_enum_value_ref_in_field e a b f) \<Longrightarrow> fst (rename_enum_value_ref_in_field e a b f) = f"
  by (auto simp: rename_enum_value_ref_in_field_def)

lemma rename_enum_value_refs_same:
  "\<not> snd (rename_enum_value_refs_in_message e a b m) \<Longrightarrow> fst (rename_enum_value_refs_in_message e a b m) = m"
  by (induction m) (auto simp: Let_def intro!: map_fst_same simp del: map_map intro: rename_enum_value_ref_same)

lemma rename_refs_in_service_same: "\<not> snd (rename_refs_in_service old new s) \<Longrightarrow> fst (rename_refs_in_service old new s) = s"
proof -
  have "fst (rename_refs_in_method old new m) = m" if "\<not> snd (rename_refs_in_method old new m)" for m
    using that rename_ref_changed(1) [of old new "md_input_type m"] rename_ref_changed(1) [of old new "md_output_type m"]
      rename_ref_changed(2) [of old "md_input_type m" new] rename_ref_changed(2) [of old "md_output_type m" new]
    by (auto simp: rename_refs_in_method_def split: prod.splits)
  then show "\<not> snd (rename_refs_in_service old new s) \<Longrightarrow> fst (rename_refs_in_service old new s) = s"
    using map_fst_same [of "sd_method s" "rename_refs_in_method old new"] by (simp add: rename_refs_in_service_def Let_def)
qed

end
