(* ===== verification/Proto_State.thy ===== *)
theory Proto_State
  imports Proto_Refs
begin

text \<open>
  The working state of mutations of a protobuf schema (\<open>mutations.rs\<close>): it is loaded from the stored blobs, the operations change it, and
  the effect on the stored blobs is read off it.  The state after a refused operation is dropped, so an operation returns the new
  state or an error.  \<open>i32\<close> arithmetic wraps, as in the release profile.
\<close>

section \<open>The working state\<close>

record working_state =
  ws_messages :: "(string, descriptor) btree"
  ws_enums :: "(string, enum_descriptor) btree"
  ws_services :: "(string, service_descriptor) btree"
  ws_meta :: meta_payload
  ws_meta_dirty :: bool
  ws_touched :: "string list"
  ws_removed :: "string list"
  ws_removed_enum_values :: "(string \<times> string) list"
  ws_defer_reference_integrity :: bool

type_synonym step = "working_state \<Rightarrow> mutation_error + working_state"

text \<open>The texts of the codec's errors; the position that \<open>std\<close> reports for ill-formed text is left out.\<close>

fun codec_error_text :: "codec_error \<Rightarrow> string" where
  "codec_error_text UnexpectedEnd = ''codec error: unexpected end of input''"
| "codec_error_text VarintTooLong = ''codec error: varint too long''"
| "codec_error_text StringTooLong = ''codec error: string length exceeds input''"
| "codec_error_text BytesTooLong = ''codec error: bytes length exceeds input''"
| "codec_error_text InvalidUtf8 = ''codec error: invalid utf-8''"
| "codec_error_text (UnknownEnumValue name v) = ''codec error: unknown '' @ name @ '': '' @ show_i64 (sint v)"
| "codec_error_text CodecPanic = ''panic''"

fun blob_error_text :: "blob_error \<Rightarrow> string" where
  "blob_error_text (UnsupportedBlobVersion v) = ''unsupported blob_version: '' @ show_nat (unat v)"
| "blob_error_text (UnknownDeclTag t) = ''unknown decl tag: '' @ show_nat (unat t)"
| "blob_error_text (MalformedBlob m) = ''malformed blob: '' @ codec_error_text m"

definition insert_payload :: "string \<Rightarrow> decl_payload \<Rightarrow> working_state \<Rightarrow> working_state" where
  "insert_payload name payload s =
     (case payload of
        PMessage m \<Rightarrow> s\<lparr>ws_messages := bt_insert name m (ws_messages s)\<rparr>
      | PEnum e \<Rightarrow> s\<lparr>ws_enums := bt_insert name e (ws_enums s)\<rparr>
      | PService v \<Rightarrow> s\<lparr>ws_services := bt_insert name v (ws_services s)\<rparr>)"

fun load_decls :: "proto_lib \<Rightarrow> nat \<Rightarrow> (string \<times> bytes) list \<Rightarrow> step" where
  "load_decls pl stack [] s = Inr s"
| "load_decls pl stack ((name, blob) # decls) s =
     and_then (map_err (\<lambda>e. MutMalformedBlob (blob_error_text e)) (decode_decl pl stack blob)) (\<lambda>payload.
     load_decls pl stack decls (insert_payload name payload s))"

definition ws_load :: "proto_lib \<Rightarrow> nat \<Rightarrow> schema_objects \<Rightarrow> bool \<Rightarrow> mutation_error + working_state" where
  "ws_load pl stack schema defer_reference_integrity =
     and_then (load_decls pl stack (so_decls schema)
       \<lparr>ws_messages = [], ws_enums = [], ws_services = [], ws_meta = default_meta, ws_meta_dirty = False, ws_touched = [],
        ws_removed = [], ws_removed_enum_values = [], ws_defer_reference_integrity = defer_reference_integrity\<rparr>) (\<lambda>s.
     and_then (map_err (\<lambda>e. MutMalformedBlob (blob_error_text e)) (decode_meta pl (so_meta schema))) (\<lambda>meta.
     Inr (s\<lparr>ws_meta := meta\<rparr>)))"

definition payload_at :: "working_state \<Rightarrow> string \<Rightarrow> decl_payload option" where
  "payload_at s name =
     (case bt_get (ws_messages s) name of
        Some m \<Rightarrow> Some (PMessage m)
      | None \<Rightarrow>
          (case bt_get (ws_enums s) name of
             Some e \<Rightarrow> Some (PEnum e)
           | None \<Rightarrow> map_option PService (bt_get (ws_services s) name)))"

fun effect_upserts :: "proto_lib \<Rightarrow> working_state \<Rightarrow> string list \<Rightarrow> (string \<times> bytes) list" where
  "effect_upserts pl s [] = []"
| "effect_upserts pl s (name # names) =
     (if name \<in> set (ws_removed s) then effect_upserts pl s names
      else case payload_at s name of
        Some p \<Rightarrow> (name, encode_decl pl p) # effect_upserts pl s names
      | None \<Rightarrow> effect_upserts pl s names)"

definition into_effect :: "proto_lib \<Rightarrow> schema_objects \<Rightarrow> working_state \<Rightarrow> mutation_effect" where
  "into_effect pl original s =
     \<lparr>me_meta = (if ws_meta_dirty s then Some (encode_meta pl (ws_meta s)) else None),
      me_upserts = effect_upserts pl s (ws_touched s),
      me_removes = filter (\<lambda>n. bt_mem n (so_decls original)) (ws_removed s)\<rparr>"

definition touch :: "string \<Rightarrow> working_state \<Rightarrow> working_state" where
  "touch name s = s\<lparr>ws_touched := sorted_insert name (ws_touched s), ws_removed := removeAll name (ws_removed s)\<rparr>"

definition message_mut :: "working_state \<Rightarrow> string \<Rightarrow> mutation_error + descriptor" where
  "message_mut s name = ok_or (DeclarationNotFound name) (bt_get (ws_messages s) name)"

definition enum_mut :: "working_state \<Rightarrow> string \<Rightarrow> mutation_error + enum_descriptor" where
  "enum_mut s name = ok_or (DeclarationNotFound name) (bt_get (ws_enums s) name)"

definition service_mut :: "working_state \<Rightarrow> string \<Rightarrow> mutation_error + service_descriptor" where
  "service_mut s name = ok_or (DeclarationNotFound name) (bt_get (ws_services s) name)"

definition declaration_exists :: "working_state \<Rightarrow> string \<Rightarrow> bool" where
  "declaration_exists s name \<longleftrightarrow> bt_mem name (ws_messages s) \<or> bt_mem name (ws_enums s) \<or> bt_mem name (ws_services s)"

text \<open>A declaration changed through \<open>message_mut\<close>, \<open>enum_mut\<close> or \<open>service_mut\<close>, and touched.\<close>

definition put_message :: "string \<Rightarrow> descriptor \<Rightarrow> working_state \<Rightarrow> working_state" where
  "put_message name m s = touch name (s\<lparr>ws_messages := bt_insert name m (ws_messages s)\<rparr>)"

definition put_enum :: "string \<Rightarrow> enum_descriptor \<Rightarrow> working_state \<Rightarrow> working_state" where
  "put_enum name e s = touch name (s\<lparr>ws_enums := bt_insert name e (ws_enums s)\<rparr>)"

definition put_service :: "string \<Rightarrow> service_descriptor \<Rightarrow> working_state \<Rightarrow> working_state" where
  "put_service name v s = touch name (s\<lparr>ws_services := bt_insert name v (ws_services s)\<rparr>)"

section \<open>Helpers\<close>

definition i32_max :: i32 where "i32_max = 0x7FFFFFFF"
definition i32_min :: i32 where "i32_min = 0x80000000"

definition in_reserved_range :: "i32 \<Rightarrow> reserved_range \<Rightarrow> bool" where
  "in_reserved_range number r \<longleftrightarrow>
     (let start = case_option i32_max id (rr_start r); end' = case_option i32_min id (rr_end r) in
      sint start \<le> sint number \<and> sint number < sint end')"

definition is_number_reserved :: "descriptor \<Rightarrow> i32 \<Rightarrow> bool" where
  "is_number_reserved msg number \<longleftrightarrow> list_ex (in_reserved_range number) (dp_reserved_range msg)"

definition is_enum_number_reserved :: "enum_descriptor \<Rightarrow> i32 \<Rightarrow> bool" where
  "is_enum_number_reserved enumeration number \<longleftrightarrow>
     list_ex (\<lambda>range'.
       let start = case_option i32_max id (rr_start range'); end' = case_option i32_min id (rr_end range') in
       sint start \<le> sint number \<and> sint number \<le> sint end') (ed_reserved_range enumeration)"

definition cardinality_to_label :: "string \<Rightarrow> mutation_error + field_label option \<times> bool" where
  "cardinality_to_label keyword =
     (if keyword = [] \<or> keyword = ''singular'' then Inr (None, False)
      else if keyword = ''optional'' then Inr (Some LOptional, True)
      else if keyword = ''required'' then Inr (Some LRequired, False)
      else if keyword = ''repeated'' then Inr (Some LRepeated, False)
      else Inl (InvalidOperation (Msg (''unknown cardinality '{}'' @ [CHR 0x27]) [keyword])))"

definition resolve_type :: "proto_lib \<Rightarrow> string \<Rightarrow> field_type option \<times> string option" where
  "resolve_type pl name =
     (case scalar_field_type pl name of Some t \<Rightarrow> (Some t, None) | None \<Rightarrow> (Some FtMessage, Some name))"

definition current_type_name :: "proto_lib \<Rightarrow> field_descriptor \<Rightarrow> string" where
  "current_type_name pl field =
     (let named = case_option [] id (fd_type_name field) in
      case fd_type field of
        Some t \<Rightarrow> if t \<in> {FtMessage, FtEnum, FtGroup} then last_segment named else pl_type_name pl t
      | None \<Rightarrow> named)"

definition referenced_declaration_error :: "string \<Rightarrow> string \<Rightarrow> string list \<Rightarrow> mutation_error" where
  "referenced_declaration_error kind target references =
     InvalidOperation (Msg ''cannot delete {} '{}': referenced by {}'' [kind, target, join_with '', '' references])"

definition referenced_enum_value_error :: "string \<Rightarrow> string \<Rightarrow> string list \<Rightarrow> mutation_error" where
  "referenced_enum_value_error enum_name value_name references =
     InvalidOperation (Msg ''cannot remove enum value '{}.{}': referenced as a default by {}''
       [enum_name, value_name, join_with '', '' references])"

text \<open>\<open>iter_mut().find(p)\<close> and an assignment to what it finds, and \<open>position(p)\<close> with \<open>remove\<close>.\<close>

fun update_first :: "('a \<Rightarrow> bool) \<Rightarrow> ('a \<Rightarrow> 'a) \<Rightarrow> 'a list \<Rightarrow> 'a list" where
  "update_first p f [] = []"
| "update_first p f (x # xs) = (if p x then f x # xs else x # update_first p f xs)"

fun remove_first :: "('a \<Rightarrow> bool) \<Rightarrow> 'a list \<Rightarrow> 'a list" where
  "remove_first p [] = []"
| "remove_first p (x # xs) = (if p x then xs else x # remove_first p xs)"

fun position_of :: "'a \<Rightarrow> 'a list \<Rightarrow> nat option" where
  "position_of a [] = None"
| "position_of a (x # xs) = (if x = a then Some 0 else map_option Suc (position_of a xs))"

definition remove_at :: "nat \<Rightarrow> 'a list \<Rightarrow> 'a list" where
  "remove_at i xs = take i xs @ drop (Suc i) xs"

definition find_named :: "('a \<Rightarrow> string option) \<Rightarrow> string \<Rightarrow> string \<Rightarrow> 'a list \<Rightarrow> mutation_error + 'a" where
  "find_named name_of declaration name xs = ok_or (MutFieldNotFound declaration name) (find (\<lambda>x. name_of x = Some name) xs)"

section \<open>References\<close>

definition references_to :: "working_state \<Rightarrow> string \<Rightarrow> string option \<Rightarrow> string list" where
  "references_to s target skip_message =
     map fst (filter (\<lambda>(name, m). skip_message \<noteq> Some name \<and> message_references_type target m) (ws_messages s)) @
     map fst (filter (\<lambda>(name, v). service_references_type target v) (ws_services s)) @
     (if list_ex (field_references_type target) (mp_extension (ws_meta s)) then [''file extension''] else [])"

definition enum_value_references :: "working_state \<Rightarrow> string \<Rightarrow> string \<Rightarrow> string list" where
  "enum_value_references s enum_name value_name =
     map fst (filter (\<lambda>(_, m). message_references_enum_value enum_name value_name m) (ws_messages s)) @
     (if list_ex (field_references_enum_value enum_name value_name) (mp_extension (ws_meta s)) then [''file extension''] else [])"

fun check_removed :: "working_state \<Rightarrow> string list \<Rightarrow> mutation_error + unit" where
  "check_removed s [] = Inr ()"
| "check_removed s (name # names) =
     (let references = references_to s name (Some name) in
      if references \<noteq> [] then Inl (referenced_declaration_error ''declaration'' name references) else check_removed s names)"

fun check_removed_values :: "working_state \<Rightarrow> (string \<times> string) list \<Rightarrow> mutation_error + unit" where
  "check_removed_values s [] = Inr ()"
| "check_removed_values s ((enum_name, value_name) # rest) =
     (let references = enum_value_references s enum_name value_name in
      if references \<noteq> [] then Inl (referenced_enum_value_error enum_name value_name references) else check_removed_values s rest)"

definition validate_removed_references :: "working_state \<Rightarrow> mutation_error + unit" where
  "validate_removed_references s = and_then (check_removed s (ws_removed s)) (\<lambda>_. check_removed_values s (ws_removed_enum_values s))"

end
