(* ===== verification/Proto_Mutations.thy ===== *)
theory Proto_Mutations
  imports Proto_State
begin

text \<open>The handlers of the operations on a protobuf schema, and their application one by one or as a batch (\<open>mutations.rs\<close>).\<close>

section \<open>Fields\<close>

definition add_field :: "proto_lib \<Rightarrow> string \<Rightarrow> string \<Rightarrow> string \<Rightarrow> u32 \<Rightarrow> string \<Rightarrow> step" where
  "add_field pl message_name field_name field_type field_number cardinality s =
     and_then (message_mut s message_name) (\<lambda>msg.
     and_then (ensure (\<not> list_ex (\<lambda>f. fd_number f = Some field_number) (dp_field msg)) (FieldNumberConflict (unat field_number))) (\<lambda>_.
     and_then (ensure (\<not> is_number_reserved msg field_number) (FieldNumberReserved (unat field_number))) (\<lambda>_.
     and_then (cardinality_to_label cardinality) (\<lambda>(label, proto3_optional).
     let (ty, type_name) = resolve_type pl field_type;
         oneof_index = (if proto3_optional then Some (word_of_nat (length (dp_oneof_decl msg))) else None);
         msg' = (if proto3_optional
           then dp_set_oneof_decl (dp_oneof_decl msg @ [\<lparr>od_name = Some (''_'' @ field_name), od_options = None\<rparr>]) msg else msg);
         field = \<lparr>fd_name = Some field_name, fd_number = Some field_number, fd_label = label, fd_type = ty, fd_type_name = type_name,
           fd_extendee = None, fd_default_value = None, fd_oneof_index = oneof_index, fd_json_name = Some (pl_camel_case pl field_name),
           fd_options = None, fd_proto3_optional = (if proto3_optional then Some True else None)\<rparr>
     in Inr (put_message message_name (dp_set_field (dp_field msg @ [field]) msg') s)))))"

definition remove_field :: "string \<Rightarrow> string \<Rightarrow> step" where
  "remove_field message_name field_name s =
     and_then (message_mut s message_name) (\<lambda>msg.
     and_then (find_named fd_name message_name field_name (dp_field msg)) (\<lambda>removed.
     let m1 = dp_set_field (remove_first (\<lambda>f. fd_name f = Some field_name) (dp_field msg)) msg;
         m2 = (case fd_number removed of
             Some num \<Rightarrow> dp_set_reserved_range (dp_reserved_range m1 @ [\<lparr>rr_start = Some num, rr_end = Some (num + 1)\<rparr>]) m1
           | None \<Rightarrow> m1);
         m3 = (case fd_name removed of Some name \<Rightarrow> dp_set_reserved_name (dp_reserved_name m2 @ [name]) m2 | None \<Rightarrow> m2)
     in Inr (put_message message_name m3 s)))"

text \<open>The first field of the given name, changed in place.\<close>

definition change_field :: "string \<Rightarrow> string \<Rightarrow> (field_descriptor \<Rightarrow> field_descriptor) \<Rightarrow> step" where
  "change_field message_name field_name f s =
     and_then (message_mut s message_name) (\<lambda>msg.
     and_then (find_named fd_name message_name field_name (dp_field msg)) (\<lambda>_.
     Inr (put_message message_name (dp_set_field (update_first (\<lambda>f. fd_name f = Some field_name) f (dp_field msg)) msg) s)))"

definition rename_field :: "proto_lib \<Rightarrow> string \<Rightarrow> string \<Rightarrow> string \<Rightarrow> step" where
  "rename_field pl message_name old_field_name new_field_name =
     change_field message_name old_field_name
       (\<lambda>field. field\<lparr>fd_name := Some new_field_name, fd_json_name := Some (pl_camel_case pl new_field_name)\<rparr>)"

definition change_field_type :: "proto_lib \<Rightarrow> string \<Rightarrow> string \<Rightarrow> string \<Rightarrow> step" where
  "change_field_type pl message_name field_name new_type s =
     and_then (message_mut s message_name) (\<lambda>msg.
     and_then (find_named fd_name message_name field_name (dp_field msg)) (\<lambda>field.
     let (ty, type_name) = resolve_type pl new_type in
     and_then (map_err InvalidOperation (type_change_allowed_typed pl (current_type_name pl field) (fd_type field) new_type ty)) (\<lambda>_.
     change_field message_name field_name (\<lambda>field. field\<lparr>fd_type := ty, fd_type_name := type_name\<rparr>) s)))"

definition change_cardinality :: "string \<Rightarrow> string \<Rightarrow> string \<Rightarrow> step" where
  "change_cardinality message_name field_name new_cardinality s =
     and_then (cardinality_to_label new_cardinality) (\<lambda>(label, proto3_optional).
     change_field message_name field_name
       (\<lambda>field. field\<lparr>fd_label := label, fd_proto3_optional := (if proto3_optional then Some True else None)\<rparr>) s)"

fun take_in_order :: "(string \<rightharpoonup> field_descriptor) \<Rightarrow> string list \<Rightarrow> field_descriptor list" where
  "take_in_order by_name [] = []"
| "take_in_order by_name (name # names) =
     (case by_name name of
        Some f \<Rightarrow> f # take_in_order (by_name(name := None)) names
      | None \<Rightarrow> take_in_order by_name names)"

definition reorder_fields :: "string \<Rightarrow> string list \<Rightarrow> step" where
  "reorder_fields message_name field_order s =
     and_then (message_mut s message_name) (\<lambda>msg.
     and_then (ensure (set (List.map_filter fd_name (dp_field msg)) = set field_order)
       (InvalidOperation (Msg ''ReorderFields: new order must list exactly the existing fields'' []))) (\<lambda>_.
     let by_name = map_of (rev (map (\<lambda>f. (case_option [] id (fd_name f), f)) (dp_field msg)))
     in Inr (put_message message_name (dp_set_field (take_in_order by_name field_order) msg) s)))"

section \<open>Messages\<close>

definition create_message :: "string \<Rightarrow> step" where
  "create_message message_name s =
     and_then (ensure (\<not> declaration_exists s message_name)
       (InvalidOperation (Msg ''message '{}' already exists'' [message_name]))) (\<lambda>_.
     let s1 = s\<lparr>ws_messages := bt_insert message_name (dp_set_name (Some message_name) empty_descriptor) (ws_messages s),
         ws_meta := (ws_meta s)\<lparr>mp_message_order := mp_message_order (ws_meta s) @ [message_name]\<rparr>, ws_meta_dirty := True\<rparr>
     in Inr (touch message_name s1))"

text \<open>The rewriting of references in every declaration of a kind, and the names of the declarations that changed.\<close>

definition rewrite_all :: "('v \<Rightarrow> 'v \<times> bool) \<Rightarrow> (string \<Rightarrow> bool) \<Rightarrow> (string, 'v) btree \<Rightarrow> (string, 'v) btree \<times> string list" where
  "rewrite_all f skip m =
     (map (\<lambda>(name, v). (name, if skip name then v else fst (f v))) m,
      map fst (filter (\<lambda>(name, v). \<not> skip name \<and> snd (f v)) m))"

definition replace_name :: "string \<Rightarrow> string \<Rightarrow> string list \<Rightarrow> string list" where
  "replace_name old new names = map (\<lambda>name. if name = old then new else name) names"

definition rename_message :: "string \<Rightarrow> string \<Rightarrow> step" where
  "rename_message old_name new_name s =
     and_then (ensure (\<not> (old_name \<noteq> new_name \<and> declaration_exists s new_name))
       (InvalidOperation (Msg ''cannot rename message '{}' to '{}': target already exists'' [old_name, new_name]))) (\<lambda>_.
     and_then (message_mut s old_name) (\<lambda>m0.
     let m = fst (rename_refs_in_message old_name new_name (dp_set_name (Some new_name) m0));
         s1 = s\<lparr>ws_messages := bt_insert new_name m (bt_remove old_name (ws_messages s)),
           ws_removed := sorted_insert old_name (ws_removed s), ws_touched := removeAll old_name (ws_touched s)\<rparr>;
         s2 = touch new_name s1;
         (messages, touched) = rewrite_all (rename_refs_in_message old_name new_name) (\<lambda>name. name = new_name) (ws_messages s2);
         s3 = fold touch touched (s2\<lparr>ws_messages := messages\<rparr>);
         (services, touched') = rewrite_all (rename_refs_in_service old_name new_name) (\<lambda>_. False) (ws_services s3);
         s4 = fold touch touched' (s3\<lparr>ws_services := services\<rparr>);
         extension = map (rename_refs_in_field old_name new_name) (mp_extension (ws_meta s4));
         changed = (list_ex snd extension \<or> old_name \<in> set (mp_message_order (ws_meta s4)))
     in Inr (s4\<lparr>ws_meta := (ws_meta s4)\<lparr>mp_extension := map fst extension,
           mp_message_order := replace_name old_name new_name (mp_message_order (ws_meta s4))\<rparr>,
         ws_meta_dirty := (ws_meta_dirty s4 \<or> changed)\<rparr>)))"

definition delete_message :: "string \<Rightarrow> step" where
  "delete_message message_name s =
     and_then (ensure (bt_mem message_name (ws_messages s)) (DeclarationNotFound message_name)) (\<lambda>_.
     let references = references_to s message_name (Some message_name) in
     and_then (ensure (ws_defer_reference_integrity s \<or> references = []) (referenced_declaration_error ''message'' message_name references)) (\<lambda>_.
     Inr (s\<lparr>ws_messages := bt_remove message_name (ws_messages s),
       ws_meta := (ws_meta s)\<lparr>mp_message_order := removeAll message_name (mp_message_order (ws_meta s))\<rparr>, ws_meta_dirty := True,
       ws_removed := sorted_insert message_name (ws_removed s), ws_touched := removeAll message_name (ws_touched s)\<rparr>)))"

section \<open>Enums\<close>

definition create_enum :: "string \<Rightarrow> step" where
  "create_enum enum_name s =
     and_then (ensure (\<not> declaration_exists s enum_name) (InvalidOperation (Msg ''enum '{}' already exists'' [enum_name]))) (\<lambda>_.
     let s1 = s\<lparr>ws_enums := bt_insert enum_name \<lparr>ed_name = Some enum_name, ed_value = [], ed_options = None, ed_reserved_range = [],
           ed_reserved_name = [], ed_visibility = None\<rparr> (ws_enums s),
         ws_meta := (ws_meta s)\<lparr>mp_enum_order := mp_enum_order (ws_meta s) @ [enum_name]\<rparr>, ws_meta_dirty := True\<rparr>
     in Inr (touch enum_name s1))"

definition delete_enum :: "string \<Rightarrow> step" where
  "delete_enum enum_name s =
     and_then (ensure (bt_mem enum_name (ws_enums s)) (DeclarationNotFound enum_name)) (\<lambda>_.
     let references = references_to s enum_name None in
     and_then (ensure (ws_defer_reference_integrity s \<or> references = []) (referenced_declaration_error ''enum'' enum_name references)) (\<lambda>_.
     Inr (s\<lparr>ws_enums := bt_remove enum_name (ws_enums s),
       ws_meta := (ws_meta s)\<lparr>mp_enum_order := removeAll enum_name (mp_enum_order (ws_meta s))\<rparr>, ws_meta_dirty := True,
       ws_removed := sorted_insert enum_name (ws_removed s), ws_touched := removeAll enum_name (ws_touched s)\<rparr>)))"

definition add_enum_value :: "string \<Rightarrow> string \<Rightarrow> i32 \<Rightarrow> step" where
  "add_enum_value enum_name value_name number s =
     (let proto3 = (mp_syntax (ws_meta s) = Some ''proto3'');
          invalid = (\<lambda>template values. InvalidOperation (Msg template values)) in
      and_then (enum_mut s enum_name) (\<lambda>e.
      and_then (ensure (\<not> list_ex (\<lambda>v. ev_name v = Some value_name) (ed_value e)) (invalid ''enum value '{}' already exists'' [value_name])) (\<lambda>_.
      and_then (ensure (value_name \<notin> set (ed_reserved_name e)) (invalid ''enum value name '{}' is reserved'' [value_name])) (\<lambda>_.
      and_then (ensure (\<not> is_enum_number_reserved e number) (invalid ''enum value number {} is reserved'' [show_i64 (sint number)])) (\<lambda>_.
      and_then (ensure (\<not> list_ex (\<lambda>v. ev_number v = Some number) (ed_value e)
            \<or> case_option False (\<lambda>x. case_option False id (eo_allow_alias x)) (ed_options e))
          (invalid ''enum value number {} already in use (allow_alias not set)'' [show_i64 (sint number)])) (\<lambda>_.
      and_then (ensure (\<not> (proto3 \<and> ed_value e = [] \<and> number \<noteq> 0))
          (invalid ''the first value in proto3 enum '{}' must use number 0'' [enum_name])) (\<lambda>_.
      Inr (put_enum enum_name (e\<lparr>ed_value := ed_value e @ [\<lparr>ev_name = Some value_name, ev_number = Some number, ev_options = None\<rparr>]\<rparr>) s))))))))"

definition remove_enum_value :: "string \<Rightarrow> string \<Rightarrow> step" where
  "remove_enum_value enum_name value_name s =
     (let references = enum_value_references s enum_name value_name in
      and_then (ensure (ws_defer_reference_integrity s \<or> references = []) (referenced_enum_value_error enum_name value_name references)) (\<lambda>_.
      and_then (enum_mut s enum_name) (\<lambda>e.
      and_then (find_named ev_name enum_name value_name (ed_value e)) (\<lambda>removed.
      let e1 = e\<lparr>ed_value := remove_first (\<lambda>v. ev_name v = Some value_name) (ed_value e)\<rparr>;
          e2 = (case ev_number removed of
              Some num \<Rightarrow> e1\<lparr>ed_reserved_range := ed_reserved_range e1 @ [\<lparr>rr_start = Some num, rr_end = Some num\<rparr>]\<rparr>
            | None \<Rightarrow> e1);
          e3 = (case ev_name removed of Some name \<Rightarrow> e2\<lparr>ed_reserved_name := ed_reserved_name e2 @ [name]\<rparr> | None \<Rightarrow> e2)
      in Inr (put_enum enum_name e3
           (s\<lparr>ws_removed_enum_values := sorted_insert (enum_name, value_name) (ws_removed_enum_values s)\<rparr>))))))"

definition rename_enum_value :: "string \<Rightarrow> string \<Rightarrow> string \<Rightarrow> step" where
  "rename_enum_value enum_name old_value_name new_value_name s =
     and_then (enum_mut s enum_name) (\<lambda>e.
     and_then (ensure (\<not> list_ex (\<lambda>v. ev_name v = Some new_value_name) (ed_value e))
       (InvalidOperation (Msg ''enum value '{}' already exists'' [new_value_name]))) (\<lambda>_.
     and_then (find_named ev_name enum_name old_value_name (ed_value e)) (\<lambda>_.
     let e' = e\<lparr>ed_value := update_first (\<lambda>v. ev_name v = Some old_value_name) (\<lambda>v. v\<lparr>ev_name := Some new_value_name\<rparr>) (ed_value e)\<rparr>;
         s1 = s\<lparr>ws_enums := bt_insert enum_name e' (ws_enums s)\<rparr>;
         (messages, touched) =
           rewrite_all (rename_enum_value_refs_in_message enum_name old_value_name new_value_name) (\<lambda>_. False) (ws_messages s1);
         s2 = fold touch touched (s1\<lparr>ws_messages := messages\<rparr>);
         extension = map (rename_enum_value_ref_in_field enum_name old_value_name new_value_name) (mp_extension (ws_meta s2));
         s3 = s2\<lparr>ws_meta := (ws_meta s2)\<lparr>mp_extension := map fst extension\<rparr>, ws_meta_dirty := (ws_meta_dirty s2 \<or> list_ex snd extension)\<rparr>
     in Inr (touch enum_name s3))))"

section \<open>Services\<close>

definition add_service :: "string \<Rightarrow> step" where
  "add_service service_name s =
     and_then (ensure (\<not> declaration_exists s service_name)
       (InvalidOperation (Msg ''service '{}' already exists'' [service_name]))) (\<lambda>_.
     let s1 = s\<lparr>ws_services := bt_insert service_name \<lparr>sd_name = Some service_name, sd_method = [], sd_options = None\<rparr> (ws_services s),
         ws_meta := (ws_meta s)\<lparr>mp_service_order := mp_service_order (ws_meta s) @ [service_name]\<rparr>, ws_meta_dirty := True\<rparr>
     in Inr (touch service_name s1))"

definition remove_service :: "string \<Rightarrow> step" where
  "remove_service service_name s =
     and_then (ensure (bt_mem service_name (ws_services s)) (DeclarationNotFound service_name)) (\<lambda>_.
     Inr (s\<lparr>ws_services := bt_remove service_name (ws_services s),
       ws_meta := (ws_meta s)\<lparr>mp_service_order := removeAll service_name (mp_service_order (ws_meta s))\<rparr>, ws_meta_dirty := True,
       ws_removed := sorted_insert service_name (ws_removed s), ws_touched := removeAll service_name (ws_touched s)\<rparr>))"

definition rename_service :: "string \<Rightarrow> string \<Rightarrow> step" where
  "rename_service old_name new_name s =
     and_then (ensure (\<not> (old_name \<noteq> new_name \<and> declaration_exists s new_name))
       (InvalidOperation (Msg ''cannot rename service '{}' to '{}': target already exists'' [old_name, new_name]))) (\<lambda>_.
     and_then (service_mut s old_name) (\<lambda>v.
     let s1 = s\<lparr>ws_services := bt_insert new_name (v\<lparr>sd_name := Some new_name\<rparr>) (bt_remove old_name (ws_services s)),
         ws_meta := (ws_meta s)\<lparr>mp_service_order := replace_name old_name new_name (mp_service_order (ws_meta s))\<rparr>, ws_meta_dirty := True,
         ws_removed := sorted_insert old_name (ws_removed s), ws_touched := removeAll old_name (ws_touched s)\<rparr>
     in Inr (touch new_name s1)))"

definition add_rpc :: "string \<Rightarrow> string \<Rightarrow> string \<Rightarrow> string \<Rightarrow> bool \<Rightarrow> bool \<Rightarrow> step" where
  "add_rpc service_name rpc_name request_type response_type client_streaming server_streaming s =
     and_then (service_mut s service_name) (\<lambda>v.
     and_then (ensure (\<not> list_ex (\<lambda>m. md_name m = Some rpc_name) (sd_method v))
       (InvalidOperation (Msg ''rpc '{}' already exists'' [rpc_name]))) (\<lambda>_.
     Inr (put_service service_name (v\<lparr>sd_method := sd_method v @ [\<lparr>md_name = Some rpc_name, md_input_type = Some request_type,
       md_output_type = Some response_type, md_options = None, md_client_streaming = Some client_streaming,
       md_server_streaming = Some server_streaming\<rparr>]\<rparr>) s)))"

definition remove_rpc :: "string \<Rightarrow> string \<Rightarrow> step" where
  "remove_rpc service_name rpc_name s =
     and_then (service_mut s service_name) (\<lambda>v.
     and_then (find_named md_name service_name rpc_name (sd_method v)) (\<lambda>_.
     Inr (put_service service_name (v\<lparr>sd_method := remove_first (\<lambda>m. md_name m = Some rpc_name) (sd_method v)\<rparr>) s)))"

definition rename_rpc :: "string \<Rightarrow> string \<Rightarrow> string \<Rightarrow> step" where
  "rename_rpc service_name old_rpc_name new_rpc_name s =
     and_then (service_mut s service_name) (\<lambda>v.
     and_then (ensure (\<not> list_ex (\<lambda>m. md_name m = Some new_rpc_name) (sd_method v))
       (InvalidOperation (Msg ''rpc '{}' already exists'' [new_rpc_name]))) (\<lambda>_.
     and_then (find_named md_name service_name old_rpc_name (sd_method v)) (\<lambda>_.
     Inr (put_service service_name (v\<lparr>sd_method :=
       update_first (\<lambda>m. md_name m = Some old_rpc_name) (\<lambda>m. m\<lparr>md_name := Some new_rpc_name\<rparr>) (sd_method v)\<rparr>) s))))"

definition change_rpc_type :: "string \<Rightarrow> string \<Rightarrow> string \<Rightarrow> string \<Rightarrow> step" where
  "change_rpc_type service_name rpc_name new_request_type new_response_type s =
     and_then (service_mut s service_name) (\<lambda>v.
     and_then (find_named md_name service_name rpc_name (sd_method v)) (\<lambda>_.
     Inr (put_service service_name (v\<lparr>sd_method := update_first (\<lambda>m. md_name m = Some rpc_name)
       (\<lambda>m. m\<lparr>md_input_type := (if new_request_type \<noteq> [] then Some new_request_type else md_input_type m),
             md_output_type := (if new_response_type \<noteq> [] then Some new_response_type else md_output_type m)\<rparr>) (sd_method v)\<rparr>) s)))"

section \<open>Imports\<close>

definition resize_names :: "nat \<Rightarrow> string list \<Rightarrow> string list" where
  "resize_names n xs = take n xs @ replicate (n - length xs) []"

definition reindex :: "nat \<Rightarrow> i32 list \<Rightarrow> i32 list" where
  "reindex pos is =
     map (\<lambda>i. if sint i > sint (word_of_nat pos :: i32) then i - 1 else i) (filter (\<lambda>i. i \<noteq> word_of_nat pos) is)"

definition update_import :: "string \<Rightarrow> string \<Rightarrow> bool \<Rightarrow> step" where
  "update_import import_path resolved_commit remove s =
     (let meta = ws_meta s;
          commits = resize_names (length (mp_dependency meta)) (mp_dependency_commit meta);
          meta' = (case (remove, position_of import_path (mp_dependency meta)) of
              (True, Some pos) \<Rightarrow> meta\<lparr>mp_dependency := remove_at pos (mp_dependency meta), mp_dependency_commit := remove_at pos commits,
                mp_public_dependency := reindex pos (mp_public_dependency meta), mp_weak_dependency := reindex pos (mp_weak_dependency meta)\<rparr>
            | (True, None) \<Rightarrow> meta\<lparr>mp_dependency_commit := commits\<rparr>
            | (False, Some pos) \<Rightarrow> meta\<lparr>mp_dependency_commit := commits[pos := resolved_commit]\<rparr>
            | (False, None) \<Rightarrow> meta\<lparr>mp_dependency := mp_dependency meta @ [import_path], mp_dependency_commit := commits @ [resolved_commit]\<rparr>)
      in Inr (s\<lparr>ws_meta := meta', ws_meta_dirty := True\<rparr>))"

section \<open>Application\<close>

fun apply_op :: "proto_lib \<Rightarrow> proto_op \<Rightarrow> step" where
  "apply_op pl (AddField m f t n c) = add_field pl m f t n c"
| "apply_op pl (RemoveField m f) = remove_field m f"
| "apply_op pl (RenameField m f g) = rename_field pl m f g"
| "apply_op pl (ChangeFieldType m f t) = change_field_type pl m f t"
| "apply_op pl (ChangeCardinality m f c) = change_cardinality m f c"
| "apply_op pl (ReorderFields m fs) = reorder_fields m fs"
| "apply_op pl (ChangeFieldNumber m f n) =
     (\<lambda>_. Inl (InvalidOperation (Msg ''ChangeFieldNumber is always breaking and is rejected'' [])))"
| "apply_op pl (CreateMessage m) = create_message m"
| "apply_op pl (RenameMessage m n) = rename_message m n"
| "apply_op pl (DeleteMessage m) = delete_message m"
| "apply_op pl (CreateEnum e) = create_enum e"
| "apply_op pl (DeleteEnum e) = delete_enum e"
| "apply_op pl (AddEnumValue e v n) = add_enum_value e v n"
| "apply_op pl (RemoveEnumValue e v) = remove_enum_value e v"
| "apply_op pl (RenameEnumValue e v w) = rename_enum_value e v w"
| "apply_op pl (AddService v) = add_service v"
| "apply_op pl (RemoveService v) = remove_service v"
| "apply_op pl (RenameService v w) = rename_service v w"
| "apply_op pl (AddRpc v r i out' cs ss) = add_rpc v r i out' cs ss"
| "apply_op pl (RemoveRpc v r) = remove_rpc v r"
| "apply_op pl (RenameRpc v r q) = rename_rpc v r q"
| "apply_op pl (ChangeRpcType v r i out') = change_rpc_type v r i out'"
| "apply_op pl (UpdateImport p c rm) = update_import p c rm"

definition apply_one :: "proto_lib \<Rightarrow> prost_lib \<Rightarrow> nat \<Rightarrow> schema_objects \<Rightarrow> mutation \<Rightarrow> mutation_error + mutation_effect" where
  "apply_one pl pr stack schema op =
     and_then (decode_op pr (mu_operation op)) (\<lambda>parsed.
     and_then (ws_load pl stack schema False) (\<lambda>state.
     and_then (apply_op pl parsed state) (\<lambda>state'.
     Inr (into_effect pl schema state'))))"

fun apply_ops :: "proto_lib \<Rightarrow> prost_lib \<Rightarrow> mutation list \<Rightarrow> step" where
  "apply_ops pl pr [] s = Inr s"
| "apply_ops pl pr (op # ops) s =
     and_then (decode_op pr (mu_operation op)) (\<lambda>parsed. and_then (apply_op pl parsed s) (apply_ops pl pr ops))"

definition apply_many :: "proto_lib \<Rightarrow> prost_lib \<Rightarrow> nat \<Rightarrow> schema_objects \<Rightarrow> mutation list \<Rightarrow> mutation_error + mutation_effect" where
  "apply_many pl pr stack schema ops =
     and_then (ws_load pl stack schema True) (\<lambda>state.
     and_then (apply_ops pl pr ops state) (\<lambda>state'.
     and_then (validate_removed_references state') (\<lambda>_.
     Inr (into_effect pl schema state'))))"

end
