(* ===== verification/Proto_Tracking.thy ===== *)
theory Proto_Tracking
  imports Proto_Mutations
begin

text \<open>
  What the working state keeps track of: each name is declared once, the touched names are declared, the removed ones are not, and a
  declaration that is neither has not changed.  Every accepted operation keeps this, so that the effect read off the final state can
  stand for it.
\<close>

section \<open>The declarations of a state\<close>

definition exclusive :: "working_state \<Rightarrow> bool" where
  "exclusive s \<longleftrightarrow> (\<forall>n. (bt_get (ws_messages s) n \<noteq> None \<longrightarrow> bt_get (ws_enums s) n = None \<and> bt_get (ws_services s) n = None)
     \<and> (bt_get (ws_enums s) n \<noteq> None \<longrightarrow> bt_get (ws_services s) n = None))"

definition ws_wf :: "working_state \<Rightarrow> bool" where
  "ws_wf s \<longleftrightarrow> bt_ok (ws_messages s) \<and> bt_ok (ws_enums s) \<and> bt_ok (ws_services s) \<and> exclusive s
     \<and> (\<forall>n \<in> set (ws_touched s). payload_at s n \<noteq> None) \<and> (\<forall>n \<in> set (ws_removed s). payload_at s n = None)"

definition advances :: "working_state \<Rightarrow> working_state \<Rightarrow> bool" where
  "advances s t \<longleftrightarrow> ws_wf t \<and> set (ws_touched s) \<union> set (ws_removed s) \<subseteq> set (ws_touched t) \<union> set (ws_removed t)
     \<and> (\<forall>n. n \<notin> set (ws_touched t) \<union> set (ws_removed t) \<longrightarrow> payload_at t n = payload_at s n)
     \<and> (ws_meta_dirty s \<longrightarrow> ws_meta_dirty t) \<and> (\<not> ws_meta_dirty t \<longrightarrow> ws_meta t = ws_meta s)"

lemma set_sorted_insert [simp]: "set (sorted_insert k xs) = insert k (set xs)"
  by (induction xs) auto

lemma payload_at_simps [simp]:
  "payload_at (s\<lparr>ws_meta := m\<rparr>) = payload_at s" "payload_at (s\<lparr>ws_meta_dirty := b\<rparr>) = payload_at s"
  "payload_at (s\<lparr>ws_touched := x\<rparr>) = payload_at s" "payload_at (s\<lparr>ws_removed := x\<rparr>) = payload_at s"
  "payload_at (s\<lparr>ws_removed_enum_values := v\<rparr>) = payload_at s" "payload_at (touch n s) = payload_at s"
  by (simp_all add: payload_at_def touch_def fun_eq_iff cong: option.case_cong)

lemma exclusive_simps [simp]:
  "exclusive (s\<lparr>ws_meta := m\<rparr>) = exclusive s" "exclusive (s\<lparr>ws_meta_dirty := b\<rparr>) = exclusive s"
  "exclusive (s\<lparr>ws_touched := x\<rparr>) = exclusive s" "exclusive (s\<lparr>ws_removed := x\<rparr>) = exclusive s"
  "exclusive (s\<lparr>ws_removed_enum_values := v\<rparr>) = exclusive s" "exclusive (touch n s) = exclusive s"
  by (simp_all add: exclusive_def touch_def)

lemma touch_simps [simp]:
  "ws_messages (touch n s) = ws_messages s" "ws_enums (touch n s) = ws_enums s" "ws_services (touch n s) = ws_services s"
  "ws_meta (touch n s) = ws_meta s" "ws_meta_dirty (touch n s) = ws_meta_dirty s"
  "set (ws_touched (touch n s)) = insert n (set (ws_touched s))" "set (ws_removed (touch n s)) = set (ws_removed s) - {n}"
  by (auto simp: touch_def)

lemma payload_at_insert:
  "payload_at (s\<lparr>ws_messages := bt_insert n m (ws_messages s)\<rparr>) = (payload_at s)(n \<mapsto> PMessage m)"
  "bt_get (ws_messages s) n = None \<Longrightarrow> payload_at (s\<lparr>ws_enums := bt_insert n e (ws_enums s)\<rparr>) = (payload_at s)(n \<mapsto> PEnum e)"
  "bt_get (ws_messages s) n = None \<Longrightarrow> bt_get (ws_enums s) n = None \<Longrightarrow>
     payload_at (s\<lparr>ws_services := bt_insert n v (ws_services s)\<rparr>) = (payload_at s)(n \<mapsto> PService v)"
  by (auto simp: payload_at_def fun_eq_iff cong: option.case_cong)

lemma payload_at_None: "payload_at s n = None \<longleftrightarrow>
    bt_get (ws_messages s) n = None \<and> bt_get (ws_enums s) n = None \<and> bt_get (ws_services s) n = None"
  by (auto simp: payload_at_def split: option.splits)

lemma declared_iff: "declaration_exists s n \<longleftrightarrow> payload_at s n \<noteq> None"
  by (auto simp: declaration_exists_def payload_at_None bt_mem_def)

lemma exclusive_gets:
  assumes "exclusive s"
  shows "bt_get (ws_messages s) n = Some m \<longleftrightarrow> payload_at s n = Some (PMessage m)"
    and "bt_get (ws_enums s) n = Some e \<longleftrightarrow> payload_at s n = Some (PEnum e)"
    and "bt_get (ws_services s) n = Some v \<longleftrightarrow> payload_at s n = Some (PService v)"
  using assms by (auto simp: payload_at_def exclusive_def split: option.splits)

lemma exclusive_others:
  "exclusive s \<Longrightarrow> bt_get (ws_enums s) n \<noteq> None \<Longrightarrow> bt_get (ws_messages s) n = None"
  "exclusive s \<Longrightarrow> bt_get (ws_services s) n \<noteq> None \<Longrightarrow> bt_get (ws_messages s) n = None"
  "exclusive s \<Longrightarrow> bt_get (ws_services s) n \<noteq> None \<Longrightarrow> bt_get (ws_enums s) n = None"
  by (auto simp: exclusive_def)

lemma ws_wf_touch: "ws_wf s \<Longrightarrow> payload_at s n \<noteq> None \<Longrightarrow> ws_wf (touch n s)"
  by (auto simp: ws_wf_def)

lemma advances_trans: "advances s t \<Longrightarrow> advances t u \<Longrightarrow> advances s u"
  unfolding advances_def by (smt (verit, best) Un_iff subset_eq)

lemma advances_refl: "ws_wf s \<Longrightarrow> advances s s"
  by (simp add: advances_def)

section \<open>Steps\<close>

text \<open>A state whose declaration of one name has changed, with the name touched.\<close>

lemma advances_update:
  assumes "ws_wf s" and t: "payload_at t = (payload_at s)(n \<mapsto> p)" "exclusive t" "bt_ok (ws_messages t)" "bt_ok (ws_enums t)"
    "bt_ok (ws_services t)"
    and "ws_touched t = ws_touched s" "ws_removed t = ws_removed s" "ws_meta_dirty s \<longrightarrow> ws_meta_dirty t"
    "\<not> ws_meta_dirty t \<longrightarrow> ws_meta t = ws_meta s"
  shows "advances s (touch n t)"
  using assms by (auto simp: advances_def ws_wf_def)

lemma advances_put_message: "ws_wf s \<Longrightarrow> bt_get (ws_messages s) n \<noteq> None \<Longrightarrow> advances s (put_message n m s)"
  unfolding put_message_def
  by (rule advances_update [where p = "PMessage m"]) (auto simp: payload_at_insert ws_wf_def exclusive_def)

lemma advances_put_enum: "ws_wf s \<Longrightarrow> bt_get (ws_enums s) n \<noteq> None \<Longrightarrow> advances s (put_enum n e s)"
  unfolding put_enum_def
  by (rule advances_update [where p = "PEnum e"]) (auto simp: payload_at_insert ws_wf_def exclusive_def)

lemma advances_put_service: "ws_wf s \<Longrightarrow> bt_get (ws_services s) n \<noteq> None \<Longrightarrow> advances s (put_service n v s)"
  unfolding put_service_def
  by (rule advances_update [where p = "PService v"])
    (auto simp: payload_at_insert exclusive_others ws_wf_def, auto simp: exclusive_def)

text \<open>A declaration that is taken away, with its name recorded.\<close>

lemma advances_remove:
  assumes "ws_wf s" "payload_at t = (payload_at s)(n := None)" "exclusive t" "bt_ok (ws_messages t)" "bt_ok (ws_enums t)"
    "bt_ok (ws_services t)" "set (ws_touched t) = set (ws_touched s) - {n}" "set (ws_removed t) = insert n (set (ws_removed s))"
    "ws_meta_dirty s \<longrightarrow> ws_meta_dirty t" "\<not> ws_meta_dirty t \<longrightarrow> ws_meta t = ws_meta s"
  shows "advances s t"
  using assms by (auto simp: advances_def ws_wf_def)

lemma advances_meta: "ws_wf s \<Longrightarrow> advances s (s\<lparr>ws_meta := m, ws_meta_dirty := True\<rparr>)"
  by (simp add: advances_def ws_wf_def)

text \<open>The rewriting of references in all declarations of a kind, with the changed ones touched.\<close>

lemma rewrite_all_get: "bt_get (fst (rewrite_all f skip m)) n = map_option (\<lambda>v. if skip n then v else fst (f v)) (bt_get m n)"
  by (induction m) (auto simp: rewrite_all_def)

lemma bt_ok_rewrite_all [simp]: "bt_ok (fst (rewrite_all f skip m)) = bt_ok m"
  by (simp add: rewrite_all_def bt_ok_def comp_def case_prod_unfold)

lemma rewrite_all_touched: "bt_ok m \<Longrightarrow> n \<in> set (snd (rewrite_all f skip m)) \<longleftrightarrow> (\<exists>v. bt_get m n = Some v \<and> \<not> skip n \<and> snd (f v))"
  by (force simp: rewrite_all_def bt_get_set)

lemma fold_touch_simps [simp]:
  "payload_at (fold touch ns s) = payload_at s" "exclusive (fold touch ns s) = exclusive s"
  "ws_messages (fold touch ns s) = ws_messages s" "ws_enums (fold touch ns s) = ws_enums s" "ws_services (fold touch ns s) = ws_services s"
  "ws_meta (fold touch ns s) = ws_meta s" "ws_meta_dirty (fold touch ns s) = ws_meta_dirty s"
  "set (ws_touched (fold touch ns s)) = set ns \<union> set (ws_touched s)" "set (ws_removed (fold touch ns s)) = set (ws_removed s) - set ns"
  by (induction ns arbitrary: s) auto

lemma advances_touch_all:
  assumes "ws_wf s" "exclusive t" "bt_ok (ws_messages t)" "bt_ok (ws_enums t)" "bt_ok (ws_services t)"
    and "\<And>n. payload_at t n = None \<longleftrightarrow> payload_at s n = None" "\<And>n. n \<notin> set ns \<Longrightarrow> payload_at t n = payload_at s n"
    "\<And>n. n \<in> set ns \<Longrightarrow> payload_at s n \<noteq> None"
    and "ws_touched t = ws_touched s" "ws_removed t = ws_removed s" "ws_meta_dirty t = ws_meta_dirty s" "ws_meta t = ws_meta s"
  shows "advances s (fold touch ns t)"
  using assms by (auto simp: advances_def ws_wf_def)

lemma advances_rewrite_messages:
  assumes "ws_wf s" "\<And>v. \<not> snd (f v) \<Longrightarrow> fst (f v) = v"
  shows "advances s (fold touch (snd (rewrite_all f skip (ws_messages s))) (s\<lparr>ws_messages := fst (rewrite_all f skip (ws_messages s))\<rparr>))"
proof (rule advances_touch_all [OF assms(1)])
  fix n
  show "payload_at (s\<lparr>ws_messages := fst (rewrite_all f skip (ws_messages s))\<rparr>) n = None \<longleftrightarrow> payload_at s n = None"
    by (simp add: payload_at_None rewrite_all_get)
  show "payload_at (s\<lparr>ws_messages := fst (rewrite_all f skip (ws_messages s))\<rparr>) n = payload_at s n"
    if "n \<notin> set (snd (rewrite_all f skip (ws_messages s)))"
    using that assms by (auto simp: payload_at_def rewrite_all_get rewrite_all_touched ws_wf_def split: option.splits)
  show "payload_at s n \<noteq> None" if "n \<in> set (snd (rewrite_all f skip (ws_messages s)))"
    using that assms(1) by (auto simp: payload_at_None rewrite_all_touched ws_wf_def)
qed (use assms(1) in \<open>auto simp: ws_wf_def exclusive_def rewrite_all_get\<close>)

lemma advances_rewrite_services:
  assumes "ws_wf s" "\<And>v. \<not> snd (f v) \<Longrightarrow> fst (f v) = v"
  shows "advances s (fold touch (snd (rewrite_all f skip (ws_services s))) (s\<lparr>ws_services := fst (rewrite_all f skip (ws_services s))\<rparr>))"
proof (rule advances_touch_all [OF assms(1)])
  fix n
  show "payload_at (s\<lparr>ws_services := fst (rewrite_all f skip (ws_services s))\<rparr>) n = None \<longleftrightarrow> payload_at s n = None"
    by (simp add: payload_at_None rewrite_all_get)
  show "payload_at (s\<lparr>ws_services := fst (rewrite_all f skip (ws_services s))\<rparr>) n = payload_at s n"
    if "n \<notin> set (snd (rewrite_all f skip (ws_services s)))"
    using that assms
    by (cases "bt_get (ws_services s) n") (auto simp: payload_at_def rewrite_all_get rewrite_all_touched ws_wf_def split: option.splits)
  show "payload_at s n \<noteq> None" if "n \<in> set (snd (rewrite_all f skip (ws_services s)))"
    using that assms(1) by (auto simp: payload_at_None rewrite_all_touched ws_wf_def)
qed (use assms(1) in \<open>auto simp: ws_wf_def exclusive_def rewrite_all_get\<close>)

text \<open>A declaration under a new name.\<close>

lemma advances_renamed:
  assumes "ws_wf s" "old = new \<or> payload_at s new = None" "payload_at s old \<noteq> None"
    "payload_at t = (payload_at s)(old := None, new \<mapsto> p)" "exclusive t" "bt_ok (ws_messages t)" "bt_ok (ws_enums t)"
    "bt_ok (ws_services t)" "ws_touched t = removeAll old (ws_touched s)" "ws_removed t = sorted_insert old (ws_removed s)"
    "ws_meta_dirty s \<longrightarrow> ws_meta_dirty t" "\<not> ws_meta_dirty t \<longrightarrow> ws_meta t = ws_meta s"
  shows "advances s (touch new t)"
  using assms by (auto simp: advances_def ws_wf_def split: if_splits)

section \<open>Handlers\<close>

named_theorems mut_simps \<open>lookups and checks of the handlers that succeeded\<close>

lemma mut_Inr [mut_simps]:
  "message_mut s n = Inr m \<longleftrightarrow> bt_get (ws_messages s) n = Some m" "enum_mut s n = Inr e \<longleftrightarrow> bt_get (ws_enums s) n = Some e"
  "service_mut s n = Inr v \<longleftrightarrow> bt_get (ws_services s) n = Some v"
  by (auto simp: message_mut_def enum_mut_def service_mut_def result_simps)

declare and_then_Inr [mut_simps] ensure_Inr [mut_simps] map_err_Inr [mut_simps]

lemma field_ops_advance:
  assumes "ws_wf s"
  shows "add_field pl a b c k d s = Inr t \<Longrightarrow> advances s t" and "remove_field a b s = Inr t \<Longrightarrow> advances s t"
    and change_field_advances: "change_field a b f s = Inr t \<Longrightarrow> advances s t" and "reorder_fields a ns s = Inr t \<Longrightarrow> advances s t"
  using advances_put_message [OF assms]
  by (auto simp: add_field_def remove_field_def change_field_def reorder_fields_def mut_simps Let_def case_prod_unfold)

lemma change_ops_advance:
  assumes "ws_wf s"
  shows "rename_field pl a b c s = Inr t \<Longrightarrow> advances s t" and "change_field_type pl a b c s = Inr t \<Longrightarrow> advances s t"
    and "change_cardinality a b c s = Inr t \<Longrightarrow> advances s t"
  using change_field_advances [OF assms]
  by (auto simp: rename_field_def change_field_type_def change_cardinality_def mut_simps Let_def case_prod_unfold)

lemma create_ops_advance:
  assumes "ws_wf s"
  shows "create_message n s = Inr t \<Longrightarrow> advances s t" and "create_enum n s = Inr t \<Longrightarrow> advances s t" and "add_service n s = Inr t \<Longrightarrow> advances s t"
proof -
  have wf: "exclusive s" "bt_ok (ws_messages s)" "bt_ok (ws_enums s)" "bt_ok (ws_services s)" using assms by (simp_all add: ws_wf_def)
  show "advances s t" if "create_message n s = Inr t"
  proof -
    have n: "bt_get (ws_messages s) n = None" "bt_get (ws_enums s) n = None" "bt_get (ws_services s) n = None"
      using that by (simp_all add: create_message_def mut_simps declared_iff payload_at_None)
    then show ?thesis using that unfolding create_message_def
      by (auto simp: mut_simps Let_def intro!: advances_update [OF assms, where p = "PMessage (dp_set_name (Some n) empty_descriptor)"])
        (use wf n in \<open>auto simp: payload_at_insert exclusive_def\<close>)
  qed
  show "advances s t" if "create_enum n s = Inr t"
  proof -
    have n: "bt_get (ws_messages s) n = None" "bt_get (ws_enums s) n = None" "bt_get (ws_services s) n = None"
      using that by (simp_all add: create_enum_def mut_simps declared_iff payload_at_None)
    then show ?thesis using that unfolding create_enum_def
      by (auto simp: mut_simps Let_def intro!: advances_update [OF assms, where p = "PEnum \<lparr>ed_name = Some n, ed_value = [], ed_options = None,
          ed_reserved_range = [], ed_reserved_name = [], ed_visibility = None\<rparr>"])
        (use wf n in \<open>auto simp: payload_at_insert exclusive_def\<close>)
  qed
  show "advances s t" if "add_service n s = Inr t"
  proof -
    have n: "bt_get (ws_messages s) n = None" "bt_get (ws_enums s) n = None" "bt_get (ws_services s) n = None"
      using that by (simp_all add: add_service_def mut_simps declared_iff payload_at_None)
    then show ?thesis using that unfolding add_service_def
      by (auto simp: mut_simps Let_def intro!: advances_update [OF assms, where p = "PService \<lparr>sd_name = Some n, sd_method = [], sd_options = None\<rparr>"])
        (use wf n in \<open>auto simp: payload_at_insert exclusive_def\<close>)
  qed
qed

lemma payload_at_remove:
  assumes "exclusive s"
  shows "bt_get (ws_messages s) n \<noteq> None \<Longrightarrow> payload_at (s\<lparr>ws_messages := bt_remove n (ws_messages s)\<rparr>) = (payload_at s)(n := None)"
    and "bt_get (ws_enums s) n \<noteq> None \<Longrightarrow> payload_at (s\<lparr>ws_enums := bt_remove n (ws_enums s)\<rparr>) = (payload_at s)(n := None)"
    and "bt_get (ws_services s) n \<noteq> None \<Longrightarrow> payload_at (s\<lparr>ws_services := bt_remove n (ws_services s)\<rparr>) = (payload_at s)(n := None)"
proof -
  have e: "(bt_get (ws_messages s) n \<noteq> None \<longrightarrow> bt_get (ws_enums s) n = None \<and> bt_get (ws_services s) n = None)
      \<and> (bt_get (ws_enums s) n \<noteq> None \<longrightarrow> bt_get (ws_services s) n = None)" using assms by (simp only: exclusive_def) blast
  show "bt_get (ws_messages s) n \<noteq> None \<Longrightarrow> payload_at (s\<lparr>ws_messages := bt_remove n (ws_messages s)\<rparr>) = (payload_at s)(n := None)"
    and "bt_get (ws_enums s) n \<noteq> None \<Longrightarrow> payload_at (s\<lparr>ws_enums := bt_remove n (ws_enums s)\<rparr>) = (payload_at s)(n := None)"
    and "bt_get (ws_services s) n \<noteq> None \<Longrightarrow> payload_at (s\<lparr>ws_services := bt_remove n (ws_services s)\<rparr>) = (payload_at s)(n := None)"
    using e by (auto simp: payload_at_def fun_eq_iff cong: option.case_cong)
qed

lemma exclusive_remove:
  "exclusive s \<Longrightarrow> exclusive (s\<lparr>ws_messages := bt_remove n (ws_messages s)\<rparr>)"
  "exclusive s \<Longrightarrow> exclusive (s\<lparr>ws_enums := bt_remove n (ws_enums s)\<rparr>)"
  "exclusive s \<Longrightarrow> exclusive (s\<lparr>ws_services := bt_remove n (ws_services s)\<rparr>)"
  by (simp_all add: exclusive_def)

lemma delete_ops_advance:
  assumes "ws_wf s"
  shows "delete_message n s = Inr t \<Longrightarrow> advances s t" and "delete_enum n s = Inr t \<Longrightarrow> advances s t" and "remove_service n s = Inr t \<Longrightarrow> advances s t"
proof -
  have wf: "exclusive s" "bt_ok (ws_messages s)" "bt_ok (ws_enums s)" "bt_ok (ws_services s)" using assms by (simp_all add: ws_wf_def)
  note removal = payload_at_remove [OF wf(1)] exclusive_remove [OF wf(1)] wf
  show "advances s t" if "delete_message n s = Inr t"
    by (rule advances_remove [OF assms, where n = n])
      (use that in \<open>auto simp: delete_message_def mut_simps Let_def bt_mem_def removal\<close>)
  show "advances s t" if "delete_enum n s = Inr t"
    by (rule advances_remove [OF assms, where n = n])
      (use that in \<open>auto simp: delete_enum_def mut_simps Let_def bt_mem_def removal\<close>)
  show "advances s t" if "remove_service n s = Inr t"
    by (rule advances_remove [OF assms, where n = n])
      (use that in \<open>auto simp: remove_service_def mut_simps Let_def bt_mem_def removal\<close>)
qed

lemma value_ops_advance:
  assumes "ws_wf s"
  shows "add_enum_value a b k s = Inr t \<Longrightarrow> advances s t" and "remove_enum_value a b s = Inr t \<Longrightarrow> advances s t"
proof -
  show "add_enum_value a b k s = Inr t \<Longrightarrow> advances s t"
    using advances_put_enum [OF assms] by (auto simp: add_enum_value_def mut_simps Let_def)
  show "remove_enum_value a b s = Inr t \<Longrightarrow> advances s t"
  proof -
    let ?r = "s\<lparr>ws_removed_enum_values := sorted_insert (a, b) (ws_removed_enum_values s)\<rparr>"
    have "advances s (put_enum a e ?r)" if "bt_get (ws_enums s) a \<noteq> None" for e
      using advances_put_enum [of ?r a e] assms that by (simp add: advances_def ws_wf_def)
    then show "remove_enum_value a b s = Inr t \<Longrightarrow> advances s t"
      by (auto simp: remove_enum_value_def mut_simps Let_def)
  qed
qed

lemma rpc_ops_advance:
  assumes "ws_wf s"
  shows "add_rpc a b c d x y s = Inr t \<Longrightarrow> advances s t" and "remove_rpc a b s = Inr t \<Longrightarrow> advances s t"
    and "rename_rpc a b c s = Inr t \<Longrightarrow> advances s t" and "change_rpc_type a b c d s = Inr t \<Longrightarrow> advances s t"
  using advances_put_service [OF assms]
  by (auto simp: add_rpc_def remove_rpc_def rename_rpc_def change_rpc_type_def mut_simps Let_def)

lemma update_import_advances: "ws_wf s \<Longrightarrow> update_import a b c s = Inr t \<Longrightarrow> advances s t"
  using advances_meta by (auto simp: update_import_def Let_def)

lemma rename_service_advances:
  assumes "ws_wf s" "rename_service a b s = Inr t"
  shows "advances s t"
proof -
  have wf: "exclusive s" "bt_ok (ws_messages s)" "bt_ok (ws_enums s)" "bt_ok (ws_services s)" using assms(1) by (simp_all add: ws_wf_def)
  obtain v where v: "bt_get (ws_services s) a = Some v" and ab: "a = b \<or> payload_at s b = None"
    using assms(2) by (auto simp: rename_service_def mut_simps declared_iff)
  have a: "bt_get (ws_messages s) a = None" "bt_get (ws_enums s) a = None" using exclusive_others [OF wf(1), of a] v by simp_all
  have b: "bt_get (ws_messages s) b = None" "bt_get (ws_enums s) b = None" using ab a by (auto simp: payload_at_None)
  show ?thesis
    using assms(2) v unfolding rename_service_def
    by (auto simp: mut_simps Let_def intro!: advances_renamed [OF assms(1) ab, where p = "PService (v\<lparr>sd_name := Some b\<rparr>)"])
      (use wf a b v in \<open>auto simp: payload_at_def exclusive_def fun_eq_iff cong: option.case_cong split: if_splits\<close>)
qed

lemma touch_update:
  "touch n (s\<lparr>ws_enums := x\<rparr>) = (touch n s)\<lparr>ws_enums := x\<rparr>" "touch n (s\<lparr>ws_meta := m\<rparr>) = (touch n s)\<lparr>ws_meta := m\<rparr>"
  "touch n (s\<lparr>ws_meta_dirty := b\<rparr>) = (touch n s)\<lparr>ws_meta_dirty := b\<rparr>" "touch n (s\<lparr>ws_messages := y\<rparr>) = (touch n s)\<lparr>ws_messages := y\<rparr>"
  by (simp_all add: touch_def)

lemma fold_touch_enums: "fold touch ns (s\<lparr>ws_enums := x\<rparr>) = (fold touch ns s)\<lparr>ws_enums := x\<rparr>"
  "fold touch ns (s\<lparr>ws_enums := x, ws_messages := y\<rparr>) = (fold touch ns (s\<lparr>ws_messages := y\<rparr>))\<lparr>ws_enums := x\<rparr>"
  by (induction ns arbitrary: s) (simp_all add: touch_update)

lemma rename_enum_value_advances:
  assumes "ws_wf s" "rename_enum_value a b c s = Inr t"
  shows "advances s t"
proof -
  obtain e where e: "bt_get (ws_enums s) a = Some e" using assms(2) by (auto simp: rename_enum_value_def mut_simps)
  let ?e = "e\<lparr>ed_value := update_first (\<lambda>v. ev_name v = Some b) (\<lambda>v. v\<lparr>ev_name := Some c\<rparr>) (ed_value e)\<rparr>"
  let ?f = "rename_enum_value_refs_in_message a b c"
  let ?s = "s\<lparr>ws_enums := bt_insert a ?e (ws_enums s)\<rparr>"
  let ?r = "rewrite_all ?f (\<lambda>_. False) (ws_messages s)"
  let ?t = "put_enum a ?e (fold touch (snd ?r) (s\<lparr>ws_messages := fst ?r\<rparr>))"
  have step: "advances s ?t"
  proof (rule advances_trans [OF advances_rewrite_messages [OF assms(1) rename_enum_value_refs_same]])
    show "advances (fold touch (snd ?r) (s\<lparr>ws_messages := fst ?r\<rparr>)) ?t"
      by (rule advances_put_enum) (use advances_rewrite_messages [OF assms(1) rename_enum_value_refs_same] e in \<open>simp_all add: advances_def\<close>)
  qed
  let ?x = "map (rename_enum_value_ref_in_field a b c) (mp_extension (ws_meta s))"
  have t: "t = ?t\<lparr>ws_meta := (ws_meta s)\<lparr>mp_extension := map fst ?x\<rparr>, ws_meta_dirty := (ws_meta_dirty s \<or> list_ex snd ?x)\<rparr>"
    using assms(2) e by (auto simp: rename_enum_value_def mut_simps Let_def case_prod_unfold put_enum_def touch_update fold_touch_enums)
  have "ws_meta ?t = ws_meta s" "ws_meta_dirty ?t = ws_meta_dirty s" by (simp_all add: put_enum_def)
  moreover have "map fst ?x = mp_extension (ws_meta s)" if "\<not> list_ex snd ?x"
    using map_fst_same [OF rename_enum_value_ref_same that] by simp
  ultimately show ?thesis using step unfolding t by (auto simp: advances_def ws_wf_def)
qed

lemma rename_message_advances:
  assumes "ws_wf s" "rename_message a b s = Inr t"
  shows "advances s t"
proof -
  have wf: "exclusive s" "bt_ok (ws_messages s)" "bt_ok (ws_enums s)" "bt_ok (ws_services s)" using assms(1) by (simp_all add: ws_wf_def)
  obtain m0 where m0: "bt_get (ws_messages s) a = Some m0" and ab: "a = b \<or> payload_at s b = None"
    using assms(2) by (auto simp: rename_message_def mut_simps declared_iff)
  define m where "m = fst (rename_refs_in_message a b (dp_set_name (Some b) m0))"
  define s2 where "s2 = touch b (s\<lparr>ws_messages := bt_insert b m (bt_remove a (ws_messages s)),
    ws_removed := sorted_insert a (ws_removed s), ws_touched := removeAll a (ws_touched s)\<rparr>)"
  define r where "r = rewrite_all (rename_refs_in_message a b) (\<lambda>name. name = b) (ws_messages s2)"
  define s3 where "s3 = fold touch (snd r) (s2\<lparr>ws_messages := fst r\<rparr>)"
  define q where "q = rewrite_all (rename_refs_in_service a b) (\<lambda>_. False) (ws_services s3)"
  define s4 where "s4 = fold touch (snd q) (s3\<lparr>ws_services := fst q\<rparr>)"
  define x where "x = map (rename_refs_in_field a b) (mp_extension (ws_meta s4))"
  have b: "a = b \<or> bt_get (ws_messages s) b = None \<and> bt_get (ws_enums s) b = None \<and> bt_get (ws_services s) b = None"
    using ab by (simp add: payload_at_None)
  have s2: "advances s s2"
    unfolding s2_def
    by (rule advances_renamed [OF assms(1) ab, where p = "PMessage m"])
      (use wf b m0 in \<open>auto simp: payload_at_def exclusive_def fun_eq_iff cong: option.case_cong split: if_splits\<close>)
  then have s3: "advances s2 s3"
    unfolding s3_def r_def by (intro advances_rewrite_messages rename_refs_in_message_same) (simp_all add: advances_def)
  then have s4: "advances s3 s4"
    unfolding s4_def q_def by (intro advances_rewrite_services rename_refs_in_service_same) (simp_all add: advances_def)
  have t: "t = s4\<lparr>ws_meta := (ws_meta s4)\<lparr>mp_extension := map fst x, mp_message_order := replace_name a b (mp_message_order (ws_meta s4))\<rparr>,
      ws_meta_dirty := (ws_meta_dirty s4 \<or> list_ex snd x \<or> a \<in> set (mp_message_order (ws_meta s4)))\<rparr>"
    using assms(2) m0
    by (auto simp: rename_message_def mut_simps Let_def case_prod_unfold m_def s2_def r_def s3_def q_def s4_def x_def)
  have "map fst x = mp_extension (ws_meta s4)" if "\<not> list_ex snd x"
    using map_fst_same [OF rename_refs_in_field_same that [unfolded x_def]] by (simp add: x_def)
  moreover have "replace_name a b ns = ns" if "a \<notin> set ns" for ns
    using that by (induction ns) (auto simp: replace_name_def)
  ultimately have "advances s4 t" using s4 unfolding t by (auto simp: advances_def ws_wf_def)
  with s2 s3 s4 show ?thesis using advances_trans by blast
qed

lemma apply_op_advances: "ws_wf s \<Longrightarrow> apply_op pl op s = Inr t \<Longrightarrow> advances s t"
  by (cases op) (auto intro: field_ops_advance change_ops_advance create_ops_advance delete_ops_advance value_ops_advance rpc_ops_advance
      update_import_advances rename_service_advances rename_enum_value_advances rename_message_advances)

lemma apply_ops_advances: "ws_wf s \<Longrightarrow> apply_ops pl pr ops s = Inr t \<Longrightarrow> advances s t"
proof (induction ops arbitrary: s)
  case (Cons op ops)
  then obtain p u where u: "apply_op pl p s = Inr u" "apply_ops pl pr ops u = Inr t" by (auto simp: mut_simps)
  then have "advances s u" using apply_op_advances Cons.prems(1) by blast
  moreover have "advances u t" using Cons.IH [OF _ u(2)] calculation by (simp add: advances_def)
  ultimately show ?case by (rule advances_trans)
qed (simp add: advances_refl)

end
