(* ===== verification/Proto_Effect.thy ===== *)
theory Proto_Effect
  imports Proto_Tracking
begin

text \<open>
  The effect of protobuf mutations on a stored schema: loading the schema, applying operations, reading off the effect and applying
  it to the stored blobs (\<open>mutations.rs\<close>, and \<open>apply_effect\<close> of \<open>change_record/validation.rs\<close>) stores the final working state.
\<close>

section \<open>Effects on stored schemas\<close>

definition apply_schema_effect :: "schema_objects \<Rightarrow> mutation_effect \<Rightarrow> schema_objects" where
  "apply_schema_effect schema effect =
     (let schema1 = (case me_meta effect of Some meta \<Rightarrow> schema\<lparr>so_meta := meta\<rparr> | None \<Rightarrow> schema);
          decls = fold (\<lambda>(name, blob). bt_insert name blob) (me_upserts effect) (so_decls schema1)
      in schema1\<lparr>so_decls := fold bt_remove (me_removes effect) decls\<rparr>)"

definition diff_effect :: "schema_objects \<Rightarrow> schema_objects \<Rightarrow> mutation_effect" where
  "diff_effect original current =
     \<lparr>me_meta = (if so_meta original \<noteq> so_meta current then Some (so_meta current) else None),
      me_upserts = filter (\<lambda>(name, blob). bt_get (so_decls original) name \<noteq> Some blob) (so_decls current),
      me_removes = filter (\<lambda>name. \<not> bt_mem name (so_decls current)) (bt_keys (so_decls original))\<rparr>"

definition effect_is_empty :: "mutation_effect \<Rightarrow> bool" where
  "effect_is_empty effect \<longleftrightarrow> me_meta effect = None \<and> me_upserts effect = [] \<and> me_removes effect = []"

lemma apply_schema_effect_simps:
  "so_decls (apply_schema_effect schema e) = fold bt_remove (me_removes e) (fold (\<lambda>(name, blob). bt_insert name blob) (me_upserts e) (so_decls schema))"
  "so_meta (apply_schema_effect schema e) = case_option (so_meta schema) id (me_meta e)"
  by (simp_all add: apply_schema_effect_def Let_def split: option.split)

lemma bt_get_remove_all: "bt_get (fold bt_remove ns m) n = (if n \<in> set ns then None else bt_get m n)"
  by (induction ns arbitrary: m) auto

lemma bt_ok_remove_all: "bt_ok m \<Longrightarrow> bt_ok (fold bt_remove ns m)"
  by (induction ns arbitrary: m) auto

lemma bt_get_insert_all:
  "single_valued (set kvs) \<Longrightarrow>
    bt_get (fold (\<lambda>(k, v). bt_insert k v) kvs m) n = (case map_of kvs n of Some v \<Rightarrow> Some v | None \<Rightarrow> bt_get m n)"
proof (induction kvs arbitrary: m)
  case (Cons p kvs)
  obtain k v where p: "p = (k, v)" by fastforce
  have v: "map_of kvs k = None \<or> map_of kvs k = Some v"
    using single_valuedD [OF Cons.prems, of k v] p map_of_SomeD [of kvs k] by (cases "map_of kvs k") auto
  have "bt_get (fold (\<lambda>(k, v). bt_insert k v) kvs (bt_insert k v m)) n
      = (case map_of kvs n of Some w \<Rightarrow> Some w | None \<Rightarrow> bt_get (bt_insert k v m) n)"
    by (rule Cons.IH) (use Cons.prems in \<open>auto simp: single_valued_def\<close>)
  then show ?case using p v by (auto split: option.splits)
qed simp

lemma bt_ok_insert_all: "bt_ok m \<Longrightarrow> bt_ok (fold (\<lambda>(k, v). bt_insert k v) kvs m)"
  by (induction kvs arbitrary: m) auto

text \<open>The difference of two schemas, applied to the first, gives the second.\<close>

lemma apply_diff_effect:
  assumes "bt_ok (so_decls original)" "bt_ok (so_decls current)"
  shows "apply_schema_effect original (diff_effect original current) = current"
proof -
  let ?e = "diff_effect original current"
  let ?d = "fold (\<lambda>(name, blob). bt_insert name blob) (me_upserts ?e) (so_decls original)"
  have one: "single_valued (set (me_upserts ?e))"
    using assms(2) by (auto simp: diff_effect_def bt_get_set [symmetric] intro!: single_valuedI)
  have up: "map_of (me_upserts ?e) n = (if bt_get (so_decls original) n = bt_get (so_decls current) n then None else bt_get (so_decls current) n)" for n
  proof (cases "map_of (me_upserts ?e) n")
    case None
    then have "(n, b) \<notin> set (me_upserts ?e)" for b by (force simp: map_of_eq_None_iff)
    then show ?thesis using None assms(2) by (auto simp: diff_effect_def bt_get_set [symmetric]) (metis not_None_eq)
  next
    case (Some b)
    then have "(n, b) \<in> set (me_upserts ?e)" by (rule map_of_SomeD)
    then have "bt_get (so_decls current) n = Some b" "bt_get (so_decls original) n \<noteq> Some b"
      using assms(2) by (auto simp: diff_effect_def bt_get_set)
    then show ?thesis using Some by simp
  qed
  have "bt_get (fold bt_remove (me_removes ?e) ?d) n = bt_get (so_decls current) n" for n
    using bt_get_insert_all [OF one] up [of n] bt_get_keys [of "so_decls original" n]
    by (auto simp: bt_get_remove_all diff_effect_def bt_mem_def split: option.splits)
  then have "fold bt_remove (me_removes ?e) ?d = so_decls current"
    by (intro bt_ext bt_ok_remove_all bt_ok_insert_all assms ext)
  then show ?thesis by (simp add: apply_schema_effect_def Let_def diff_effect_def)
qed

section \<open>Loading\<close>

definition decode_at :: "proto_lib \<Rightarrow> nat \<Rightarrow> (string, bytes) btree \<Rightarrow> string \<Rightarrow> decl_payload option" where
  "decode_at pl stack decls n =
     (case bt_get decls n of
        None \<Rightarrow> None
      | Some b \<Rightarrow> (case decode_decl pl stack b of Inr p \<Rightarrow> Some p | Inl _ \<Rightarrow> None))"

definition unloaded :: "bool \<Rightarrow> working_state" where
  "unloaded d = \<lparr>ws_messages = [], ws_enums = [], ws_services = [], ws_meta = default_meta, ws_meta_dirty = False, ws_touched = [],
     ws_removed = [], ws_removed_enum_values = [], ws_defer_reference_integrity = d\<rparr>"

definition maps_ok :: "working_state \<Rightarrow> bool" where
  "maps_ok s \<longleftrightarrow> bt_ok (ws_messages s) \<and> bt_ok (ws_enums s) \<and> bt_ok (ws_services s) \<and> exclusive s"

lemma insert_payload_at:
  assumes "maps_ok s" "payload_at s n = None"
  shows "payload_at (insert_payload n p s) = (payload_at s)(n \<mapsto> p)" and "maps_ok (insert_payload n p s)"
    and "ws_touched (insert_payload n p s) = ws_touched s" "ws_removed (insert_payload n p s) = ws_removed s"
    "ws_meta_dirty (insert_payload n p s) = ws_meta_dirty s"
    "ws_defer_reference_integrity (insert_payload n p s) = ws_defer_reference_integrity s"
    "ws_removed_enum_values (insert_payload n p s) = ws_removed_enum_values s"
  using assms by (auto simp: insert_payload_def payload_at_insert payload_at_None maps_ok_def exclusive_def split: decl_payload.splits)

lemma load_decls_loads:
  assumes "load_decls pl stack ds s = Inr t" "distinct (map fst ds)" "\<And>n. n \<in> fst ` set ds \<Longrightarrow> payload_at s n = None" "maps_ok s"
  shows "maps_ok t \<and> ws_touched t = ws_touched s \<and> ws_removed t = ws_removed s \<and> ws_meta_dirty t = ws_meta_dirty s
    \<and> ws_defer_reference_integrity t = ws_defer_reference_integrity s \<and> ws_removed_enum_values t = ws_removed_enum_values s
    \<and> payload_at t = (\<lambda>n. case decode_at pl stack ds n of Some p \<Rightarrow> Some p | None \<Rightarrow> payload_at s n)"
  using assms
proof (induction ds arbitrary: s)
  case Nil
  then show ?case by (simp add: decode_at_def)
next
  case (Cons d ds)
  obtain n b where d: "d = (n, b)" by fastforce
  then obtain p where p: "decode_decl pl stack b = Inr p" "load_decls pl stack ds (insert_payload n p s) = Inr t"
    using Cons.prems(1) by (auto simp: result_simps)
  have s: "maps_ok s" "payload_at s n = None" using Cons.prems d by auto
  have ds: "n \<notin> fst ` set ds" "distinct (map fst ds)" using Cons.prems(2) d by auto
  have "payload_at (insert_payload n p s) k = None" if "k \<in> fst ` set ds" for k
    using Cons.prems(3) [of k] that ds(1) by (auto simp: insert_payload_at [OF s])
  note IH = Cons.IH [OF p(2) ds(2) this insert_payload_at(2) [OF s]]
  have "decode_at pl stack ds n = None" using map_of_eq_None_iff [of ds n] ds(1) by (simp add: decode_at_def)
  then have "decode_at pl stack (d # ds) k = (if k = n then Some p else decode_at pl stack ds k)" for k
    using d p(1) by (simp add: decode_at_def)
  with IH \<open>decode_at pl stack ds n = None\<close> show ?case by (auto simp: insert_payload_at [OF s] fun_eq_iff split: option.splits)
qed

lemma load_decls_total: "\<forall>n b. (n, b) \<in> set ds \<longrightarrow> (\<exists>p. decode_decl pl stack b = Inr p) \<Longrightarrow> \<exists>t. load_decls pl stack ds s = Inr t"
proof (induction ds arbitrary: s)
  case (Cons d ds)
  obtain n b where d: "d = (n, b)" by fastforce
  then obtain p where "decode_decl pl stack b = Inr p" using Cons.prems by auto
  with Cons.IH [of "insert_payload n p s"] Cons.prems d show ?case by auto
qed simp

lemma load_decls_decodes: "load_decls pl stack ds s = Inr t \<Longrightarrow> (n, b) \<in> set ds \<Longrightarrow> \<exists>p. decode_decl pl stack b = Inr p"
  by (induction ds arbitrary: s) (auto simp: result_simps)

lemma loaded_blob_decodes: "ws_load pl stack schema d = Inr s \<Longrightarrow> (n, b) \<in> set (so_decls schema) \<Longrightarrow> \<exists>p. decode_decl pl stack b = Inr p"
  by (auto simp: ws_load_def result_simps dest: load_decls_decodes)

lemma ws_load_loads:
  assumes "ws_load pl stack schema d = Inr s" "bt_ok (so_decls schema)"
  shows "maps_ok s" "ws_touched s = []" "ws_removed s = []" "\<not> ws_meta_dirty s" "payload_at s = decode_at pl stack (so_decls schema)"
    "decode_meta pl (so_meta schema) = Inr (ws_meta s)" "ws_wf s" "ws_defer_reference_integrity s = d" "ws_removed_enum_values s = []"
proof -
  obtain t m where t: "load_decls pl stack (so_decls schema) (unloaded d) = Inr t" "decode_meta pl (so_meta schema) = Inr m"
    "s = t\<lparr>ws_meta := m\<rparr>"
    using assms(1) by (auto simp: ws_load_def unloaded_def result_simps)
  have "payload_at (unloaded d) n = None" for n by (simp add: payload_at_None unloaded_def)
  moreover have "maps_ok (unloaded d)" by (simp add: maps_ok_def unloaded_def exclusive_def)
  ultimately have *: "maps_ok t \<and> ws_touched t = [] \<and> ws_removed t = [] \<and> \<not> ws_meta_dirty t \<and> ws_defer_reference_integrity t = d
      \<and> ws_removed_enum_values t = [] \<and> payload_at t = decode_at pl stack (so_decls schema)"
    using load_decls_loads [OF t(1) bt_ok_distinct [OF assms(2)]]
    by (auto simp: unloaded_def fun_eq_iff split: option.splits)
  then show "maps_ok s" "ws_touched s = []" "ws_removed s = []" "\<not> ws_meta_dirty s" "payload_at s = decode_at pl stack (so_decls schema)"
    "decode_meta pl (so_meta schema) = Inr (ws_meta s)" "ws_wf s" "ws_defer_reference_integrity s = d" "ws_removed_enum_values s = []"
    using t by (auto simp: maps_ok_def ws_wf_def)
qed

section \<open>The effect stands for the state\<close>

definition fits_state :: "proto_lib \<Rightarrow> nat \<Rightarrow> working_state \<Rightarrow> bool" where
  "fits_state pl stack s \<longleftrightarrow>
     (\<forall>n \<in> set (ws_touched s). pred_option (\<lambda>p. fits_payload stack p \<and> length (encode_decl pl p) < 2 ^ 63) (payload_at s n))
     \<and> fits_meta (ws_meta s) \<and> length (encode_meta pl (ws_meta s)) < 2 ^ 63"

definition same_schema :: "working_state \<Rightarrow> working_state \<Rightarrow> bool" where
  "same_schema s t \<longleftrightarrow> ws_messages s = ws_messages t \<and> ws_enums s = ws_enums t \<and> ws_services s = ws_services t \<and> ws_meta s = ws_meta t"

lemma same_schemaI:
  assumes "maps_ok s" "maps_ok t" "payload_at s = payload_at t" "ws_meta s = ws_meta t"
  shows "same_schema s t"
proof -
  have e: "exclusive s" "exclusive t" using assms by (simp_all add: maps_ok_def)
  have "bt_get (ws_messages s) n = bt_get (ws_messages t) n" "bt_get (ws_enums s) n = bt_get (ws_enums t) n"
    "bt_get (ws_services s) n = bt_get (ws_services t) n" for n
    using exclusive_gets [OF e(1), of n] exclusive_gets [OF e(2), of n] assms(3) by (metis not_None_eq)+
  then show ?thesis using assms(1,2,4) by (simp add: same_schema_def maps_ok_def) (meson bt_ext ext)
qed

lemma effect_upserts_get:
  assumes "\<And>n. n \<in> set ns \<Longrightarrow> n \<notin> set (ws_removed s) \<and> payload_at s n \<noteq> None"
  shows "map_of (effect_upserts pl s ns) n = (if n \<in> set ns then map_option (encode_decl pl) (payload_at s n) else None)"
    and "(a, b) \<in> set (effect_upserts pl s ns) \<Longrightarrow> Some b = map_option (encode_decl pl) (payload_at s a)"
  using assms by (induction ns) (auto split: option.splits)

lemma applied_effect_get:
  assumes "ws_wf s" "\<And>n. bt_get (so_decls schema) n = None \<Longrightarrow> n \<notin> set (ws_touched s) \<union> set (ws_removed s) \<Longrightarrow> payload_at s n = None"
  shows "bt_get (so_decls (apply_schema_effect schema (into_effect pl schema s))) n =
    (if n \<in> set (ws_touched s) then map_option (encode_decl pl) (payload_at s n)
     else if n \<in> set (ws_removed s) then None else bt_get (so_decls schema) n)"
proof -
  have t: "n \<notin> set (ws_removed s) \<and> payload_at s n \<noteq> None" if "n \<in> set (ws_touched s)" for n
    using assms(1) that by (auto simp: ws_wf_def)
  let ?up = "effect_upserts pl s (ws_touched s)"
  have one: "single_valued (set ?up)"
    using effect_upserts_get(2) [OF t] by (metis option.inject single_valuedI)
  have "bt_get (so_decls (apply_schema_effect schema (into_effect pl schema s))) n =
      (if n \<in> set (ws_removed s) \<and> bt_mem n (so_decls schema) then None
       else case map_of ?up n of Some v \<Rightarrow> Some v | None \<Rightarrow> bt_get (so_decls schema) n)"
    by (simp add: apply_schema_effect_simps into_effect_def bt_get_remove_all bt_get_insert_all [OF one])
  then show ?thesis
    using t [of n] effect_upserts_get(1) [OF t, of "ws_touched s" pl n] by (auto simp: bt_mem_def split: option.splits)
qed

lemma effect_stores_state:
  assumes "proto_enums pl" "bt_ok (so_decls schema)" "ws_load pl stack schema d = Inr s0" "advances s0 s" "fits_state pl stack s"
  shows "\<exists>t. ws_load pl stack (apply_schema_effect schema (into_effect pl schema s)) d = Inr t \<and> same_schema t s"
proof -
  note loaded = ws_load_loads [OF assms(3,2)]
  let ?new = "apply_schema_effect schema (into_effect pl schema s)"
  have wf: "ws_wf s" and kept: "\<And>n. n \<notin> set (ws_touched s) \<union> set (ws_removed s) \<Longrightarrow> payload_at s n = decode_at pl stack (so_decls schema) n"
    and meta: "\<not> ws_meta_dirty s \<Longrightarrow> ws_meta s = ws_meta s0"
    using assms(4) loaded(5) by (auto simp: advances_def)
  have get: "bt_get (so_decls ?new) n = (if n \<in> set (ws_touched s) then map_option (encode_decl pl) (payload_at s n)
      else if n \<in> set (ws_removed s) then None else bt_get (so_decls schema) n)" for n
    by (rule applied_effect_get [OF wf]) (simp add: kept decode_at_def)
  have trip: "decode_decl pl stack (encode_decl pl p) = Inr p" if "n \<in> set (ws_touched s)" "payload_at s n = Some p" for n p
    using proto_enums.decode_decl_encode [OF assms(1)] assms(5) that by (auto simp: fits_state_def)
  have view: "decode_at pl stack (so_decls ?new) n = payload_at s n" for n
  proof (cases "n \<in> set (ws_touched s)")
    case True
    then obtain p where "payload_at s n = Some p" using wf by (auto simp: ws_wf_def)
    then show ?thesis using True trip get by (simp add: decode_at_def)
  next
    case False
    then show ?thesis using get kept [of n] wf by (auto simp: decode_at_def ws_wf_def)
  qed
  have ok: "bt_ok (so_decls ?new)" using assms(2) by (simp add: apply_schema_effect_simps bt_ok_remove_all bt_ok_insert_all)
  have decodes: "\<exists>p. decode_decl pl stack b = Inr p" if "(n, b) \<in> set (so_decls ?new)" for n b
  proof -
    have b: "bt_get (so_decls ?new) n = Some b" using that ok by (simp add: bt_get_set)
    show ?thesis
    proof (cases "n \<in> set (ws_touched s)")
      case True
      then show ?thesis using b get trip by auto
    next
      case False
      then have "(n, b) \<in> set (so_decls schema)" using b get assms(2) by (auto simp: bt_get_set split: if_splits)
      then show ?thesis using loaded_blob_decodes [OF assms(3)] by blast
    qed
  qed
  have m: "decode_meta pl (so_meta ?new) = Inr (ws_meta s)"
    using proto_enums.decode_meta_encode(1) [OF assms(1)] assms(5) meta loaded(6)
    by (auto simp: apply_schema_effect_simps into_effect_def fits_state_def)
  obtain t where t: "ws_load pl stack ?new d = Inr t"
    using load_decls_total [of "so_decls ?new" pl stack "unloaded d"] decodes m by (auto simp: ws_load_def unloaded_def)
  note again = ws_load_loads [OF t ok]
  have "same_schema t s"
    by (rule same_schemaI) (use again view wf m in \<open>auto simp: maps_ok_def ws_wf_def\<close>)
  then show ?thesis using t by blast
qed

text \<open>What is declared at first and not in the end has been removed.\<close>

lemma gone_is_removed:
  assumes "advances s0 s" "payload_at s0 n \<noteq> None" "payload_at s n = None"
  shows "n \<in> set (ws_removed s)"
proof (rule ccontr)
  assume "n \<notin> set (ws_removed s)"
  moreover have "n \<notin> set (ws_touched s)" using assms(1,3) by (auto simp: advances_def ws_wf_def)
  ultimately have "payload_at s n = payload_at s0 n" using assms(1) by (simp add: advances_def)
  then show False using assms(2,3) by simp
qed

definition unreferenced :: "working_state \<Rightarrow> string \<Rightarrow> bool" where
  "unreferenced s n \<longleftrightarrow> (\<forall>k m. bt_get (ws_messages s) k = Some m \<longrightarrow> \<not> message_references_type n m)
     \<and> (\<forall>k v. bt_get (ws_services s) k = Some v \<longrightarrow> \<not> service_references_type n v)
     \<and> (\<forall>f \<in> set (mp_extension (ws_meta s)). \<not> field_references_type n f)"

lemma references_to_Nil:
  assumes "references_to s n (Some n) = []" "payload_at s n = None"
  shows "unreferenced s n"
proof -
  have r: "\<forall>(k, m) \<in> set (ws_messages s). k = n \<or> \<not> message_references_type n m"
    "\<forall>(k, v) \<in> set (ws_services s). \<not> service_references_type n v"
    "\<forall>f \<in> set (mp_extension (ws_meta s)). \<not> field_references_type n f"
    using assms(1) by (auto simp: references_to_def filter_empty_conv list_ex_iff split: if_splits)
  have "\<not> message_references_type n m" if "bt_get (ws_messages s) k = Some m" for k m
    using r(1) map_of_SomeD [OF that] that assms(2) by (auto simp: payload_at_None)
  moreover have "\<not> service_references_type n v" if "bt_get (ws_services s) k = Some v" for k v
    using r(2) map_of_SomeD [OF that] by blast
  ultimately show ?thesis using r(3) by (simp add: unreferenced_def)
qed

lemma check_removed_Inr: "check_removed s ns = Inr () \<longleftrightarrow> (\<forall>n \<in> set ns. references_to s n (Some n) = [])"
  by (induction ns) (auto simp: Let_def)

text \<open>
  C37: What a batch of protobuf operations stores is what it computed.  If the batch is accepted, its operations have led from the
  loaded schema to a state; the effect, applied to the stored blobs, gives blobs from which exactly this state is loaded, provided
  that it fits the format; and no declaration that was there before and is gone is referenced by any message, service or
  extension that is left.
\<close>

theorem apply_many_effect:
  assumes "proto_enums pl" "bt_ok (so_decls schema)" "apply_many pl pr stack schema ops = Inr effect"
  shows "\<exists>s0 s. ws_load pl stack schema True = Inr s0 \<and> apply_ops pl pr ops s0 = Inr s
    \<and> (fits_state pl stack s \<longrightarrow> (\<exists>t. ws_load pl stack (apply_schema_effect schema effect) True = Inr t \<and> same_schema t s))
    \<and> (\<forall>n. payload_at s0 n \<noteq> None \<and> payload_at s n = None \<longrightarrow> unreferenced s n)"
proof -
  obtain s0 s where s: "ws_load pl stack schema True = Inr s0" "apply_ops pl pr ops s0 = Inr s" "validate_removed_references s = Inr ()"
    "effect = into_effect pl schema s"
    using assms(3) by (auto simp: apply_many_def result_simps)
  have step: "advances s0 s" using apply_ops_advances ws_load_loads(7) [OF s(1) assms(2)] s(2) by blast
  have "unreferenced s n" if "payload_at s0 n \<noteq> None" "payload_at s n = None" for n
    using gone_is_removed [OF step that] s(3) that(2)
    by (auto simp: validate_removed_references_def result_simps check_removed_Inr intro: references_to_Nil)
  then show ?thesis using effect_stores_state [OF assms(1,2) s(1) step] s by blast
qed

definition sample_enum :: enum_descriptor where
  "sample_enum = \<lparr>ed_name = Some ''E'', ed_value = [], ed_options = None, ed_reserved_range = [], ed_reserved_name = [], ed_visibility = None\<rparr>"

definition sample_outer :: descriptor where
  "sample_outer = dp_set_name (Some ''M'') (dp_set_field
     [(sample_field ''a'' 1 FtEnum)\<lparr>fd_type_name := Some ''E''\<rparr>, sample_field ''b'' 2 (FtScalar 1)] empty_descriptor)"

definition sample_file :: meta_payload where
  "sample_file = default_meta\<lparr>mp_message_order := [''M''], mp_enum_order := [''E'']\<rparr>"

definition sample_schema :: schema_objects where
  "sample_schema =
     \<lparr>so_meta = encode_meta reference_proto sample_file,
      so_decls = [(''E'', encode_decl reference_proto (PEnum sample_enum)), (''M'', encode_decl reference_proto (PMessage sample_outer))]\<rparr>"

definition sample_state :: "bool \<Rightarrow> working_state" where
  "sample_state d = \<lparr>ws_messages = [(''M'', sample_outer)], ws_enums = [(''E'', sample_enum)], ws_services = [], ws_meta = sample_file,
     ws_meta_dirty = False, ws_touched = [], ws_removed = [], ws_removed_enum_values = [], ws_defer_reference_integrity = d\<rparr>"

definition sample_op :: "proto_op \<Rightarrow> mutation" where
  "sample_op op = \<lparr>mu_schema_path = \<lparr>sp_project = ''p'', sp_repo = ''r'', sp_schema_name = ''s.proto''\<rparr>, mu_format_id = ''protobuf'',
     mu_operation = encode_op reference_prost op\<rparr>"

definition sample_batch :: "proto_op list" where
  "sample_batch = [DeleteEnum ''E'', RemoveField ''M'' ''a'']"

lemma sample_text_fits' [simp]: "fits_str ''M''" "fits_str ''E''"
  unfolding fits_str_def by (rule conjI, simp, code_simp)+

lemma sample_load: "ws_load reference_proto 5 sample_schema d = Inr (sample_state d)"
proof -
  note fits = fits_payload_def fits_meta_def sample_enum_def sample_outer_def sample_file_def empty_descriptor_def sample_field_def default_meta_def
    fits_vec_def fits_field_descriptor_def fits_enum_descriptor_def
  have "length (encode_decl reference_proto (PEnum sample_enum)) \<le> 200" "length (encode_decl reference_proto (PMessage sample_outer)) \<le> 200"
    "length (encode_meta reference_proto sample_file) \<le> 200"
    by code_simp+
  then have "decode_decl reference_proto 5 (encode_decl reference_proto (PEnum sample_enum)) = Inr (PEnum sample_enum)"
    "decode_decl reference_proto 5 (encode_decl reference_proto (PMessage sample_outer)) = Inr (PMessage sample_outer)"
    "decode_meta reference_proto (encode_meta reference_proto sample_file) = Inr sample_file"
    by (intro rpe.decode_decl_encode rpe.decode_meta_encode(1), simp add: fits, simp)+
  then show ?thesis by (simp add: ws_load_def sample_schema_def sample_state_def insert_payload_def)
qed

lemma sample_ops:
  "apply_ops reference_proto reference_prost (map sample_op ops) s = fold (\<lambda>op r. and_then r (apply_op reference_proto op)) ops (Inr s)"
proof -
  have failed: "fold (\<lambda>op r. and_then r (apply_op reference_proto op)) ops (Inl e) = Inl e" for ops e by (induction ops) simp_all
  show ?thesis
  proof (induction ops arbitrary: s)
    case (Cons op ops)
    then show ?case by (cases "apply_op reference_proto op s") (simp_all add: sample_op_def rpr.decode_encode_op failed)
  qed simp
qed

theorem apply_many_effect_witness:
  "\<exists>effect s0 s. apply_many reference_proto reference_prost 5 sample_schema (map sample_op sample_batch) = Inr effect
    \<and> ws_load reference_proto 5 sample_schema True = Inr s0 \<and> apply_ops reference_proto reference_prost (map sample_op sample_batch) s0 = Inr s
    \<and> (\<forall>n. payload_at s0 n \<noteq> None \<and> payload_at s n = None \<longrightarrow> unreferenced s n)"
proof -
  let ?run = "fold (\<lambda>op r. and_then r (apply_op reference_proto op)) sample_batch (Inr (sample_state True))"
  have ok: "\<not> isl (and_then ?run validate_removed_references)" by code_simp
  then obtain s where s: "?run = Inr s" by (cases ?run) auto
  with ok have "validate_removed_references s = Inr ()" by (cases "validate_removed_references s") auto
  with s obtain effect where e: "apply_many reference_proto reference_prost 5 sample_schema (map sample_op sample_batch) = Inr effect"
    by (simp add: apply_many_def sample_load sample_ops)
  have "bt_ok (so_decls sample_schema)" by (simp add: sample_schema_def)
  from apply_many_effect [OF rpe.proto_enums_axioms this e] e show ?thesis by blast
qed

text \<open>The same holds of the effect of a single operation.\<close>

lemma apply_one_effect:
  assumes "proto_enums pl" "bt_ok (so_decls schema)" "apply_one pl pr stack schema op = Inr effect"
  shows "\<exists>p s0 s. decode_op pr (mu_operation op) = Inr p \<and> ws_load pl stack schema False = Inr s0 \<and> apply_op pl p s0 = Inr s
    \<and> effect = into_effect pl schema s \<and> advances s0 s
    \<and> (fits_state pl stack s \<longrightarrow> (\<exists>t. ws_load pl stack (apply_schema_effect schema effect) False = Inr t \<and> same_schema t s))"
proof -
  obtain p s0 s where s: "decode_op pr (mu_operation op) = Inr p" "ws_load pl stack schema False = Inr s0" "apply_op pl p s0 = Inr s"
    "effect = into_effect pl schema s"
    using assms(3) by (auto simp: apply_one_def result_simps)
  have "advances s0 s" using apply_op_advances ws_load_loads(7) [OF s(2) assms(2)] s(3) by blast
  then show ?thesis using effect_stores_state [OF assms(1,2) s(2)] s by blast
qed

end
