(* ===== verification/Proto_Wellformed.thy ===== *)
theory Proto_Wellformed
  imports Proto_Effect
begin

text \<open>
  Well-formed protobuf schemas, and that every operation keeps them: a declaration carries the name it is stored under, no two fields
  of a message have the same number and none has a reserved one, no two values of an enum and no two methods of a service have
  the same name, the file lists its declarations in an order without repetition, and the indices of public and weak imports
  refer to imports.
\<close>

section \<open>Well-formedness\<close>

definition names_of :: "('a \<Rightarrow> 'b option) \<Rightarrow> 'a list \<Rightarrow> 'b list" where
  "names_of f xs = concat (map (\<lambda>x. case f x of Some y \<Rightarrow> [y] | None \<Rightarrow> []) xs)"

definition message_ok :: "string \<Rightarrow> descriptor \<Rightarrow> bool" where
  "message_ok n m \<longleftrightarrow> dp_name m = Some n \<and> distinct (names_of fd_number (dp_field m))
     \<and> list_all (\<lambda>k. \<not> is_number_reserved m k) (names_of fd_number (dp_field m))"

definition enum_ok :: "string \<Rightarrow> enum_descriptor \<Rightarrow> bool" where
  "enum_ok n e \<longleftrightarrow> ed_name e = Some n \<and> distinct (names_of ev_name (ed_value e))"

definition service_ok :: "string \<Rightarrow> service_descriptor \<Rightarrow> bool" where
  "service_ok n v \<longleftrightarrow> sd_name v = Some n \<and> distinct (names_of md_name (sd_method v))"

definition order_ok :: "string list \<Rightarrow> (string, 'v) btree \<Rightarrow> bool" where
  "order_ok order' m \<longleftrightarrow> distinct order' \<and> set order' = set (bt_keys m)"

definition imports_ok :: "meta_payload \<Rightarrow> bool" where
  "imports_ok m \<longleftrightarrow> list_all (\<lambda>i. 0 \<le> sint i \<and> sint i < int (length (mp_dependency m))) (mp_public_dependency m @ mp_weak_dependency m)"

definition schema_ok :: "working_state \<Rightarrow> bool" where
  "schema_ok s \<longleftrightarrow> list_all (\<lambda>(n, m). message_ok n m) (ws_messages s) \<and> list_all (\<lambda>(n, e). enum_ok n e) (ws_enums s)
     \<and> list_all (\<lambda>(n, v). service_ok n v) (ws_services s) \<and> order_ok (mp_message_order (ws_meta s)) (ws_messages s)
     \<and> order_ok (mp_enum_order (ws_meta s)) (ws_enums s) \<and> order_ok (mp_service_order (ws_meta s)) (ws_services s)
     \<and> imports_ok (ws_meta s)"

section \<open>Lists\<close>

lemma names_of_simps [simp]:
  "names_of f [] = []" "names_of f (x # xs) = (case f x of Some y \<Rightarrow> y # names_of f xs | None \<Rightarrow> names_of f xs)"
  "names_of f (xs @ ys) = names_of f xs @ names_of f ys"
  by (auto simp: names_of_def split: option.splits)

lemma set_names_of: "y \<in> set (names_of f xs) \<longleftrightarrow> (\<exists>x \<in> set xs. f x = Some y)"
  by (induction xs) (auto split: option.splits)

lemma names_of_map: "(\<And>x. f (g x) = f x) \<Longrightarrow> names_of f (map g xs) = names_of f xs"
  by (induction xs) (auto split: option.splits)

lemma update_first_keeps: "(\<And>x. g (f x) = g x) \<Longrightarrow> names_of g (update_first p f xs) = names_of g xs"
  by (induction xs) (auto split: option.splits)

lemma find_split:
  assumes "find p xs = Some x"
  obtains ys zs where "xs = ys @ x # zs" "\<forall>y \<in> set ys. \<not> p y" "p x" "remove_first p xs = ys @ zs" "\<And>f. update_first p f xs = ys @ f x # zs"
proof -
  have "\<exists>ys zs. xs = ys @ x # zs \<and> (\<forall>y \<in> set ys. \<not> p y) \<and> p x" using assms by (auto simp: find_Some_iff)
    (metis append_take_drop_id Cons_nth_drop_Suc in_set_takeD id_take_nth_drop in_set_conv_nth length_take min.absorb4 nth_take)
  then obtain ys zs where xs: "xs = ys @ x # zs" "\<forall>y \<in> set ys. \<not> p y" "p x" by blast
  then have "remove_first p xs = ys @ zs" "update_first p f xs = ys @ f x # zs" for f by (induction ys arbitrary: xs) auto
  with xs that show thesis by blast
qed

lemma distinct_remove_first: "distinct (names_of f xs) \<Longrightarrow> distinct (names_of f (remove_first p xs))"
proof -
  have "set (names_of f (remove_first p xs)) \<subseteq> set (names_of f xs)" for xs by (induction xs) (auto split: option.splits)
  then show "distinct (names_of f xs) \<Longrightarrow> distinct (names_of f (remove_first p xs))"
    by (induction xs) (auto split: option.splits dest: subsetD)
qed

section \<open>Numbers\<close>

text \<open>The range reserved for one number holds no other; for the largest \<open>i32\<close> its end wraps and it holds none at all.\<close>

lemma reserved_singleton: "in_reserved_range k \<lparr>rr_start = Some n, rr_end = Some (n + 1)\<rparr> \<Longrightarrow> k = n"
proof -
  assume "in_reserved_range k \<lparr>rr_start = Some n, rr_end = Some (n + 1)\<rparr>"
  then have k: "sint n \<le> sint k" "sint k < sint (n + 1)" by (simp_all add: in_reserved_range_def)
  have "sint (n + 1) = signed_take_bit 31 (sint n + 1)" by (simp add: sint_word_ariths)
  also have "\<dots> \<le> sint n + 1"
    using signed_take_bit_int_eq_self [of 31 "sint n + 1"] signed_take_bit_int_less_eq [of 31 "sint n + 1"] sint_ge [of n]
    by (cases "sint n + 1 < 2 ^ 31") auto
  finally have "sint (n + 1) \<le> sint n + 1" .
  then have "sint k = sint n" using k by linarith
  then show "k = n" by (rule signed_word_eqI)
qed

section \<open>Declarations\<close>

lemma schema_ok_gets:
  assumes "schema_ok s" "ws_wf s"
  shows "bt_get (ws_messages s) n = Some m \<Longrightarrow> message_ok n m" and "bt_get (ws_enums s) n = Some e \<Longrightarrow> enum_ok n e"
    and "bt_get (ws_services s) n = Some v \<Longrightarrow> service_ok n v"
  using assms by (auto simp: schema_ok_def list_all_iff ws_wf_def dest!: map_of_SomeD)

lemma set_bt_insert_subset: "set (bt_insert n v m) \<subseteq> insert (n, v) (set m)"
  by (induction m) (auto split: if_splits)

lemma list_all_bt_insert: "list_all (\<lambda>(n, v). P n v) m \<Longrightarrow> P n v \<Longrightarrow> list_all (\<lambda>(n, v). P n v) (bt_insert n v m)"
  using set_bt_insert_subset [of n v m] by (fastforce simp: list_all_iff)

lemma list_all_bt_remove: "list_all P m \<Longrightarrow> list_all P (bt_remove n m)"
  by (simp add: list_all_iff bt_remove_def)

lemma set_bt_keys_insert [simp]: "set (bt_keys (bt_insert n v m)) = insert n (set (bt_keys m))"
  using fst_set_bt_insert [of n v m] by (simp add: bt_keys_def)

lemma set_bt_keys_remove [simp]: "set (bt_keys (bt_remove n m)) = set (bt_keys m) - {n}"
  by (auto simp: bt_keys_def bt_remove_def)

lemma in_bt_keys: "n \<in> set (bt_keys m) \<longleftrightarrow> bt_get m n \<noteq> None"
  using bt_get_keys by metis

lemma order_ok_put: "order_ok o' m \<Longrightarrow> bt_get m n \<noteq> None \<Longrightarrow> order_ok o' (bt_insert n v m)"
  using in_bt_keys [of n m] by (auto simp: order_ok_def)

lemma schema_ok_touch [simp]: "schema_ok (touch n s) = schema_ok s" "schema_ok (fold touch ns s) = schema_ok s"
  by (simp_all add: schema_ok_def)

lemma schema_ok_put:
  assumes "schema_ok s"
  shows "bt_get (ws_messages s) n \<noteq> None \<Longrightarrow> message_ok n m \<Longrightarrow> schema_ok (put_message n m s)"
    and "bt_get (ws_enums s) n \<noteq> None \<Longrightarrow> enum_ok n e \<Longrightarrow> schema_ok (put_enum n e s)"
    and "bt_get (ws_services s) n \<noteq> None \<Longrightarrow> service_ok n v \<Longrightarrow> schema_ok (put_service n v s)"
  using assms
  by (simp_all add: put_message_def put_enum_def put_service_def schema_ok_def list_all_bt_insert [where P = message_ok]
      list_all_bt_insert [where P = enum_ok] list_all_bt_insert [where P = service_ok] order_ok_put)

text \<open>A message is well-formed by its name, the numbers of its fields and its reserved ranges.\<close>

lemma message_ok_cong:
  "message_ok n m \<Longrightarrow> dp_name m' = dp_name m \<Longrightarrow> names_of fd_number (dp_field m') = names_of fd_number (dp_field m) \<Longrightarrow>
    dp_reserved_range m' = dp_reserved_range m \<Longrightarrow> message_ok n m'"
  by (simp add: message_ok_def is_number_reserved_def)

section \<open>Fields\<close>

lemma message_ok_add:
  assumes "message_ok a m" "\<not> list_ex (\<lambda>f. fd_number f = Some k) (dp_field m)" "\<not> is_number_reserved m k" "fd_number f = Some k"
    "dp_name m' = dp_name m" "dp_reserved_range m' = dp_reserved_range m"
  shows "message_ok a (dp_set_field (dp_field m @ [f]) m')"
  using assms by (auto simp: message_ok_def is_number_reserved_def list_all_iff list_ex_iff set_names_of)

lemma add_field_ok:
  assumes "schema_ok s" "ws_wf s" "add_field pl a b c k d s = Inr t"
  shows "schema_ok t"
proof -
  obtain m where m: "bt_get (ws_messages s) a = Some m" "\<not> list_ex (\<lambda>f. fd_number f = Some k) (dp_field m)" "\<not> is_number_reserved m k"
    using assms(3) by (auto simp: add_field_def mut_simps)
  have "message_ok a m" using schema_ok_gets [OF assms(1,2)] m by blast
  note added = message_ok_add [OF this m(2,3)]
  show ?thesis
    using assms(3) m(1) schema_ok_put(1) [OF assms(1), of a] added
    by (auto simp: add_field_def mut_simps Let_def case_prod_unfold)
qed

lemma remove_field_ok:
  assumes "schema_ok s" "ws_wf s" "remove_field a b s = Inr t"
  shows "schema_ok t"
proof -
  let ?p = "\<lambda>f. fd_name f = Some b"
  obtain m f where m: "bt_get (ws_messages s) a = Some m" "find ?p (dp_field m) = Some f"
    using assms(3) by (auto simp: remove_field_def mut_simps find_named_def result_simps)
  obtain ys zs where split: "dp_field m = ys @ f # zs" "remove_first ?p (dp_field m) = ys @ zs" using find_split [OF m(2)] by metis
  let ?m1 = "dp_set_field (ys @ zs) m"
  let ?m2 = "case fd_number f of
      Some num \<Rightarrow> dp_set_reserved_range (dp_reserved_range ?m1 @ [\<lparr>rr_start = Some num, rr_end = Some (num + 1)\<rparr>]) ?m1 | None \<Rightarrow> ?m1"
  have t: "\<exists>m3. t = put_message a m3 s \<and> dp_name m3 = dp_name ?m2 \<and> dp_field m3 = dp_field ?m2 \<and> dp_reserved_range m3 = dp_reserved_range ?m2"
    using assms(3) m split by (auto simp: remove_field_def mut_simps find_named_def Let_def split: option.splits)
  have ok: "message_ok a m" using schema_ok_gets [OF assms(1,2)] m by blast
  have m2: "message_ok a ?m2"
  proof (cases "fd_number f")
    case None
    then show ?thesis using ok split by (simp add: message_ok_def is_number_reserved_def)
  next
    case (Some num)
    then have "num \<notin> set (names_of fd_number (ys @ zs))" using ok split by (auto simp: message_ok_def)
    then show ?thesis
      using ok split Some reserved_singleton [of _ num] by (auto simp: message_ok_def is_number_reserved_def list_all_iff)
  qed
  obtain m3 where m3: "t = put_message a m3 s" "dp_name m3 = dp_name ?m2" "dp_field m3 = dp_field ?m2" "dp_reserved_range m3 = dp_reserved_range ?m2"
    using t by blast
  then have "message_ok a m3" by (intro message_ok_cong [OF m2]) (simp_all only:)
  then show ?thesis using schema_ok_put(1) [OF assms(1)] m m3(1) by simp
qed

lemma change_field_ok:
  assumes "schema_ok s" "ws_wf s" "\<And>x. fd_number (f x) = fd_number x" "change_field a b f s = Inr t"
  shows "schema_ok t"
proof -
  obtain m where m: "bt_get (ws_messages s) a = Some m" "t = put_message a (dp_set_field (update_first (\<lambda>f. fd_name f = Some b) f (dp_field m)) m) s"
    using assms(4) by (auto simp: change_field_def mut_simps)
  then have "message_ok a (dp_set_field (update_first (\<lambda>f. fd_name f = Some b) f (dp_field m)) m)"
    using schema_ok_gets(1) [OF assms(1,2) m(1)] by (rule_tac message_ok_cong) (auto simp: update_first_keeps assms(3))
  then show ?thesis using schema_ok_put(1) [OF assms(1)] m by simp
qed

lemma take_in_order_parts:
  assumes "\<And>n f. by_name n = Some f \<Longrightarrow> f \<in> F \<and> case_option [] id (fd_name f) = n"
    and "\<And>f g k. f \<in> F \<Longrightarrow> g \<in> F \<Longrightarrow> fd_number f = Some k \<Longrightarrow> fd_number g = Some k \<Longrightarrow> f = g"
  shows "set (take_in_order by_name ns) \<subseteq> ran by_name \<and> distinct (names_of fd_number (take_in_order by_name ns))"
  using assms(1)
proof (induction ns arbitrary: by_name)
  case (Cons n ns)
  show ?case
  proof (cases "by_name n")
    case None
    then show ?thesis using Cons by simp
  next
    case (Some f)
    have rest: "f \<in> F \<and> case_option [] id (fd_name f) = i" if "(by_name(n := None)) i = Some f" for i f
      using Cons.prems [of i f] that by (simp split: if_splits)
    have IH: "set (take_in_order (by_name(n := None)) ns) \<subseteq> ran (by_name(n := None))"
      "distinct (names_of fd_number (take_in_order (by_name(n := None)) ns))"
      using Cons.IH [OF rest] by blast+
    have "fd_number f \<noteq> Some k" if mem: "k \<in> set (names_of fd_number (take_in_order (by_name(n := None)) ns))" for k
    proof
      assume k: "fd_number f = Some k"
      obtain g where "fd_number g = Some k" "g \<in> ran (by_name(n := None))" using mem IH(1) by (auto simp: set_names_of)
      then obtain i where g: "fd_number g = Some k" "by_name i = Some g" "i \<noteq> n" by (auto simp: ran_def split: if_splits)
      then have "f = g" using assms(2) [of f g k] Cons.prems [of n f] Cons.prems [of i g] Some k by blast
      then show False using Cons.prems [of n f] Cons.prems [of i g] Some g by auto
    qed
    then show ?thesis using IH Some by (auto simp: ran_def split: option.splits if_splits)
  qed
qed simp

lemma distinct_names_unique:
  "distinct (names_of f xs) \<Longrightarrow> x \<in> set xs \<Longrightarrow> y \<in> set xs \<Longrightarrow> f x = Some k \<Longrightarrow> f y = Some k \<Longrightarrow> x = y"
proof (induction xs)
  case (Cons z xs)
  then show ?case by (cases "f z") (auto simp: set_names_of split: option.splits)
qed simp

lemma reorder_fields_ok:
  assumes "schema_ok s" "ws_wf s" "reorder_fields a ns s = Inr t"
  shows "schema_ok t"
proof -
  obtain m where m: "bt_get (ws_messages s) a = Some m" using assms(3) by (auto simp: reorder_fields_def mut_simps)
  define by_name where "by_name = map_of (rev (map (\<lambda>f. (case_option [] id (fd_name f), f)) (dp_field m)))"
  have ok: "message_ok a m" using schema_ok_gets [OF assms(1,2)] m by blast
  have by_name: "f \<in> set (dp_field m) \<and> case_option [] id (fd_name f) = n" if "by_name n = Some f" for n f
    using map_of_SomeD [OF that [unfolded by_name_def]] by auto
  have unique: "f = g" if "f \<in> set (dp_field m)" "g \<in> set (dp_field m)" "fd_number f = Some k" "fd_number g = Some k" for f g k
    using distinct_names_unique [of fd_number "dp_field m"] ok that by (auto simp: message_ok_def)
  note parts = take_in_order_parts [where F = "set (dp_field m)" and by_name = by_name and ns = ns, OF by_name unique]
  moreover have "ran by_name \<subseteq> set (dp_field m)" using by_name by (auto simp: ran_def)
  ultimately have "message_ok a (dp_set_field (take_in_order by_name ns) m)"
    using ok by (fastforce simp: message_ok_def is_number_reserved_def list_all_iff set_names_of)
  then show ?thesis
    using assms(3) schema_ok_put(1) [OF assms(1)] m by (auto simp: reorder_fields_def mut_simps Let_def by_name_def)
qed

section \<open>Creation, deletion and renaming of declarations\<close>

lemma order_ok_create: "order_ok o' m \<Longrightarrow> bt_get m n = None \<Longrightarrow> order_ok (o' @ [n]) (bt_insert n v m)"
  using in_bt_keys [of n m] by (auto simp: order_ok_def)

lemma order_ok_delete: "order_ok o' m \<Longrightarrow> order_ok (removeAll n o') (bt_remove n m)"
  by (auto simp: order_ok_def distinct_removeAll)

lemma order_ok_rename:
  assumes "order_ok o' m" "bt_get m a \<noteq> None" "a = b \<or> bt_get m b = None"
  shows "order_ok (replace_name a b o') (bt_insert b v (bt_remove a m))"
proof -
  have mem: "a \<in> set o'" "a = b \<or> b \<notin> set o'" "distinct o'" using assms in_bt_keys [of _ m] by (auto simp: order_ok_def)
  then have "distinct (replace_name a b o')" by (auto simp: replace_name_def distinct_map inj_on_def)
  moreover have "set (replace_name a b o') = insert b (set o' - {a})" using mem by (auto simp: replace_name_def)
  ultimately show ?thesis using assms(1) by (simp add: order_ok_def)
qed

lemma order_ok_rewrite: "order_ok o' (fst (rewrite_all f skip m)) = order_ok o' m"
  by (simp add: order_ok_def rewrite_all_def bt_keys_def comp_def case_prod_unfold)

lemma list_all_rewrite:
  "list_all (\<lambda>(n, v). P n v) m \<Longrightarrow> (\<And>n v. P n v \<Longrightarrow> P n (fst (f v))) \<Longrightarrow> list_all (\<lambda>(n, v). P n v) (fst (rewrite_all f skip m))"
  by (auto simp: rewrite_all_def list_all_iff)

lemma create_ops_ok:
  assumes "schema_ok s"
  shows "create_message n s = Inr t \<Longrightarrow> schema_ok t" and "create_enum n s = Inr t \<Longrightarrow> schema_ok t" and "add_service n s = Inr t \<Longrightarrow> schema_ok t"
  using assms
  by (auto simp: create_message_def create_enum_def add_service_def mut_simps declared_iff payload_at_None Let_def schema_ok_def order_ok_create
      message_ok_def enum_ok_def service_ok_def empty_descriptor_def imports_ok_def intro!: list_all_bt_insert)

lemma delete_ops_ok:
  assumes "schema_ok s"
  shows "delete_message n s = Inr t \<Longrightarrow> schema_ok t" and "delete_enum n s = Inr t \<Longrightarrow> schema_ok t" and "remove_service n s = Inr t \<Longrightarrow> schema_ok t"
  using assms
  by (auto simp: delete_message_def delete_enum_def remove_service_def mut_simps Let_def schema_ok_def order_ok_delete list_all_bt_remove
      imports_ok_def)

lemma renamed_message_ok:
  "message_ok n m \<Longrightarrow> message_ok n (fst (rename_refs_in_message a b m))" "message_ok n m \<Longrightarrow> message_ok k (dp_set_name (Some k) m)"
  "message_ok n m \<Longrightarrow> message_ok n (fst (rename_enum_value_refs_in_message e v w m))"
proof -
  have "dp_name (fst (rename_refs_in_message a b m)) = dp_name m"
    "names_of fd_number (dp_field (fst (rename_refs_in_message a b m))) = names_of fd_number (dp_field m)"
    "dp_reserved_range (fst (rename_refs_in_message a b m)) = dp_reserved_range m"
    by (cases m; simp add: Let_def names_of_map)+
  then show "message_ok n m \<Longrightarrow> message_ok n (fst (rename_refs_in_message a b m))" using message_ok_cong by metis
  have "fd_number (fst (rename_enum_value_ref_in_field e v w f)) = fd_number f" for f by (simp add: rename_enum_value_ref_in_field_def)
  then have "dp_name (fst (rename_enum_value_refs_in_message e v w m)) = dp_name m"
    "names_of fd_number (dp_field (fst (rename_enum_value_refs_in_message e v w m))) = names_of fd_number (dp_field m)"
    "dp_reserved_range (fst (rename_enum_value_refs_in_message e v w m)) = dp_reserved_range m"
    by (cases m; simp add: Let_def names_of_map)+
  then show "message_ok n m \<Longrightarrow> message_ok n (fst (rename_enum_value_refs_in_message e v w m))" using message_ok_cong by metis
  show "message_ok n m \<Longrightarrow> message_ok k (dp_set_name (Some k) m)" by (simp add: message_ok_def is_number_reserved_def)
qed

lemma renamed_service_ok: "service_ok n v \<Longrightarrow> service_ok n (fst (rename_refs_in_service a b v))"
proof -
  have "md_name (fst (rename_refs_in_method a b m)) = md_name m" for m by (simp add: rename_refs_in_method_def case_prod_unfold Let_def)
  then show "service_ok n v \<Longrightarrow> service_ok n (fst (rename_refs_in_service a b v))"
    by (simp add: service_ok_def rename_refs_in_service_def Let_def names_of_map)
qed

lemma rename_message_ok:
  assumes "schema_ok s" "ws_wf s" "rename_message a b s = Inr t"
  shows "schema_ok t"
proof -
  obtain m0 where m0: "bt_get (ws_messages s) a = Some m0" "a = b \<or> payload_at s b = None"
    using assms(3) by (auto simp: rename_message_def mut_simps declared_iff)
  then have b: "a = b \<or> bt_get (ws_messages s) b = None" by (auto simp: payload_at_None)
  let ?m = "fst (rename_refs_in_message a b (dp_set_name (Some b) m0))"
  let ?ms = "bt_insert b ?m (bt_remove a (ws_messages s))"
  have "message_ok b ?m" using schema_ok_gets(1) [OF assms(1,2) m0(1)] renamed_message_ok by blast
  then have ms: "list_all (\<lambda>(n, m). message_ok n m) ?ms"
    using assms(1) by (intro list_all_bt_insert list_all_bt_remove) (simp_all add: schema_ok_def)
  have order: "order_ok (replace_name a b (mp_message_order (ws_meta s))) ?ms"
    by (rule order_ok_rename) (use assms(1) m0(1) b in \<open>simp_all add: schema_ok_def\<close>)
  show ?thesis
    using assms(1,3) m0 ms order
    by (auto simp: rename_message_def mut_simps Let_def case_prod_unfold schema_ok_def order_ok_rewrite imports_ok_def
        intro!: list_all_rewrite [unfolded case_prod_unfold] renamed_message_ok renamed_service_ok)
qed

lemma rename_service_ok:
  assumes "schema_ok s" "ws_wf s" "rename_service a b s = Inr t"
  shows "schema_ok t"
proof -
  obtain v where v: "bt_get (ws_services s) a = Some v" "a = b \<or> payload_at s b = None"
    using assms(3) by (auto simp: rename_service_def mut_simps declared_iff)
  then have b: "a = b \<or> bt_get (ws_services s) b = None" by (auto simp: payload_at_None)
  have "service_ok b (v\<lparr>sd_name := Some b\<rparr>)" using schema_ok_gets(3) [OF assms(1,2) v(1)] by (simp add: service_ok_def)
  then show ?thesis
    using assms(1,3) v b
    by (auto simp: rename_service_def mut_simps Let_def schema_ok_def imports_ok_def order_ok_rename
        intro!: list_all_bt_insert list_all_bt_remove)
qed

section \<open>Enum values and methods\<close>

lemma distinct_names_add: "distinct (names_of f xs) \<Longrightarrow> \<not> list_ex (\<lambda>x. f x = Some n) xs \<Longrightarrow> f y = Some n \<Longrightarrow> distinct (names_of f (xs @ [y]))"
  by (auto simp: list_ex_iff set_names_of)

lemma distinct_names_rename:
  assumes "distinct (names_of f xs)" "\<not> list_ex (\<lambda>x. f x = Some n) xs" "find p xs \<noteq> None" "\<And>x. f (g x) = Some n"
  shows "distinct (names_of f (update_first p g xs))"
proof -
  obtain x where "find p xs = Some x" using assms(3) by blast
  then obtain ys zs where xs: "xs = ys @ x # zs" "\<And>g. update_first p g xs = ys @ g x # zs" using find_split [of p xs] by metis
  have "n \<notin> set (names_of f xs)" using assms(2) by (auto simp: list_ex_iff set_names_of)
  then show ?thesis using assms(1,4) xs by (auto split: option.splits)
qed

lemma value_ops_ok:
  assumes "schema_ok s" "ws_wf s"
  shows "add_enum_value a b k s = Inr t \<Longrightarrow> schema_ok t" and "remove_enum_value a b s = Inr t \<Longrightarrow> schema_ok t"
proof -
  show "schema_ok t" if t: "add_enum_value a b k s = Inr t"
  proof -
    obtain e where e: "bt_get (ws_enums s) a = Some e" "\<not> list_ex (\<lambda>v. ev_name v = Some b) (ed_value e)"
      "t = put_enum a (e\<lparr>ed_value := ed_value e @ [\<lparr>ev_name = Some b, ev_number = Some k, ev_options = None\<rparr>]\<rparr>) s"
      using t by (auto simp: add_enum_value_def mut_simps Let_def)
    have "enum_ok a (e\<lparr>ed_value := ed_value e @ [\<lparr>ev_name = Some b, ev_number = Some k, ev_options = None\<rparr>]\<rparr>)"
      using schema_ok_gets(2) [OF assms e(1)] distinct_names_add [OF _ e(2)] by (simp add: enum_ok_def del: names_of_simps)
    then show ?thesis using schema_ok_put(2) [OF assms(1)] e by simp
  qed
  show "schema_ok t" if t: "remove_enum_value a b s = Inr t"
  proof -
    obtain e e' r where e: "bt_get (ws_enums s) a = Some e" "t = put_enum a e' (s\<lparr>ws_removed_enum_values := r\<rparr>)" "ed_name e' = ed_name e"
      "ed_value e' = remove_first (\<lambda>v. ev_name v = Some b) (ed_value e)"
      using t by (auto simp: remove_enum_value_def mut_simps Let_def split: option.splits)
    have "schema_ok (s\<lparr>ws_removed_enum_values := r\<rparr>)" using assms(1) by (simp add: schema_ok_def)
    then show ?thesis
      using schema_ok_gets(2) [OF assms e(1)] schema_ok_put(2) [of "s\<lparr>ws_removed_enum_values := r\<rparr>" a e'] e
      by (simp add: enum_ok_def distinct_remove_first)
  qed
qed

lemma rename_enum_value_ok:
  assumes "schema_ok s" "ws_wf s" "rename_enum_value a b c s = Inr t"
  shows "schema_ok t"
proof -
  obtain e v where e: "bt_get (ws_enums s) a = Some e" "\<not> list_ex (\<lambda>v. ev_name v = Some c) (ed_value e)"
    "find (\<lambda>v. ev_name v = Some b) (ed_value e) = Some v"
    using assms(3) by (auto simp: rename_enum_value_def mut_simps find_named_def result_simps)
  let ?e = "e\<lparr>ed_value := update_first (\<lambda>v. ev_name v = Some b) (\<lambda>v. v\<lparr>ev_name := Some c\<rparr>) (ed_value e)\<rparr>"
  have "enum_ok a ?e" using schema_ok_gets(2) [OF assms(1,2) e(1)] distinct_names_rename [OF _ e(2)] e(3) by (simp add: enum_ok_def)
  then show ?thesis
    using assms(1,3) e
    by (auto simp: rename_enum_value_def mut_simps Let_def case_prod_unfold schema_ok_def order_ok_rewrite order_ok_put imports_ok_def
        intro!: list_all_rewrite [unfolded case_prod_unfold] list_all_bt_insert [unfolded case_prod_unfold] renamed_message_ok)
qed

lemma rpc_ops_ok:
  assumes "schema_ok s" "ws_wf s"
  shows "add_rpc a b c d x y s = Inr t \<Longrightarrow> schema_ok t" and "remove_rpc a b s = Inr t \<Longrightarrow> schema_ok t"
    and "rename_rpc a b c s = Inr t \<Longrightarrow> schema_ok t" and "change_rpc_type a b c d s = Inr t \<Longrightarrow> schema_ok t"
  using schema_ok_gets(3) [OF assms, of a] schema_ok_put(3) [OF assms(1), of a]
  by (auto simp: add_rpc_def remove_rpc_def rename_rpc_def change_rpc_type_def mut_simps service_ok_def distinct_names_add distinct_remove_first
      update_first_keeps find_named_def ok_or_Inr distinct_names_rename simp del: names_of_simps(3))

section \<open>Imports\<close>

lemma position_of_Some: "position_of a xs = Some i \<Longrightarrow> i < length xs \<and> xs ! i = a"
  by (induction xs arbitrary: i) (auto split: if_splits)

lemma length_remove_at: "i < length xs \<Longrightarrow> length (remove_at i xs) = length xs - 1"
  by (simp add: remove_at_def)

text \<open>An index after the removed import is decreased, and the index of the removed import is dropped.\<close>

lemma reindex_ok:
  assumes "list_all (\<lambda>i. 0 \<le> sint i \<and> sint i < int n) is" "pos < n" "n < 2 ^ 31"
  shows "list_all (\<lambda>i. 0 \<le> sint i \<and> sint i < int (n - 1)) (reindex pos is)"
proof -
  have pos: "sint (word_of_nat pos :: i32) = int pos"
    using assms(2,3) by (simp add: signed_of_nat signed_take_bit_int_eq_self)
  have "0 \<le> sint (if sint i > sint (word_of_nat pos :: i32) then i - 1 else i)
      \<and> sint (if sint i > sint (word_of_nat pos :: i32) then i - 1 else i) < int (n - 1)"
    if "i \<in> set is" "i \<noteq> word_of_nat pos" for i
  proof -
    have i: "0 \<le> sint i" "sint i < int n" using assms(1) that(1) by (auto simp: list_all_iff)
    have ne: "sint i \<noteq> int pos" using that(2) pos by (metis signed_word_eqI)
    have "sint (i - 1) = sint i - 1" if "sint i > int pos"
      using that i assms(3) by (simp add: sint_word_ariths signed_take_bit_int_eq_self)
    then show ?thesis using i ne assms(2) pos by auto
  qed
  then show ?thesis unfolding reindex_def list_all_iff set_map set_filter by blast
qed

lemma update_import_ok:
  assumes "schema_ok s" "length (mp_dependency (ws_meta s)) < 2 ^ 31" "update_import a b c s = Inr t"
  shows "schema_ok t"
proof -
  let ?m = "ws_meta s"
  have im: "list_all (\<lambda>i. 0 \<le> sint i \<and> sint i < int (length (mp_dependency ?m))) (mp_public_dependency ?m)"
    "list_all (\<lambda>i. 0 \<le> sint i \<and> sint i < int (length (mp_dependency ?m))) (mp_weak_dependency ?m)"
    using assms(1) by (simp_all add: schema_ok_def imports_ok_def)
  have rest: "schema_ok (s\<lparr>ws_meta := m, ws_meta_dirty := True\<rparr>)"
    if "imports_ok m" "mp_message_order m = mp_message_order ?m" "mp_enum_order m = mp_enum_order ?m" "mp_service_order m = mp_service_order ?m"
    for m
    using that assms(1) by (simp add: schema_ok_def)
  have more: "list_all (\<lambda>i. 0 \<le> sint i \<and> sint i < 1 + int k) is" if "list_all (\<lambda>i. 0 \<le> sint i \<and> sint i < int k) is" for k "is"
    using that by (auto simp: list_all_iff)
  show ?thesis
    using assms(3) im reindex_ok [OF im(1) _ assms(2)] reindex_ok [OF im(2) _ assms(2)]
    by (auto simp: update_import_def Let_def imports_ok_def length_remove_at more intro!: rest dest!: position_of_Some
        split: bool.splits option.splits)
qed

section \<open>All operations\<close>

lemma apply_op_ok:
  assumes "schema_ok s" "ws_wf s" "length (mp_dependency (ws_meta s)) < 2 ^ 31" "apply_op pl op s = Inr t"
  shows "schema_ok t"
proof -
  have "rename_field pl a b c s = Inr t \<Longrightarrow> schema_ok t" "change_field_type pl a b c s = Inr t \<Longrightarrow> schema_ok t"
    "change_cardinality a b c s = Inr t \<Longrightarrow> schema_ok t" for a b c
    by (auto simp: rename_field_def change_field_type_def change_cardinality_def mut_simps Let_def case_prod_unfold
        dest!: change_field_ok [OF assms(1,2), rotated])
  then show ?thesis
    using assms(4) add_field_ok [OF assms(1,2)] remove_field_ok [OF assms(1,2)] reorder_fields_ok [OF assms(1,2)] create_ops_ok [OF assms(1)]
      delete_ops_ok [OF assms(1)] value_ops_ok [OF assms(1,2)] rename_enum_value_ok [OF assms(1,2)] rename_message_ok [OF assms(1,2)]
      rename_service_ok [OF assms(1,2)] rpc_ops_ok [OF assms(1,2)] update_import_ok [OF assms(1,3)]
    by (cases op) simp_all
qed

lemma dependency_grows:
  assumes "apply_op pl op s = Inr t"
  shows "length (mp_dependency (ws_meta t)) \<le> Suc (length (mp_dependency (ws_meta s)))"
proof (cases op)
  case (UpdateImport a b c)
  then show ?thesis
    using assms by (auto simp: update_import_def Let_def length_remove_at dest!: position_of_Some split: bool.splits option.splits)
qed (use assms in \<open>auto simp: add_field_def remove_field_def rename_field_def change_field_type_def change_field_def change_cardinality_def
      reorder_fields_def create_message_def rename_message_def delete_message_def create_enum_def delete_enum_def add_enum_value_def
      remove_enum_value_def rename_enum_value_def add_service_def remove_service_def rename_service_def add_rpc_def remove_rpc_def
      rename_rpc_def change_rpc_type_def put_message_def put_enum_def put_service_def mut_simps Let_def case_prod_unfold\<close>)

text \<open>
  C38: Operations keep a protobuf schema well-formed.  If a schema is loaded whose declarations carry the names they are stored under,
  whose messages have distinct field numbers outside their reserved ranges, whose enums and services have distinct value and method
  names, whose file lists each declaration once and whose public and weak imports exist, then so it is after every accepted
  sequence of operations, short of \<open>2^31\<close> imports, and every name is declared at most once.
\<close>

theorem apply_ops_well_formed:
  assumes "ws_load pl stack schema d = Inr s0" "bt_ok (so_decls schema)" "schema_ok s0"
    and "length (mp_dependency (ws_meta s0)) + length ops < 2 ^ 31" "apply_ops pl pr ops s0 = Inr s"
  shows "schema_ok s \<and> maps_ok s"
proof -
  have "schema_ok s \<and> ws_wf s"
    using assms(3-5) ws_load_loads(7) [OF assms(1,2)]
  proof (induction ops arbitrary: s0)
    case (Cons op ops)
    then obtain p u where u: "apply_op pl p s0 = Inr u" "apply_ops pl pr ops u = Inr s" by (auto simp: mut_simps)
    have "schema_ok u" using apply_op_ok [OF _ _ _ u(1)] Cons.prems by simp
    moreover have "ws_wf u" using apply_op_advances [OF _ u(1)] Cons.prems by (simp add: advances_def)
    moreover have "length (mp_dependency (ws_meta u)) + length ops < 2 ^ 31" using dependency_grows [OF u(1)] Cons.prems by simp
    ultimately show ?case using Cons.IH u(2) by blast
  qed simp
  then show ?thesis by (simp add: ws_wf_def maps_ok_def)
qed

theorem apply_ops_well_formed_witness:
  "\<exists>s. ws_load reference_proto 5 sample_schema True = Inr (sample_state True) \<and> schema_ok (sample_state True)
    \<and> apply_ops reference_proto reference_prost (map sample_op sample_batch) (sample_state True) = Inr s \<and> schema_ok s"
proof -
  have ok: "\<not> isl (apply_ops reference_proto reference_prost (map sample_op sample_batch) (sample_state True))"
    unfolding sample_ops by code_simp
  then obtain s where s: "apply_ops reference_proto reference_prost (map sample_op sample_batch) (sample_state True) = Inr s"
    by (cases "apply_ops reference_proto reference_prost (map sample_op sample_batch) (sample_state True)") auto
  have "schema_ok (sample_state True)" by code_simp
  moreover have "bt_ok (so_decls sample_schema)" by (simp add: sample_schema_def)
  moreover have "length (mp_dependency (ws_meta (sample_state True))) + length (map sample_op sample_batch) < 2 ^ 31"
    by (simp add: sample_state_def sample_file_def default_meta_def sample_batch_def)
  ultimately show ?thesis using apply_ops_well_formed [OF sample_load _ _ _ s] s sample_load by blast
qed

end
