(* ===== verification/Proto_Compat.thy ===== *)
theory Proto_Compat
  imports Proto_Wellformed
begin

text \<open>
  Compatibility of two versions of a protobuf declaration (\<open>compat.rs\<close>), and the gate in front of protected bookmarks
  (\<open>mutation/compat.rs\<close>).  The order in which a \<open>HashMap\<close> is walked is unspecified; the model walks the keys in the order of their
  first insertion, and the statements are about the presence of violations and not their order.  The arrow in the messages is
  written \<open>->\<close>.
\<close>

section \<open>Hash maps\<close>

definition hash_of :: "('k \<times> 'v) list \<Rightarrow> ('k \<rightharpoonup> 'v)" where
  "hash_of kvs = map_of (rev kvs)"

definition hash_entries :: "('k \<times> 'v) list \<Rightarrow> ('k \<times> 'v) list" where
  "hash_entries kvs = map (\<lambda>k. (k, the (hash_of kvs k))) (remdups (map fst kvs))"

definition keyed :: "('a \<Rightarrow> 'k option) \<Rightarrow> 'a list \<Rightarrow> ('k \<times> 'a) list" where
  "keyed key xs = concat (map (\<lambda>x. case key x of Some k \<Rightarrow> [(k, x)] | None \<Rightarrow> []) xs)"

section \<open>Declarations\<close>

fun direction_text :: "compatibility_direction \<Rightarrow> string" where
  "direction_text Backward = ''Backward''"
| "direction_text Forward = ''Forward''"
| "direction_text Full = ''Full''"
| "direction_text Disabled = ''Disabled''"

fun label_text :: "field_label option \<Rightarrow> string" where
  "label_text None = ''None''"
| "label_text (Some LOptional) = ''Some(Optional)''"
| "label_text (Some LRequired) = ''Some(Required)''"
| "label_text (Some LRepeated) = ''Some(Repeated)''"

definition type_name_of :: "proto_lib \<Rightarrow> field_descriptor \<Rightarrow> string" where
  "type_name_of pl f =
     (let named = case_option [] id (fd_type_name f) in
      case fd_type f of
        Some t \<Rightarrow> if t \<in> {FtMessage, FtEnum, FtGroup} then last_segment named else pl_type_name pl t
      | None \<Rightarrow> named)"

definition compat_violation :: "string \<Rightarrow> string option \<Rightarrow> string \<Rightarrow> string list \<Rightarrow> violation" where
  "compat_violation decl field template values =
     \<lparr>cv_declaration_name = decl, cv_field_name = field, cv_message = Msg template values\<rparr>"

definition type_violations ::
    "proto_lib \<Rightarrow> string \<Rightarrow> compatibility_direction \<Rightarrow> i32 \<Rightarrow> field_descriptor \<Rightarrow> field_descriptor \<Rightarrow> violation list" where
  "type_violations pl decl dir num of' nf =
     (let from = type_name_of pl of'; to = type_name_of pl nf; n = show_i64 (sint num) in
      if from = to then []
      else case classify_type_change_typed pl from (fd_type of') to (fd_type nf) of
        FullyCompat \<Rightarrow> []
      | BackwardOnly \<Rightarrow>
          if dir \<in> {Forward, Full}
          then [compat_violation decl (fd_name nf) ''field {} type '{}'->'{}' is BACKWARD-only, not {}'' [n, from, to, direction_text dir]]
          else []
      | Breaking \<Rightarrow> [compat_violation decl (fd_name nf) ''field {} type '{}'->'{}' is breaking'' [n, from, to]])"

definition label_violations :: "string \<Rightarrow> i32 \<Rightarrow> field_descriptor \<Rightarrow> field_descriptor \<Rightarrow> violation list" where
  "label_violations decl num of' nf =
     (if fd_label of' \<noteq> fd_label nf \<or> fd_proto3_optional of' \<noteq> fd_proto3_optional nf
      then [compat_violation decl (fd_name nf) ''field {} cardinality changed ({}->{}): breaking''
        [show_i64 (sint num), label_text (fd_label of'), label_text (fd_label nf)]]
      else [])"

definition check_message :: "proto_lib \<Rightarrow> descriptor \<Rightarrow> descriptor \<Rightarrow> compatibility_direction \<Rightarrow> violation list" where
  "check_message pl old new dir =
     (let decl = case_option [] id (dp_name old);
          old_by_num = keyed fd_number (dp_field old);
          new_by_num = keyed fd_number (dp_field new)
      in concat (map (\<lambda>(num, f).
             if hash_of new_by_num num = None \<and> dir \<in> {Forward, Full}
             then [compat_violation decl (fd_name f) ''field number {} removed: breaks {} compatibility'' [show_i64 (sint num), direction_text dir]]
             else []) (hash_entries old_by_num))
         @ concat (map (\<lambda>(num, nf).
             case hash_of old_by_num num of
               None \<Rightarrow> []
             | Some of' \<Rightarrow> type_violations pl decl dir num of' nf @ label_violations decl num of' nf) (hash_entries new_by_num)))"

definition check_enum :: "enum_descriptor \<Rightarrow> enum_descriptor \<Rightarrow> compatibility_direction \<Rightarrow> violation list" where
  "check_enum old new dir =
     (let decl = case_option [] id (ed_name old);
          old_nums = keyed ev_number (ed_value old);
          new_nums = keyed ev_number (ed_value new);
          said = (\<lambda>template (num, v).
            [compat_violation decl None template [case_option [] id (ev_name v), show_i64 (sint num), direction_text dir]])
      in concat (map (\<lambda>(num, v). if hash_of new_nums num = None \<and> dir \<in> {Backward, Full}
             then said ''enum value '{}' ({}) removed: breaks {}'' (num, v) else []) (hash_entries old_nums))
         @ concat (map (\<lambda>(num, v). if hash_of old_nums num = None \<and> dir \<in> {Forward, Full}
             then said ''enum value '{}' ({}) added: breaks {}'' (num, v) else []) (hash_entries new_nums)))"

definition streaming :: "method_descriptor \<Rightarrow> bool \<times> bool" where
  "streaming m = (case_option False id (md_client_streaming m), case_option False id (md_server_streaming m))"

definition check_service :: "service_descriptor \<Rightarrow> service_descriptor \<Rightarrow> compatibility_direction \<Rightarrow> violation list" where
  "check_service old new dir =
     (let decl = case_option [] id (sd_name old);
          old_rpcs = keyed md_name (sd_method old);
          new_rpcs = keyed md_name (sd_method new)
      in concat (map (\<lambda>(name, _). if hash_of new_rpcs name = None \<and> dir \<in> {Backward, Full}
             then [compat_violation decl None ''RPC '{}' removed: breaks {}'' [name, direction_text dir]] else []) (hash_entries old_rpcs))
         @ concat (map (\<lambda>(name, _). if hash_of old_rpcs name = None \<and> dir \<in> {Forward, Full}
             then [compat_violation decl None ''RPC '{}' added: breaks {}'' [name, direction_text dir]] else []) (hash_entries new_rpcs))
         @ concat (map (\<lambda>(name, nm).
             case hash_of old_rpcs name of
               None \<Rightarrow> []
             | Some om \<Rightarrow>
                 (if md_input_type om \<noteq> md_input_type nm \<or> md_output_type om \<noteq> md_output_type nm
                  then [compat_violation decl None ''RPC '{}' request/response type changed: breaking'' [name]] else [])
                 @ (if streaming om \<noteq> streaming nm
                    then [compat_violation decl None ''RPC '{}' streaming mode changed: breaking'' [name]] else [])) (hash_entries new_rpcs)))"

fun decl_name :: "decl_payload \<Rightarrow> string" where
  "decl_name (PMessage m) = case_option [] id (dp_name m)"
| "decl_name (PEnum e) = case_option [] id (ed_name e)"
| "decl_name (PService v) = case_option [] id (sd_name v)"

fun kind_str :: "decl_payload \<Rightarrow> string" where
  "kind_str (PMessage m) = ''message''"
| "kind_str (PEnum e) = ''enum''"
| "kind_str (PService v) = ''service''"

fun check_payloads :: "proto_lib \<Rightarrow> decl_payload \<Rightarrow> decl_payload \<Rightarrow> compatibility_direction \<Rightarrow> violation list" where
  "check_payloads pl (PMessage o') (PMessage n) dir = check_message pl o' n dir"
| "check_payloads pl (PEnum o') (PEnum n) dir = check_enum o' n dir"
| "check_payloads pl (PService o') (PService n) dir = check_service o' n dir"
| "check_payloads pl o' n dir = [compat_violation (decl_name n) None ''declaration kind changed from {} to {} (always breaking)''
     [kind_str o', kind_str n]]"

definition check_compat :: "proto_lib \<Rightarrow> nat \<Rightarrow> bytes \<Rightarrow> bytes \<Rightarrow> compatibility_rules \<Rightarrow> violation list + unit" where
  "check_compat pl stack old new rules =
     (if cr_disabled rules \<or> cr_direction rules = Disabled then Inr ()
      else
        and_then (map_err (\<lambda>e. [compat_violation [] None ''old blob malformed: {}'' [blob_error_text e]]) (decode_decl pl stack old)) (\<lambda>old_p.
        and_then (map_err (\<lambda>e. [compat_violation [] None ''new blob malformed: {}'' [blob_error_text e]]) (decode_decl pl stack new)) (\<lambda>new_p.
        let violations = check_payloads pl old_p new_p (cr_direction rules) in
        if violations = [] then Inr () else Inl violations)))"

section \<open>The gate\<close>

fun upsert_violations ::
    "(bytes \<Rightarrow> bytes \<Rightarrow> compatibility_rules \<Rightarrow> violation list + unit) \<Rightarrow> compatibility_rules \<Rightarrow> schema_objects \<Rightarrow>
     (string \<times> bytes) list \<Rightarrow> violation list" where
  "upsert_violations check rules old [] = []"
| "upsert_violations check rules old ((name, new_blob) # upserts) =
     (case bt_get (so_decls old) name of
        None \<Rightarrow> []
      | Some old_blob \<Rightarrow> (case check old_blob new_blob rules of Inl vs \<Rightarrow> vs | Inr _ \<Rightarrow> []))
     @ upsert_violations check rules old upserts"

definition gate ::
    "(bytes \<Rightarrow> bytes \<Rightarrow> compatibility_rules \<Rightarrow> violation list + unit) \<Rightarrow> compatibility_rules \<Rightarrow> schema_objects \<Rightarrow> mutation_effect \<Rightarrow>
     core_error + unit" where
  "gate check rules old effect =
     (if cr_disabled rules then Inr ()
      else
        let violations = upsert_violations check rules old (me_upserts effect)
          @ map (\<lambda>name. compat_violation name None ''top-level declaration removed'' []) (me_removes effect)
        in if violations = [] then Inr () else Inl (CIncompatible violations))"

end
