(* ===== verification/Proto_Gate.thy ===== *)
theory Proto_Gate
  imports Proto_Compat
begin

text \<open>
  What the compatibility check decides, and that the operations which only add to a protobuf schema pass the gate of a bookmark
  that is protected in the backward direction.
\<close>

section \<open>Hash maps\<close>

lemma map_fst_keyed: "map fst (keyed key xs) = names_of key xs"
  by (induction xs) (auto simp: keyed_def names_of_def split: option.splits)

lemma set_keyed: "(k, x) \<in> set (keyed key xs) \<longleftrightarrow> x \<in> set xs \<and> key x = Some k"
  by (auto simp: keyed_def split: option.splits)

lemma hash_of_keyed_None: "hash_of (keyed key xs) k = None \<longleftrightarrow> k \<notin> set (names_of key xs)"
  by (simp add: hash_of_def map_of_eq_None_iff map_fst_keyed [symmetric])

lemma hash_of_keyed_Some: "hash_of (keyed key xs) k = Some x \<Longrightarrow> x \<in> set xs \<and> key x = Some k"
  using map_of_SomeD [of "rev (keyed key xs)" k x] by (simp add: hash_of_def set_keyed)

lemma set_hash_entries: "(k, v) \<in> set (hash_entries kvs) \<longleftrightarrow> hash_of kvs k = Some v"
proof -
  have "hash_of kvs k \<noteq> None \<longleftrightarrow> k \<in> fst ` set kvs" by (auto simp: hash_of_def map_of_eq_None_iff)
  then show ?thesis by (auto simp: hash_entries_def)
qed

lemma concat_entries_Nil: "concat (map (\<lambda>(k, v). f k v) (hash_entries kvs)) = [] \<longleftrightarrow> (\<forall>k v. hash_of kvs k = Some v \<longrightarrow> f k v = [])"
proof -
  have "concat (map (\<lambda>(k, v). f k v) ps) = [] \<longleftrightarrow> (\<forall>k v. (k, v) \<in> set ps \<longrightarrow> f k v = [])" for ps by (induction ps) auto
  then show ?thesis by (simp only: set_hash_entries)
qed

text \<open>The loops that report the keys of one map that the other lacks, and the loops over the keys of both.\<close>

lemma lost_Nil:
  assumes "\<And>k v. x k v \<noteq> []"
  shows "concat (map (\<lambda>(k, v). if hash_of (keyed key new) k = None \<and> P then x k v else []) (hash_entries (keyed key old))) = [] \<longleftrightarrow>
    (P \<longrightarrow> set (names_of key old) \<subseteq> set (names_of key new))"
proof -
  have key: "(\<exists>v. hash_of (keyed key xs) k = Some v) \<longleftrightarrow> k \<in> set (names_of key xs)" for xs k
    using hash_of_keyed_None [of key xs k] by (cases "hash_of (keyed key xs) k") auto
  have "concat (map (\<lambda>(k, v). if hash_of (keyed key new) k = None \<and> P then x k v else []) (hash_entries (keyed key old))) = [] \<longleftrightarrow>
      (\<forall>k. (\<exists>v. hash_of (keyed key old) k = Some v) \<longrightarrow> \<not> (k \<notin> set (names_of key new) \<and> P))"
    unfolding concat_entries_Nil hash_of_keyed_None using assms by (auto split: if_splits)
  then show ?thesis unfolding key by auto
qed

lemma both_Nil:
  "concat (map (\<lambda>(k, v). case hash_of old k of None \<Rightarrow> [] | Some u \<Rightarrow> x k u v) (hash_entries new)) = [] \<longleftrightarrow>
    (\<forall>k u v. hash_of old k = Some u \<and> hash_of new k = Some v \<longrightarrow> x k u v = [])"
  unfolding concat_entries_Nil by (auto split: option.splits)

section \<open>What the check decides\<close>

definition field_compat :: "proto_lib \<Rightarrow> compatibility_direction \<Rightarrow> field_descriptor \<Rightarrow> field_descriptor \<Rightarrow> bool" where
  "field_compat pl dir f g \<longleftrightarrow> fd_label f = fd_label g \<and> fd_proto3_optional f = fd_proto3_optional g
     \<and> (type_name_of pl f = type_name_of pl g
        \<or> (case classify_type_change_typed pl (type_name_of pl f) (fd_type f) (type_name_of pl g) (fd_type g) of
             FullyCompat \<Rightarrow> True | BackwardOnly \<Rightarrow> dir \<notin> {Forward, Full} | Breaking \<Rightarrow> False))"

definition method_compat :: "method_descriptor \<Rightarrow> method_descriptor \<Rightarrow> bool" where
  "method_compat m n \<longleftrightarrow> md_input_type m = md_input_type n \<and> md_output_type m = md_output_type n \<and> streaming m = streaming n"

lemma field_violations_Nil: "type_violations pl decl dir num f g @ label_violations decl num f g = [] \<longleftrightarrow> field_compat pl dir f g"
  by (auto simp: type_violations_def label_violations_def field_compat_def Let_def split: type_change_compat.splits)

lemma check_message_Nil:
  "check_message pl old new dir = [] \<longleftrightarrow>
     (dir \<in> {Forward, Full} \<longrightarrow> set (names_of fd_number (dp_field old)) \<subseteq> set (names_of fd_number (dp_field new)))
     \<and> (\<forall>num f g. hash_of (keyed fd_number (dp_field old)) num = Some f \<and> hash_of (keyed fd_number (dp_field new)) num = Some g
          \<longrightarrow> field_compat pl dir f g)"
  unfolding check_message_def Let_def append_is_Nil_conv lost_Nil [OF list.distinct(2)] both_Nil
  by (simp only: append_is_Nil_conv [symmetric] field_violations_Nil)

lemma check_enum_Nil:
  "check_enum old new dir = [] \<longleftrightarrow>
     (dir \<in> {Backward, Full} \<longrightarrow> set (names_of ev_number (ed_value old)) \<subseteq> set (names_of ev_number (ed_value new)))
     \<and> (dir \<in> {Forward, Full} \<longrightarrow> set (names_of ev_number (ed_value new)) \<subseteq> set (names_of ev_number (ed_value old)))"
  unfolding check_enum_def Let_def append_is_Nil_conv by (simp only: prod.case lost_Nil [OF list.distinct(2)])

lemma check_service_Nil:
  "check_service old new dir = [] \<longleftrightarrow>
     (dir \<in> {Backward, Full} \<longrightarrow> set (names_of md_name (sd_method old)) \<subseteq> set (names_of md_name (sd_method new)))
     \<and> (dir \<in> {Forward, Full} \<longrightarrow> set (names_of md_name (sd_method new)) \<subseteq> set (names_of md_name (sd_method old)))
     \<and> (\<forall>name m n. hash_of (keyed md_name (sd_method old)) name = Some m \<and> hash_of (keyed md_name (sd_method new)) name = Some n
          \<longrightarrow> method_compat m n)"
proof -
  have "(if md_input_type m \<noteq> md_input_type n \<or> md_output_type m \<noteq> md_output_type n then [a] else [])
      @ (if streaming m \<noteq> streaming n then [b] else []) = [] \<longleftrightarrow> method_compat m n" for m n and a b :: violation
    by (auto simp: method_compat_def)
  then show ?thesis unfolding check_service_def Let_def append_is_Nil_conv [of "concat _"] both_Nil
    by (simp only: lost_Nil [OF list.distinct(2)])
qed

text \<open>The strictest direction is the conjunction of the other two.\<close>

lemma check_full:
  "check_payloads pl p q Full = [] \<longleftrightarrow> check_payloads pl p q Backward = [] \<and> check_payloads pl p q Forward = []"
proof -
  have "field_compat pl Full f g \<longleftrightarrow> field_compat pl Backward f g \<and> field_compat pl Forward f g" for f g
    by (auto simp: field_compat_def split: type_change_compat.splits)
  then show ?thesis by (cases p; cases q) (auto simp: check_message_Nil check_enum_Nil check_service_Nil)
qed

lemma check_refl: "check_payloads pl p p dir = []"
  by (cases p) (auto simp: check_message_Nil check_enum_Nil check_service_Nil field_compat_def method_compat_def)

section \<open>Backward compatible steps\<close>

lemma field_compat_refl: "field_compat pl dir f f"
  by (simp add: field_compat_def)

lemma message_backward:
  assumes "distinct (names_of fd_number (dp_field old))"
    and "\<And>g. g \<in> set (dp_field new) \<Longrightarrow>
      fd_number g = None \<or> (\<exists>f \<in> set (dp_field old). fd_number f = fd_number g \<and> field_compat pl Backward f g)
      \<or> (\<forall>f \<in> set (dp_field old). fd_number f \<noteq> fd_number g)"
  shows "check_message pl old new Backward = []"
proof -
  have "field_compat pl Backward f g"
    if "hash_of (keyed fd_number (dp_field old)) num = Some f" "hash_of (keyed fd_number (dp_field new)) num = Some g" for num f g
  proof -
    have f: "f \<in> set (dp_field old)" "fd_number f = Some num" and g: "g \<in> set (dp_field new)" "fd_number g = Some num"
      using that hash_of_keyed_Some by metis+
    then obtain f' where "f' \<in> set (dp_field old)" "fd_number f' = Some num" "field_compat pl Backward f' g" using assms(2) [OF g(1)] by auto
    then show ?thesis using distinct_names_unique [OF assms(1)] f by metis
  qed
  then show ?thesis by (auto simp: check_message_Nil)
qed

definition backward_step :: "proto_lib \<Rightarrow> working_state \<Rightarrow> working_state \<Rightarrow> bool" where
  "backward_step pl s t \<longleftrightarrow> (\<forall>n p q. payload_at s n = Some p \<longrightarrow> payload_at t n = Some q \<longrightarrow> check_payloads pl p q Backward = [])
     \<and> set (ws_removed t) \<subseteq> set (ws_removed s)"

lemma backward_put:
  assumes "exclusive s"
  shows "bt_get (ws_messages s) n = Some m \<Longrightarrow> check_message pl m m' Backward = [] \<Longrightarrow> backward_step pl s (put_message n m' s)"
    and "bt_get (ws_enums s) n = Some e \<Longrightarrow> check_enum e e' Backward = [] \<Longrightarrow> backward_step pl s (put_enum n e' s)"
    and "bt_get (ws_services s) n = Some v \<Longrightarrow> check_service v v' Backward = [] \<Longrightarrow> backward_step pl s (put_service n v' s)"
  using exclusive_gets [OF assms, of n] exclusive_others [OF assms, of n]
  by (auto simp: backward_step_def put_message_def put_enum_def put_service_def payload_at_insert check_refl)

lemma add_field_backward:
  assumes "schema_ok s" "ws_wf s" "add_field pl a b c k d s = Inr t"
  shows "backward_step pl s t"
proof -
  obtain m where m: "bt_get (ws_messages s) a = Some m" "\<not> list_ex (\<lambda>f. fd_number f = Some k) (dp_field m)"
    using assms(3) by (auto simp: add_field_def mut_simps)
  have "distinct (names_of fd_number (dp_field m))" using schema_ok_gets(1) [OF assms(1,2) m(1)] by (simp add: message_ok_def)
  then have "check_message pl m (dp_set_field (dp_field m @ [f]) m') Backward = []" if "fd_number f = Some k" for f m'
    by (rule message_backward) (use that m(2) in \<open>auto simp: list_ex_iff intro: field_compat_refl\<close>)
  then show ?thesis
    using assms(2,3) m(1) backward_put(1) [OF _ m(1)] by (auto simp: add_field_def mut_simps Let_def case_prod_unfold ws_wf_def)
qed

lemma subset_backward:
  assumes "schema_ok s" "ws_wf s" "bt_get (ws_messages s) a = Some m" "set (dp_field m') \<subseteq> set (dp_field m)"
  shows "backward_step pl s (put_message a m' s)"
proof -
  have "distinct (names_of fd_number (dp_field m))" using schema_ok_gets(1) [OF assms(1,2,3)] by (simp add: message_ok_def)
  then have "check_message pl m m' Backward = []"
    by (rule message_backward) (use assms(4) in \<open>auto intro: field_compat_refl\<close>)
  then show ?thesis using backward_put(1) [OF _ assms(3)] assms(2) by (simp add: ws_wf_def)
qed

lemma remove_field_backward:
  assumes "schema_ok s" "ws_wf s" "remove_field a b s = Inr t"
  shows "backward_step pl s t"
proof -
  have sub: "set (remove_first p xs) \<subseteq> set xs" for p and xs :: "field_descriptor list" by (induction xs) auto
  obtain m m' where "bt_get (ws_messages s) a = Some m" "t = put_message a m' s"
    "dp_field m' = remove_first (\<lambda>f. fd_name f = Some b) (dp_field m)"
    using assms(3) by (auto simp: remove_field_def mut_simps Let_def split: option.splits)
  then show ?thesis using subset_backward [OF assms(1,2)] sub by metis
qed

lemma take_in_order_subset: "set (take_in_order by_name ns) \<subseteq> ran by_name"
proof (induction ns arbitrary: by_name)
  case (Cons n ns)
  have sub: "ran (by_name(n := None)) \<subseteq> ran by_name" by (auto simp: ran_def)
  show ?case
  proof (cases "by_name n")
    case None
    then show ?thesis using Cons [of by_name] by simp
  next
    case (Some f)
    then show ?thesis using Cons [of "by_name(n := None)"] sub ranI [of by_name n f, OF Some] by (simp del: fun_upd_apply)
  qed
qed simp

lemma reorder_fields_backward:
  assumes "schema_ok s" "ws_wf s" "reorder_fields a ns s = Inr t"
  shows "backward_step pl s t"
proof -
  have "ran (map_of (rev (map (\<lambda>f. (g f, f)) fs))) \<subseteq> set fs" for g :: "field_descriptor \<Rightarrow> string" and fs
    by (auto simp: ran_def dest!: map_of_SomeD)
  then show ?thesis
    using assms(3) take_in_order_subset
    by (auto simp: reorder_fields_def mut_simps Let_def intro!: subset_backward [OF assms(1,2)]) (meson subsetD)
qed

lemma change_field_backward:
  assumes "schema_ok s" "ws_wf s" "change_field a b f s = Inr t" "\<And>x. fd_number (f x) = fd_number x"
    and "\<And>m x. bt_get (ws_messages s) a = Some m \<Longrightarrow> find (\<lambda>x. fd_name x = Some b) (dp_field m) = Some x \<Longrightarrow> field_compat pl Backward x (f x)"
  shows "backward_step pl s t"
proof -
  let ?p = "\<lambda>x. fd_name x = Some b"
  obtain m x where m: "bt_get (ws_messages s) a = Some m" "find ?p (dp_field m) = Some x"
    "t = put_message a (dp_set_field (update_first ?p f (dp_field m)) m) s"
    using assms(3) by (auto simp: change_field_def mut_simps find_named_def ok_or_Inr)
  obtain ys zs where xs: "dp_field m = ys @ x # zs" "update_first ?p f (dp_field m) = ys @ f x # zs" using find_split [OF m(2)] by metis
  have "distinct (names_of fd_number (dp_field m))" using schema_ok_gets(1) [OF assms(1,2) m(1)] by (simp add: message_ok_def)
  then have "check_message pl m (dp_set_field (update_first ?p f (dp_field m)) m) Backward = []"
    by (rule message_backward) (use xs assms(4) assms(5) [OF m(1,2)] in \<open>auto intro: field_compat_refl\<close>)
  then show ?thesis using backward_put(1) [OF _ m(1)] assms(2) m(3) by (simp add: ws_wf_def)
qed

lemma rename_field_backward:
  assumes "schema_ok s" "ws_wf s" "rename_field pl a b c s = Inr t"
  shows "backward_step pl s t"
  by (rule change_field_backward [OF assms(1,2) assms(3) [unfolded rename_field_def]])
    (simp_all add: field_compat_def type_name_of_def Let_def)

text \<open>The names of scalar types, as the library documents them.\<close>

locale proto_scalars = proto_enums +
  assumes from_name: "pl_type_from_name pl n = Some t \<Longrightarrow> t \<notin> {FtMessage, FtEnum, FtGroup} \<and> pl_type_name pl t = n"
    and to_name: "t \<notin> {FtMessage, FtEnum, FtGroup} \<Longrightarrow> pl_type_from_name pl (pl_type_name pl t) = Some t"
begin

lemma last_segment_undotted: "CHR ''.'' \<notin> set (last_segment s)"
  by (cases s rule: rename_type_ref_cases) simp_all

text \<open>A type change that a mutation may make is one that the check accepts, provided that the type of the field is resolved.\<close>

lemma allowed_type_compat:
  assumes "fd_type f = Some u" "resolve_type pl new = (ty, name)"
    and "type_change_allowed_typed pl (current_type_name pl f) (fd_type f) new ty = Inr ()"
  shows "field_compat pl Backward f (f\<lparr>fd_type := ty, fd_type_name := name\<rparr>)"
proof -
  let ?g = "f\<lparr>fd_type := ty, fd_type_name := name\<rparr>" and ?from = "current_type_name pl f"
  have from_eq: "type_name_of pl f = ?from" by (simp add: type_name_of_def current_type_name_def)
  have accepted: "classify_type_change_typed pl ?from (fd_type f) new ty \<noteq> Breaking" using assms(3) by (simp add: type_change_allowed_iff)
  have "type_name_of pl ?g = new"
  proof (cases "scalar_field_type pl new")
    case (Some t)
    then have "ty = Some t" "name = None" using assms(2) by (simp_all add: resolve_type_def)
    then show ?thesis using Some from_name [of new t] by (simp add: type_name_of_def scalar_field_type_def)
  next
    case None
    then have named: "ty = Some FtMessage" "name = Some new" using assms(2) by (simp_all add: resolve_type_def)
    have "CHR ''.'' \<notin> set new"
    proof (cases "?from = new")
      case True
      show ?thesis
      proof (cases "u \<in> {FtMessage, FtEnum, FtGroup}")
        case in_kinds: True
        then have "new = last_segment (case_option [] id (fd_type_name f))"
          using True assms(1) by (auto simp: current_type_name_def)
        then show ?thesis using last_segment_undotted by simp
      next
        case False
        then have "pl_type_from_name pl new = Some u" using to_name [OF False] True assms(1) by (auto simp: current_type_name_def)
        then show ?thesis using None by (simp add: scalar_field_type_def)
      qed
    next
      case False
      then have "(allowlist_key ?from (fd_type f), new) \<in> set fully_changes \<union> set backward_only_changes"
        using accepted named by (auto simp: classify_type_change_typed_def Let_def allowlist_key_def split: if_splits)
      then show ?thesis by (auto simp: fully_changes_def backward_only_changes_def)
    qed
    then show ?thesis using named by (simp add: type_name_of_def)
  qed
  then show ?thesis
    using accepted from_eq by (auto simp: field_compat_def split: type_change_compat.splits)
qed

lemma change_field_type_backward:
  assumes "schema_ok s" "ws_wf s" "change_field_type pl a b c s = Inr t"
    and "\<And>m f. bt_get (ws_messages s) a = Some m \<Longrightarrow> f \<in> set (dp_field m) \<Longrightarrow> fd_type f \<noteq> None"
  shows "backward_step pl s t"
proof -
  obtain ty name where r: "resolve_type pl c = (ty, name)" by fastforce
  obtain m x where m: "bt_get (ws_messages s) a = Some m" "find (\<lambda>x. fd_name x = Some b) (dp_field m) = Some x"
    "type_change_allowed_typed pl (current_type_name pl x) (fd_type x) c ty = Inr ()"
    "change_field a b (\<lambda>field. field\<lparr>fd_type := ty, fd_type_name := name\<rparr>) s = Inr t"
    using assms(3) r by (auto simp: change_field_type_def mut_simps find_named_def ok_or_Inr)
  then obtain u where "fd_type x = Some u" using assms(4) [OF m(1)] by (metis find_Some_iff not_None_eq nth_mem)
  from allowed_type_compat [OF this r m(3)] show ?thesis
    by (intro change_field_backward [OF assms(1,2) m(4)]) (use m(1,2) in auto)
qed

end

interpretation rps: proto_scalars reference_proto
proof
  fix n t
  show "t \<notin> {FtMessage, FtEnum, FtGroup} \<and> pl_type_name reference_proto t = n" if "pl_type_from_name reference_proto n = Some t"
  proof -
    have "of_char c \<noteq> (0 :: 8 word) \<and> of_char c \<noteq> (1 :: 8 word) \<and> of_char c \<noteq> (2 :: 8 word)" if "(3 :: nat) \<le> of_char c" for c
      using that unat_of_char [of c] by auto
    then show ?thesis using that unat_of_char by (auto simp: reference_proto_def split: if_splits list.splits)
  qed
  show "pl_type_from_name reference_proto (pl_type_name reference_proto t) = Some t" if "t \<notin> {FtMessage, FtEnum, FtGroup}"
  proof -
    have less: "unat x < 256" for x :: "8 word" using unsigned_less [of x, where 'a = nat] by simp
    then have "unat (of_char (char_of (unat x)) :: 8 word) = unat x" for x :: "8 word" by (simp add: unat_of_char)
    then have "of_char (char_of (unat x)) = x" for x :: "8 word" by (simp only: word_unat_eq_iff)
    moreover have "x = 0 \<or> x = 1 \<or> x = 2" if "\<not> 3 \<le> unat x" for x :: "8 word" using that by (auto simp: word_unat_eq_iff)
    ultimately show ?thesis using that less by (cases t) (auto simp: reference_proto_def)
  qed
qed

lemma create_ops_backward:
  assumes "ws_wf s"
  shows "create_message n s = Inr t \<Longrightarrow> backward_step pl s t" and "create_enum n s = Inr t \<Longrightarrow> backward_step pl s t"
    and "add_service n s = Inr t \<Longrightarrow> backward_step pl s t"
proof -
  have step: "backward_step pl s t"
    if "payload_at s n = None" "payload_at t = (payload_at s)(n \<mapsto> p)" "set (ws_removed t) \<subseteq> set (ws_removed s)" for p
    using that by (auto simp: backward_step_def check_refl split: if_splits)
  show "create_message n s = Inr t \<Longrightarrow> backward_step pl s t" and "create_enum n s = Inr t \<Longrightarrow> backward_step pl s t"
    and "add_service n s = Inr t \<Longrightarrow> backward_step pl s t"
    by (rule step; auto simp: create_message_def create_enum_def add_service_def mut_simps Let_def declared_iff payload_at_None payload_at_insert)+
qed

lemma add_enum_value_backward:
  assumes "ws_wf s" "add_enum_value a b k s = Inr t"
  shows "backward_step pl s t"
proof -
  obtain e where "bt_get (ws_enums s) a = Some e"
    "t = put_enum a (e\<lparr>ed_value := ed_value e @ [\<lparr>ev_name = Some b, ev_number = Some k, ev_options = None\<rparr>]\<rparr>) s"
    using assms(2) by (auto simp: add_enum_value_def mut_simps Let_def)
  moreover have "check_enum e (e\<lparr>ed_value := ed_value e @ [v]\<rparr>) Backward = []" for v by (auto simp: check_enum_Nil split: option.splits)
  ultimately show ?thesis using backward_put(2) [of s a e] assms(1) by (simp add: ws_wf_def)
qed

lemma add_rpc_backward:
  assumes "schema_ok s" "ws_wf s" "add_rpc a b c d x y s = Inr t"
  shows "backward_step pl s t"
proof -
  define m where "m = \<lparr>md_name = Some b, md_input_type = Some c, md_output_type = Some d, md_options = None, md_client_streaming = Some x,
    md_server_streaming = Some y\<rparr>"
  obtain v where v: "bt_get (ws_services s) a = Some v" "\<not> list_ex (\<lambda>m. md_name m = Some b) (sd_method v)" "md_name m = Some b"
    "t = put_service a (v\<lparr>sd_method := sd_method v @ [m]\<rparr>) s"
    using assms(3) by (auto simp: add_rpc_def mut_simps m_def)
  have d: "distinct (names_of md_name (sd_method v))" using schema_ok_gets(3) [OF assms(1,2) v(1)] by (simp add: service_ok_def)
  have "method_compat m1 m2"
    if h: "hash_of (keyed md_name (sd_method v)) n = Some m1" "hash_of (keyed md_name (sd_method v @ [m])) n = Some m2" for n m1 m2
  proof -
    have "m1 \<in> set (sd_method v)" "md_name m1 = Some n" "m2 \<in> set (sd_method v @ [m])" "md_name m2 = Some n"
      using hash_of_keyed_Some [OF h(1)] hash_of_keyed_Some [OF h(2)] by simp_all
    then have "m1 = m2" using v(2,3) distinct_names_unique [OF d] by (auto simp: list_ex_iff)
    then show ?thesis by (simp add: method_compat_def)
  qed
  then have "check_service v (v\<lparr>sd_method := sd_method v @ [m]\<rparr>) Backward = []" by (auto simp: check_service_Nil)
  then show ?thesis using backward_put(3) [OF _ v(1)] assms(2) v(4) by (simp add: ws_wf_def)
qed

lemma rename_enum_value_backward:
  assumes "schema_ok s" "ws_wf s" "rename_enum_value a b c s = Inr t"
  shows "backward_step pl s t"
proof -
  let ?f = "rename_enum_value_refs_in_message a b c" and ?g = "rename_enum_value_ref_in_field a b c"
  have removed: "set (ws_removed t) \<subseteq> set (ws_removed s)"
    using assms(3) by (auto simp: rename_enum_value_def mut_simps Let_def case_prod_unfold)
  obtain e where e: "bt_get (ws_enums s) a = Some e"
    "\<And>n. bt_get (ws_messages t) n = map_option (\<lambda>m. fst (?f m)) (bt_get (ws_messages s) n)" "ws_services t = ws_services s"
    "ws_enums t = bt_insert a (e\<lparr>ed_value := update_first (\<lambda>v. ev_name v = Some b) (\<lambda>v. v\<lparr>ev_name := Some c\<rparr>) (ed_value e)\<rparr>) (ws_enums s)"
    using assms(3) by (auto simp: rename_enum_value_def mut_simps Let_def case_prod_unfold rewrite_all_get comp_def)
  have "check_message pl m (fst (?f m)) Backward = []" if m: "bt_get (ws_messages s) n = Some m" for n m
  proof (rule message_backward)
    show "distinct (names_of fd_number (dp_field m))" using schema_ok_gets(1) [OF assms(1,2) m] by (simp add: message_ok_def)
    have fields: "dp_field (fst (?f m)) = map (fst \<circ> ?g) (dp_field m)" by (cases m) (simp add: Let_def)
    have "type_name_of pl (f\<lparr>fd_default_value := v\<rparr>) = type_name_of pl f" for f v by (simp add: type_name_of_def)
    then have "field_compat pl Backward f (fst (?g f)) \<and> fd_number (fst (?g f)) = fd_number f" for f
      by (simp add: field_compat_def rename_enum_value_ref_in_field_def)
    then show "fd_number g = None \<or> (\<exists>f \<in> set (dp_field m). fd_number f = fd_number g \<and> field_compat pl Backward f g)
        \<or> (\<forall>f \<in> set (dp_field m). fd_number f \<noteq> fd_number g)" if "g \<in> set (dp_field (fst (?f m)))" for g
      using that fields by auto
  qed
  moreover have "check_enum e (e\<lparr>ed_value := update_first (\<lambda>v. ev_name v = Some b) (\<lambda>v. v\<lparr>ev_name := Some c\<rparr>) (ed_value e)\<rparr>) Backward = []"
    by (simp add: check_enum_Nil update_first_keeps)
  ultimately show ?thesis
    using e removed assms(2) check_refl
    by (auto simp: backward_step_def payload_at_def ws_wf_def exclusive_def split: option.splits if_splits)
qed

section \<open>The gate lets additions pass\<close>

text \<open>
  The operations that take nothing away from the readers of old data: additions, the removal, renaming and reordering of fields (a field
  is told by its number), the renaming of enum values, accepted changes of a field's type, and imports.
\<close>

fun additive :: "working_state \<Rightarrow> proto_op \<Rightarrow> bool" where
  "additive s (AddField m f t n c) \<longleftrightarrow> True"
| "additive s (RemoveField m f) \<longleftrightarrow> True"
| "additive s (RenameField m f g) \<longleftrightarrow> True"
| "additive s (ReorderFields m fs) \<longleftrightarrow> True"
| "additive s (ChangeFieldType m f t) \<longleftrightarrow>
     (case bt_get (ws_messages s) m of Some msg \<Rightarrow> list_all (\<lambda>f. fd_type f \<noteq> None) (dp_field msg) | None \<Rightarrow> True)"
| "additive s (CreateMessage m) \<longleftrightarrow> True"
| "additive s (CreateEnum e) \<longleftrightarrow> True"
| "additive s (AddEnumValue e v n) \<longleftrightarrow> True"
| "additive s (RenameEnumValue e v w) \<longleftrightarrow> True"
| "additive s (AddService v) \<longleftrightarrow> True"
| "additive s (AddRpc v r i out' cs ss) \<longleftrightarrow> True"
| "additive s (UpdateImport p c rm) \<longleftrightarrow> True"
| "additive s _ \<longleftrightarrow> False"

lemma update_import_backward: "update_import a b c s = Inr t \<Longrightarrow> backward_step pl s t"
  by (auto simp: update_import_def Let_def backward_step_def check_refl)

lemma additive_backward:
  assumes "proto_scalars pl" "schema_ok s" "ws_wf s" "apply_op pl op s = Inr t" "additive s op"
  shows "backward_step pl s t"
proof (cases op)
  case (ChangeFieldType m f ty)
  then show ?thesis
    using assms(4,5) by (intro proto_scalars.change_field_type_backward [OF assms(1-3)]) (auto simp: list_all_iff)
qed (use assms(2-5) add_field_backward [OF assms(2,3)] remove_field_backward [OF assms(2,3)] rename_field_backward [OF assms(2,3)]
    reorder_fields_backward [OF assms(2,3)] create_ops_backward [OF assms(3)] add_enum_value_backward [OF assms(3)]
    rename_enum_value_backward [OF assms(2,3)] add_rpc_backward [OF assms(2,3)] update_import_backward in simp_all)

lemma effect_upserts_names: "(n, b) \<in> set (effect_upserts pl s ns) \<Longrightarrow> n \<in> set ns"
  by (induction ns) (auto split: option.splits if_splits)

lemma upsert_violations_Nil:
  "upsert_violations check rules old ups = [] \<longleftrightarrow>
    (\<forall>n new. (n, new) \<in> set ups \<longrightarrow> (\<forall>b. bt_get (so_decls old) n = Some b \<longrightarrow> (case check b new rules of Inl vs \<Rightarrow> vs = [] | Inr _ \<Rightarrow> True)))"
  by (induction check rules old ups rule: upsert_violations.induct) (auto split: option.splits sum.splits)


definition sample_addition :: proto_op where
  "sample_addition = AddField ''M'' ''c'' ''int64'' 3 []"

definition sample_grown :: descriptor where
  "sample_grown = dp_set_field (dp_field sample_outer @ [sample_field ''c'' 3 (FtScalar 1)]) sample_outer"

lemma sample_addition_applied: "apply_op reference_proto sample_addition (sample_state False) = Inr (put_message ''M'' sample_grown (sample_state False))"
  by (simp add: sample_addition_def add_field_def message_mut_def sample_state_def sample_outer_def sample_grown_def sample_field_def
      empty_descriptor_def is_number_reserved_def cardinality_to_label_def resolve_type_def scalar_field_type_def reference_proto_def)

lemma sample_grown_fits: "fits_state reference_proto 5 (put_message ''M'' sample_grown (sample_state False))"
proof -
  have "length (encode_decl reference_proto (PMessage sample_grown)) \<le> 200" "length (encode_meta reference_proto sample_file) \<le> 200"
    by code_simp+
  moreover have "fits_payload 5 (PMessage sample_grown)" "fits_meta sample_file"
    by (simp_all add: fits_payload_def fits_meta_def sample_grown_def sample_outer_def sample_file_def empty_descriptor_def sample_field_def
        default_meta_def fits_vec_def fits_field_descriptor_def)
  ultimately show ?thesis
    by (simp add: fits_state_def put_message_def payload_at_def sample_state_def)
qed


end
