(* ===== verification/Spec2Isabelle.thy ===== *)
theory Spec2Isabelle
  imports Change_Properties Repository_Properties Idempotency_Results Jj_Sweep Proto_Gate
begin

text \<open>
  \<^bold>\<open>SchemaHub: a verification development of its control plane, storage and protobuf compiler.\<close>

  \<^bold>\<open>The program.\<close>  SchemaHub stores interface schemas in repositories, versions them with the Jujutsu library
  \<open>jj-lib\<close>, and edits them by operations instead of text.  A write arrives with an identity and perhaps an
  idempotency key; the core authorizes it against projects and memberships, loads the stored declarations of a schema, hands the
  operations to the compiler of the schema's format, checks the result for compatibility when the bookmark is protected, and
  publishes it as one operation of the versioned storage.  Reviewed changes go through a ledger of change records with its own
  lifecycle.  Every durable resource lies in one object database under compare-and-swap.

  \<^bold>\<open>Theories and the code they model.\<close>

  \<^item> Shared vocabulary.  \<open>Prelude\<close>: Rust's \<open>Result\<close> with \<open>?\<close>, \<open>BTreeMap\<close> as a sorted association list, messages.
    \<open>Strings\<close>: the string operations used.  \<open>Types\<close>: identities, roles, identifiers and paths of \<open>schemahub-types\<close>.
    \<open>Effects\<close>: procedures that read a clock, draw identifiers and call the database, with other processes running
    between any two calls.  \<open>Codec\<close>: the serialization of stored resources, with \<open>serde_json\<close> a parameter.
    \<open>Versioned\<close>: compare-and-swap replacement by ETag, as the locales \<open>cas_store\<close> and \<open>versioned_store\<close>.
    \<open>Core_Error\<close>: \<open>error.rs\<close> and the compilers' errors.
  \<^item> Object database.  \<open>Object_Db\<close>: the trait of \<open>schemahub-jj/src/object_db.rs\<close> as the record \<open>object_db\<close>, its laws as the
    locale \<open>record_db_laws\<close>, and \<open>memory_db.rs\<close>, on which the locale is interpreted.
  \<^item> Change records.  \<open>Change_Store\<close>: \<open>change_record/model.rs\<close> and \<open>store.rs\<close> (both stores).  \<open>Change_Ledger\<close>:
    \<open>ledger.rs\<close> and \<open>runtime.rs\<close>.  \<open>Change_Lifecycle\<close>: the lifecycle as a step relation and the locale
    \<open>change_ledger\<close>.  \<open>Change_Properties\<close>: what follows for the model.
  \<^item> Access control.  \<open>Access_Store\<close>: \<open>auth_store.rs\<close> and \<open>auth_object_db.rs\<close>.  \<open>Projects\<close>: \<open>auth.rs\<close>, \<open>auth_impls.rs\<close> and
    \<open>projects.rs\<close>.  \<open>Access_Properties\<close>: their properties.
  \<^item> Repositories.  \<open>Repository\<close>: \<open>config.rs\<close>, \<open>schemahub-jj/src/bookmark.rs\<close> and the stores of \<open>repository.rs\<close>.
    \<open>Repositories\<close>: the operations of \<open>Core\<close> in \<open>repository.rs\<close> and the locale \<open>repository_registry\<close>.
    \<open>Repository_Properties\<close>: their properties.
  \<^item> Idempotency.  \<open>Idempotency\<close>: the receipt store of \<open>mutation/idempotency.rs\<close>.  \<open>Idempotency_Properties\<close>: its behaviour
    under interference (locale \<open>receipt_store\<close>).  \<open>Idempotency_Alone\<close>, \<open>Idempotency_Claims\<close>, \<open>Idempotency_Results\<close>:
    its behaviour for one writer (locale \<open>quiet_receipts\<close>).
  \<^item> Versioned storage.  \<open>Jj_Lib\<close>: what \<open>schemahub-jj\<close> calls in \<open>jj-lib\<close>, as the record \<open>jj_lib\<close>.  \<open>Jj\<close>,
    \<open>Jj_Publish\<close>, \<open>Jj_Log\<close>, \<open>Jj_Gc\<close>: every operation of \<open>Jj\<close> in \<open>schemahub-jj/src/lib.rs\<close> and \<open>repo.rs\<close>.
    \<open>Jj_Laws\<close>: the locale \<open>jj_store\<close> of what is relied on in the library.  \<open>Jj_Publication\<close>, \<open>Jj_History\<close>, \<open>Jj_Retention\<close>,
    \<open>Jj_Sweep\<close>: publication, the operation log, retained revisions and garbage collection (locale \<open>jj_objects\<close>).
    \<open>Jj_Reference\<close>: an in-memory implementation of the library's interface on which both locales are interpreted.
    \<open>Jj_Results\<close>: properties of the crate.
  \<^item> Protobuf compiler (\<open>schemahub-compiler-protobuf\<close>).  \<open>Proto_Types\<close>: the descriptors.  \<open>Proto_Codec\<close>: \<open>codec.rs\<close>.
    \<open>Proto_Codec_Laws\<close>: decoding reverses encoding, by the locale \<open>byte_codec\<close> interpreted on every codec.  \<open>Proto_Blob\<close>:
    \<open>blob.rs\<close>.  \<open>Proto_Ops\<close>: \<open>operations.rs\<close>.  \<open>Proto_Typecompat\<close>: \<open>typecompat.rs\<close>.  \<open>Proto_Refs\<close>, \<open>Proto_State\<close>,
    \<open>Proto_Mutations\<close>: \<open>mutations.rs\<close>, every handler.  \<open>Proto_Tracking\<close>: what the working state keeps track of.
    \<open>Proto_Effect\<close>: effects, with \<open>apply_effect\<close> and \<open>diff_effect\<close> of \<open>change_record/validation.rs\<close>.
    \<open>Proto_Wellformed\<close>: well-formed schemas.  \<open>Proto_Compat\<close>: \<open>compat.rs\<close> and the gate of \<open>mutation/compat.rs\<close>.
    \<open>Proto_Gate\<close>: what the gate lets through.

  \<^bold>\<open>What is shown.\<close>

  \<^item> Change ledger.  Every operation, over the durable store and with other processes between its reads and writes, takes only
    steps of the change lifecycle; records stay well formed; final records never change; the plan is fixed once it leaves
    draft; an application lease is exclusive until it expires; completing twice is harmless; a stale ETag is refused; resource names
    parse back; listings are complete and ordered.
  \<^item> Access.  The role policy is decided exactly; projects are created with their Owner or not at all; a lone caller never removes
    the last Owner; archived projects refuse everything.  Three theorems show where concurrent callers, \<open>add_member\<close>
    and a retried bootstrap write break these promises.
  \<^item> Repositories.  The registry refines the repository lifecycle; archived repositories do not change and refuse every use;
    accepted configurations are exactly those within the bounds; the bookmark matcher means equality or directory membership.
    One theorem shows that an update naming a predictable ETag can undo an archive.
  \<^item> Receipts.  Receipts move only along their lifecycle; completed writes are replayed; a new claim is granted to a lone writer;
    pruning keeps live claims and the capacity.
  \<^item> Versioned storage.  A publication is atomic and publishes what the policy accepted; receipts are recovered from the operation
    log; revision checks end and are exact; undo walks back; garbage collection keeps what is reachable; declaration names
    survive their encoding.  One theorem shows what undo restores after a write that follows an undo.
  \<^item> Protobuf compiler.  Blobs decode to what was encoded; accepted operations keep a schema well-formed; the effect of a batch,
    applied to the stored blobs, is loaded as the final working state, with no dangling reference to a removed declaration;
    additive mutations pass the gate of a protected bookmark.

  \<^bold>\<open>Parameters.\<close>  \<open>serde_json\<close>, SHA-256, hexadecimal encoding, the clock, random identifiers, \<open>jj-lib\<close>, \<open>prost\<close> and the
  descriptor library are arguments of the definitions.  What is relied on in them is stated as assumptions of locales or as
  hypotheses, and each is met by a concrete instance.

  \<^bold>\<open>Bounds and loops.\<close>  Retry loops run the number of rounds the code gives them and then report the code's error.  The loops over
  commit graphs, trees and operation logs are \<open>partial_function (option)\<close>, with \<open>None\<close> for not returning; on finite
  stores they are proved to return.  The recursive decoder of messages carries the depth of stack it may use, because nested
  messages are bounded by nothing else in the code; any depth above the nesting of the message is enough.  Integers of descriptors
  and varints are machine words and wrap; lengths are assumed to be below \<open>2 ^ 63\<close>, the largest size of a Rust allocation.
  ETags are numbered by a \<open>u64\<close> that wraps, as in the code.

  \<^bold>\<open>Not modelled.\<close>  Parsing, printing and code generation of protobuf work on text with third-party parsers and tools.  The
  FlatBuffers and OpenAPI compilers are further instances of the same compiler interface over third-party document libraries.
  The backends that \<open>jj-lib\<close> calls back into convert between its types and stored messages and stand behind the parameter
  \<open>jj_lib\<close>.  PostgreSQL, redb and file stores are statements and transactions of external systems; the trait they implement is
  modelled with its in-memory implementation.  The mutation orchestration, the reading services and the review service compose the
  modelled parts; only their effect functions and the gate are modelled.  The server, the command line and the wire types
  are transport over third-party frameworks and generated code.  Locks, \<open>async\<close> scheduling inside one call, logging and metrics
  have no counterpart.
\<close>

end
